theory Spec2Isabelle
  imports Complex_Main "HOL-Library.AList"
begin

section \<open>Numeric cells\<close>

text \<open>
  A numeric cell of a pandas column is a double: a number, an infinity, or NaN (the
  missing marker). Numbers are idealised as reals (no rounding, no overflow) and zero
  carries no sign; NaN and the infinities are kept, since division by zero produces
  them instead of raising.
\<close>

datatype cell = NaN | NInf | Fin real | PInf

fun cell_is_neg :: "cell \<Rightarrow> bool" where
  "cell_is_neg NInf = True"
| "cell_is_neg (Fin x) = (x < 0)"
| "cell_is_neg _ = False"

fun cell_neg :: "cell \<Rightarrow> cell" where
  "cell_neg NaN = NaN"
| "cell_neg NInf = PInf"
| "cell_neg (Fin x) = Fin (- x)"
| "cell_neg PInf = NInf"

fun cell_add :: "cell \<Rightarrow> cell \<Rightarrow> cell" where
  "cell_add NaN _ = NaN"
| "cell_add _ NaN = NaN"
| "cell_add (Fin x) (Fin y) = Fin (x + y)"
| "cell_add PInf NInf = NaN"
| "cell_add NInf PInf = NaN"
| "cell_add PInf _ = PInf"
| "cell_add _ PInf = PInf"
| "cell_add NInf _ = NInf"
| "cell_add _ NInf = NInf"

definition cell_sub :: "cell \<Rightarrow> cell \<Rightarrow> cell" where
  "cell_sub a b = cell_add a (cell_neg b)"

fun cell_mul :: "cell \<Rightarrow> cell \<Rightarrow> cell" where
  "cell_mul NaN _ = NaN"
| "cell_mul _ NaN = NaN"
| "cell_mul (Fin x) (Fin y) = Fin (x * y)"
| "cell_mul a b =
     (if a = Fin 0 \<or> b = Fin 0 then NaN
      else if cell_is_neg a = cell_is_neg b then PInf else NInf)"

text \<open>
  True division of doubles: a zero denominator gives an infinity, or NaN for 0/0;
  nothing is raised.
\<close>

fun cell_div :: "cell \<Rightarrow> cell \<Rightarrow> cell" where
  "cell_div NaN _ = NaN"
| "cell_div _ NaN = NaN"
| "cell_div (Fin x) (Fin y) =
     (if y \<noteq> 0 then Fin (x / y)
      else if x = 0 then NaN
      else if 0 < x then PInf else NInf)"
| "cell_div (Fin x) _ = Fin 0"
| "cell_div a (Fin y) = (if cell_is_neg a = (y < 0) then PInf else NInf)"
| "cell_div _ _ = NaN"

text \<open>Comparisons: every comparison with NaN is false.\<close>

fun cell_le :: "cell \<Rightarrow> cell \<Rightarrow> bool" where
  "cell_le NaN _ = False"
| "cell_le _ NaN = False"
| "cell_le NInf _ = True"
| "cell_le _ PInf = True"
| "cell_le (Fin x) (Fin y) = (x \<le> y)"
| "cell_le _ _ = False"

definition cell_less :: "cell \<Rightarrow> cell \<Rightarrow> bool" where
  "cell_less a b \<longleftrightarrow> cell_le a b \<and> \<not> cell_le b a"

definition isna :: "cell \<Rightarrow> bool" where
  "isna c \<longleftrightarrow> c = NaN"

fun is_finite :: "cell \<Rightarrow> bool" where
  "is_finite (Fin x) = True"
| "is_finite _ = False"

section \<open>Series operations\<close>

fun insort_cell :: "cell \<Rightarrow> cell list \<Rightarrow> cell list" where
  "insort_cell x [] = [x]"
| "insort_cell x (y # ys) = (if cell_le x y then x # y # ys else y # insort_cell x ys)"

fun sort_cells :: "cell list \<Rightarrow> cell list" where
  "sort_cells [] = []"
| "sort_cells (x # xs) = insort_cell x (sort_cells xs)"

definition dropna :: "cell list \<Rightarrow> cell list" where
  "dropna xs = filter (\<lambda>c. \<not> isna c) xs"

text \<open>
  \<open>Series.median()\<close>: NaN cells are skipped; the middle order statistic, or the mean
  of the two middle ones; NaN when nothing is left.
\<close>

definition median :: "cell list \<Rightarrow> cell" where
  "median xs =
     (let ys = sort_cells (dropna xs); n = length ys in
      if n = 0 then NaN
      else if odd n then ys ! (n div 2)
      else cell_div (cell_add (ys ! (n div 2 - 1)) (ys ! (n div 2))) (Fin 2))"

text \<open>
  \<open>Series.quantile(q)\<close> with the default linear interpolation: NaN cells are
  skipped, the virtual index is \<open>(n - 1) * q\<close>, and the two neighbouring order
  statistics are interpolated (from the right neighbour when the weight is at least
  one half, as numpy does).
\<close>

definition lerp :: "cell \<Rightarrow> cell \<Rightarrow> real \<Rightarrow> cell" where
  "lerp a b g =
     (let d = cell_sub b a in
      if 1 / 2 \<le> g then cell_sub b (cell_mul d (Fin (1 - g)))
      else cell_add a (cell_mul d (Fin g)))"

definition quantile :: "real \<Rightarrow> cell list \<Rightarrow> cell" where
  "quantile q xs =
     (let ys = sort_cells (dropna xs); n = length ys in
      if n = 0 then NaN
      else
        let h = real (n - 1) * q;
            lo = nat \<lfloor>h\<rfloor>;
            hi = min (lo + 1) (n - 1)
        in lerp (ys ! lo) (ys ! hi) (h - real lo))"

definition fillna :: "cell \<Rightarrow> cell list \<Rightarrow> cell list" where
  "fillna v xs = map (\<lambda>c. if isna c then v else c) xs"

text \<open>
  \<open>Series.clip(upper=u)\<close>: a NaN bound means no bound; NaN cells stay; a cell is
  kept when it is at most \<open>u\<close> and replaced by \<open>u\<close> otherwise. There is no lower bound.
\<close>

definition clip_cell :: "cell \<Rightarrow> cell \<Rightarrow> cell" where
  "clip_cell u c = (if isna c \<or> cell_le c u then c else u)"

definition clip_upper :: "cell \<Rightarrow> cell list \<Rightarrow> cell list" where
  "clip_upper u xs = (if isna u then xs else map (clip_cell u) xs)"

definition series_div :: "cell list \<Rightarrow> cell list \<Rightarrow> cell list" where
  "series_div xs ys = map (\<lambda>(x, y). cell_div x y) (zip xs ys)"

section \<open>Tables\<close>

text \<open>
  A DataFrame is an ordered list of uniquely labelled columns. A column is numeric
  (int64 or float64, NaN for a missing cell) or holds objects (strings, \<open>None\<close> for a
  missing cell), as \<open>read_csv\<close> infers it.
\<close>

datatype column = NumCol "cell list" | ObjCol "string option list"

type_synonym table = "(string \<times> column) list"

datatype py_error = KeyError string | TypeError | ValueError | IndexError | SystemExit

fun col_len :: "column \<Rightarrow> nat" where
  "col_len (NumCol xs) = length xs"
| "col_len (ObjCol xs) = length xs"

fun col_isna_count :: "column \<Rightarrow> nat" where
  "col_isna_count (NumCol xs) = length (filter isna xs)"
| "col_isna_count (ObjCol xs) = length (filter (\<lambda>s. s = None) xs)"

fun nrows :: "table \<Rightarrow> nat" where
  "nrows [] = 0"
| "nrows ((c, col) # df) = col_len col"

definition ncols :: "table \<Rightarrow> nat" where
  "ncols df = length df"

definition shape :: "table \<Rightarrow> nat \<times> nat" where
  "shape df = (nrows df, ncols df)"

definition columns :: "table \<Rightarrow> string list" where
  "columns df = map fst df"

text \<open>\<open>df[c]\<close>: the column labelled \<open>c\<close>, or KeyError.\<close>

definition df_get :: "table \<Rightarrow> string \<Rightarrow> py_error + column" where
  "df_get df c = (case map_of df c of None \<Rightarrow> Inl (KeyError c) | Some col \<Rightarrow> Inr col)"

text \<open>A column about to be used in arithmetic or statistics: objects raise TypeError.\<close>

definition df_num :: "table \<Rightarrow> string \<Rightarrow> py_error + cell list" where
  "df_num df c =
     (case df_get df c of
        Inl e \<Rightarrow> Inl e
      | Inr (ObjCol xs) \<Rightarrow> Inl TypeError
      | Inr (NumCol xs) \<Rightarrow> Inr xs)"

text \<open>\<open>df[c] = s\<close>: replaces the column in place, or appends it as the last column.\<close>

definition df_set :: "string \<Rightarrow> cell list \<Rightarrow> table \<Rightarrow> table" where
  "df_set c xs df = AList.update c (NumCol xs) df"

section \<open>preprocess.py\<close>

text \<open>Step 1: \<open>df.drop(columns=["CUST_ID"], errors="ignore")\<close>.\<close>

definition drop_identifier :: "table \<Rightarrow> table" where
  "drop_identifier df = AList.delete ''CUST_ID'' df"

text \<open>Step 2: \<open>df[c] = df[c].fillna(df[c].median())\<close> for the two columns, in order.\<close>

definition fill_column :: "string \<Rightarrow> table \<Rightarrow> py_error + table" where
  "fill_column c df =
     (case df_num df c of
        Inl e \<Rightarrow> Inl e
      | Inr xs \<Rightarrow> Inr (df_set c (fillna (median xs) xs) df))"

definition fill_missing :: "table \<Rightarrow> py_error + table" where
  "fill_missing df =
     (case fill_column ''CREDIT_LIMIT'' df of
        Inl e \<Rightarrow> Inl e
      | Inr df1 \<Rightarrow> fill_column ''MINIMUM_PAYMENTS'' df1)"

text \<open>Step 3: the four derived ratios, in order.\<close>

text \<open>
  \<open>df["CREDIT_LIMIT"] + 1\<close>, in the column's own type. On a float64 column the sum is
  the real one. \<open>read_csv\<close> gives a column of integers without missing cells the type
  int64, or uint64 when a value lies above the int64 range, and imputation leaves that
  type; there the addition wraps: \<open>2^63 - 1\<close> becomes \<open>-2^63\<close> in an int64 column and
  \<open>2^64 - 1\<close> becomes 0 in a uint64 column. Neither maximum is a double, so a cell that
  holds one belongs to an integer column, and that column is unsigned exactly when
  some cell lies above the int64 maximum.
\<close>

definition INT64_MAX :: real where
  "INT64_MAX = 2 ^ 63 - 1"

definition UINT64_MAX :: real where
  "UINT64_MAX = 2 ^ 64 - 1"

definition unsigned_column :: "cell list \<Rightarrow> bool" where
  "unsigned_column cl \<longleftrightarrow> list_ex (\<lambda>c. cell_less (Fin INT64_MAX) c) cl"

definition add_one :: "bool \<Rightarrow> cell \<Rightarrow> cell" where
  "add_one unsigned c =
     (if c = Fin UINT64_MAX then Fin 0
      else if c = Fin INT64_MAX \<and> \<not> unsigned then Fin (- (2 ^ 63))
      else cell_add c (Fin 1))"

definition limit_denominator :: "cell list \<Rightarrow> cell list" where
  "limit_denominator cl = map (add_one (unsigned_column cl)) cl"

definition per_tenure :: "string \<Rightarrow> string \<Rightarrow> table \<Rightarrow> py_error + table" where
  "per_tenure new num df =
     (case df_num df num of
        Inl e \<Rightarrow> Inl e
      | Inr xs \<Rightarrow>
          (case df_num df ''TENURE'' of
             Inl e \<Rightarrow> Inl e
           | Inr te \<Rightarrow> Inr (df_set new (series_div xs te) df)))"

definition per_limit :: "string \<Rightarrow> string \<Rightarrow> table \<Rightarrow> py_error + table" where
  "per_limit new num df =
     (case df_num df num of
        Inl e \<Rightarrow> Inl e
      | Inr xs \<Rightarrow>
          (case df_num df ''CREDIT_LIMIT'' of
             Inl e \<Rightarrow> Inl e
           | Inr cl \<Rightarrow> Inr (df_set new (series_div xs (limit_denominator cl)) df)))"

definition feature_engineering :: "table \<Rightarrow> py_error + table" where
  "feature_engineering df =
     (case per_tenure ''MONTHLY_AVG_PURCHASE'' ''PURCHASES'' df of
        Inl e \<Rightarrow> Inl e
      | Inr df1 \<Rightarrow>
     (case per_tenure ''MONTHLY_AVG_CASH_ADVANCE'' ''CASH_ADVANCE'' df1 of
        Inl e \<Rightarrow> Inl e
      | Inr df2 \<Rightarrow>
     (case per_limit ''PURCHASE_TO_LIMIT_RATIO'' ''PURCHASES'' df2 of
        Inl e \<Rightarrow> Inl e
      | Inr df3 \<Rightarrow> per_limit ''BALANCE_TO_LIMIT_RATIO'' ''BALANCE'' df3)))"

text \<open>Step 4: the clipping loop over \<open>cols_to_clip\<close>.\<close>

definition cols_to_clip :: "string list" where
  "cols_to_clip = [''BALANCE'', ''PURCHASES'', ''CASH_ADVANCE'', ''PAYMENTS'', ''MINIMUM_PAYMENTS'']"

definition clip_column :: "string \<Rightarrow> table \<Rightarrow> py_error + table" where
  "clip_column c df =
     (case df_num df c of
        Inl e \<Rightarrow> Inl e
      | Inr xs \<Rightarrow> Inr (df_set c (clip_upper (quantile (99 / 100) xs) xs) df))"

fun clip_outliers :: "string list \<Rightarrow> table \<Rightarrow> py_error + table" where
  "clip_outliers [] df = Inr df"
| "clip_outliers (c # cs) df =
     (case clip_column c df of Inl e \<Rightarrow> Inl e | Inr df' \<Rightarrow> clip_outliers cs df')"

text \<open>
  \<open>preprocess\<close>, on the table that \<open>read_csv\<close> returned; the result is the table
  that is written and returned.
\<close>

definition preprocess :: "table \<Rightarrow> py_error + table" where
  "preprocess df =
     (case fill_missing (drop_identifier df) of
        Inl e \<Rightarrow> Inl e
      | Inr df2 \<Rightarrow>
     (case feature_engineering df2 of
        Inl e \<Rightarrow> Inl e
      | Inr df3 \<Rightarrow> clip_outliers cols_to_clip df3))"

definition derived_columns :: "string list" where
  "derived_columns = [''MONTHLY_AVG_PURCHASE'', ''MONTHLY_AVG_CASH_ADVANCE'',
     ''PURCHASE_TO_LIMIT_RATIO'', ''BALANCE_TO_LIMIT_RATIO'']"

section \<open>generate_data.py\<close>

text \<open>
  The legacy global generator of \<open>numpy.random\<close> is a library: the model takes its
  operations as a record over an unspecified state type \<open>'g\<close>. Every draw takes the
  current state and returns the sample with the next state. Seeding may raise
  (\<open>None\<close>); sampling without replacement raises when the sample is larger than the
  population.
\<close>

record 'g np_random =
  rng_seed :: "int \<Rightarrow> 'g \<Rightarrow> 'g option"
  rng_exponential :: "real \<Rightarrow> nat \<Rightarrow> 'g \<Rightarrow> real list \<times> 'g"
  rng_uniform :: "real \<Rightarrow> real \<Rightarrow> nat \<Rightarrow> 'g \<Rightarrow> real list \<times> 'g"
  rng_randint :: "int \<Rightarrow> int \<Rightarrow> nat \<Rightarrow> 'g \<Rightarrow> int list \<times> 'g"
  rng_choice :: "int list \<Rightarrow> nat \<Rightarrow> 'g \<Rightarrow> int list \<times> 'g"
  rng_sample :: "nat \<Rightarrow> nat \<Rightarrow> 'g \<Rightarrow> nat list option \<times> 'g"

text \<open>
  What the program relies on, as numpy documents it: \<open>seed\<close> accepts exactly the
  integers in \<open>[0, 2^32)\<close> and sets the state from the seed alone; a draw of size
  \<open>n\<close> has \<open>n\<close> values; \<open>randint(lo, hi)\<close> stays in \<open>[lo, hi)\<close>;
  \<open>choice(a)\<close> returns elements of \<open>a\<close>; \<open>choice(range(pop), size=k,
  replace=False)\<close> returns \<open>k\<close> distinct positions below \<open>pop\<close>, and raises
  exactly when \<open>pop < k\<close>.
\<close>

definition numpy_contract :: "'g np_random \<Rightarrow> bool" where
  "numpy_contract R \<longleftrightarrow>
     (\<forall>s g g'. rng_seed R s g = rng_seed R s g') \<and>
     (\<forall>s g. rng_seed R s g \<noteq> None \<longleftrightarrow> 0 \<le> s \<and> s < 2 ^ 32) \<and>
     (\<forall>sc n g. length (fst (rng_exponential R sc n g)) = n) \<and>
     (\<forall>lo hi n g. length (fst (rng_uniform R lo hi n g)) = n) \<and>
     (\<forall>lo hi n g. lo < hi \<longrightarrow>
        length (fst (rng_randint R lo hi n g)) = n \<and>
        (\<forall>v \<in> set (fst (rng_randint R lo hi n g)). lo \<le> v \<and> v < hi)) \<and>
     (\<forall>a n g. a \<noteq> [] \<longrightarrow>
        length (fst (rng_choice R a n g)) = n \<and> set (fst (rng_choice R a n g)) \<subseteq> set a) \<and>
     (\<forall>pop k g.
        case fst (rng_sample R pop k g) of
          None \<Rightarrow> pop < k
        | Some idx \<Rightarrow> k \<le> pop \<and> length idx = k \<and> distinct idx \<and> (\<forall>i \<in> set idx. i < pop))"

text \<open>\<open>ndarray.round(d)\<close>: to \<open>d\<close> decimals, halves to the even neighbour.\<close>

definition rint :: "real \<Rightarrow> int" where
  "rint x =
     (let f = \<lfloor>x\<rfloor>; d = x - of_int f in
      if d < 1 / 2 then f else if 1 / 2 < d then f + 1 else if even f then f else f + 1)"

definition np_round :: "nat \<Rightarrow> real \<Rightarrow> real" where
  "np_round d x = of_int (rint (x * 10 ^ d)) / 10 ^ d"

text \<open>\<open>f"C1{str(i).zfill(4)}"\<close>.\<close>

definition digit_char :: "nat \<Rightarrow> char" where
  "digit_char d = char_of (of_char (CHR ''0'') + d)"

fun str_nat :: "nat \<Rightarrow> string" where
  "str_nat n = (if n < 10 then [digit_char n] else str_nat (n div 10) @ [digit_char (n mod 10)])"

definition zfill :: "nat \<Rightarrow> string \<Rightarrow> string" where
  "zfill w s = replicate (w - length s) (CHR ''0'') @ s"

definition cust_id :: "nat \<Rightarrow> string" where
  "cust_id i = ''C1'' @ zfill 4 (str_nat i)"

text \<open>The distributions of the \<open>data\<close> dictionary, in the order of its entries.\<close>

datatype distribution =
  Exponential real | Uniform real real | Randint int int | Choice "int list"

definition column_specs :: "(string \<times> distribution) list" where
  "column_specs =
    [(''BALANCE'', Exponential 1500),
     (''BALANCE_FREQUENCY'', Uniform 0 1),
     (''PURCHASES'', Exponential 1000),
     (''ONEOFF_PURCHASES'', Exponential 500),
     (''INSTALLMENTS_PURCHASES'', Exponential 400),
     (''CASH_ADVANCE'', Exponential 900),
     (''PURCHASES_FREQUENCY'', Uniform 0 1),
     (''ONEOFF_PURCHASES_FREQUENCY'', Uniform 0 1),
     (''PURCHASES_INSTALLMENTS_FREQUENCY'', Uniform 0 1),
     (''CASH_ADVANCE_FREQUENCY'', Uniform 0 (1 / 2)),
     (''CASH_ADVANCE_TRX'', Randint 0 20),
     (''PURCHASES_TRX'', Randint 0 100),
     (''CREDIT_LIMIT'', Choice [500, 1000, 1500, 2000, 3000, 5000, 7500, 10000, 15000, 20000]),
     (''PAYMENTS'', Exponential 1500),
     (''MINIMUM_PAYMENTS'', Exponential 400),
     (''PRC_FULL_PAYMENT'', Uniform 0 1),
     (''TENURE'', Randint 6 13)]"

text \<open>
  One entry: the draw, then \<open>.round(6)\<close> for the continuous ones and
  \<open>.astype(float)\<close> for the credit-limit tiers.
\<close>

fun draw :: "'g np_random \<Rightarrow> distribution \<Rightarrow> nat \<Rightarrow> 'g \<Rightarrow> cell list \<times> 'g" where
  "draw R (Exponential sc) n g =
     (let (xs, g') = rng_exponential R sc n g in (map (\<lambda>x. Fin (np_round 6 x)) xs, g'))"
| "draw R (Uniform lo hi) n g =
     (let (xs, g') = rng_uniform R lo hi n g in (map (\<lambda>x. Fin (np_round 6 x)) xs, g'))"
| "draw R (Randint lo hi) n g =
     (let (xs, g') = rng_randint R lo hi n g in (map (\<lambda>v. Fin (of_int v)) xs, g'))"
| "draw R (Choice a) n g =
     (let (xs, g') = rng_choice R a n g in (map (\<lambda>v. Fin (of_int v)) xs, g'))"

fun draw_columns ::
    "'g np_random \<Rightarrow> (string \<times> distribution) list \<Rightarrow> nat \<Rightarrow> 'g \<Rightarrow> table \<times> 'g" where
  "draw_columns R [] n g = ([], g)"
| "draw_columns R ((c, d) # specs) n g =
     (let (xs, g1) = draw R d n g; (cols, g2) = draw_columns R specs n g1
      in ((c, NumCol xs) # cols, g2))"

text \<open>\<open>pd.DataFrame(data)\<close>: the arrays must have one length.\<close>

definition data_frame :: "table \<Rightarrow> py_error + table" where
  "data_frame data =
     (if list_all (\<lambda>(c, col). col_len col = nrows data) data then Inr data else Inl ValueError)"

text \<open>
  \<open>df.loc[idx, c] = np.nan\<close> on the default index: the cells of column \<open>c\<close> at the
  positions in \<open>idx\<close> become missing; a position outside the index is a KeyError; a
  column that does not exist is created, all missing.
\<close>

definition set_nan :: "nat list \<Rightarrow> cell list \<Rightarrow> cell list" where
  "set_nan idx xs = map (\<lambda>(i, x). if i \<in> set idx then NaN else x) (zip [0..<length xs] xs)"

definition set_none :: "nat list \<Rightarrow> string option list \<Rightarrow> string option list" where
  "set_none idx xs = map (\<lambda>(i, x). if i \<in> set idx then None else x) (zip [0..<length xs] xs)"

definition loc_set_nan :: "nat list \<Rightarrow> string \<Rightarrow> table \<Rightarrow> py_error + table" where
  "loc_set_nan idx c df =
     (if \<not> list_all (\<lambda>i. i < nrows df) idx then Inl (KeyError ''index'')
      else case map_of df c of
        None \<Rightarrow> Inr (df_set c (replicate (nrows df) NaN) df)
      | Some (NumCol xs) \<Rightarrow> Inr (df_set c (set_nan idx xs) df)
      | Some (ObjCol xs) \<Rightarrow> Inr (AList.update c (ObjCol (set_none idx xs)) df))"

text \<open>
  \<open>generate_credit_card_data\<close>. \<open>g0\<close> is the state of the global generator when
  the function is called; the result is the table and the state it leaves behind. A
  negative \<open>n_samples\<close> is rejected by the first draw.
\<close>

definition generate_credit_card_data ::
    "'g np_random \<Rightarrow> int \<Rightarrow> int \<Rightarrow> 'g \<Rightarrow> py_error + table \<times> 'g" where
  "generate_credit_card_data R n_samples seed g0 =
     (case rng_seed R seed g0 of
        None \<Rightarrow> Inl ValueError
      | Some g1 \<Rightarrow>
          if n_samples < 0 then Inl ValueError
          else
            let n = nat n_samples;
                ids = map cust_id [1..<n + 1];
                (cols, g2) = draw_columns R column_specs n g1
            in case data_frame ((''CUST_ID'', ObjCol (map Some ids)) # cols) of
                 Inl e \<Rightarrow> Inl e
               | Inr df \<Rightarrow>
                   (case rng_sample R (nrows df) 1 g2 of
                      (None, g3) \<Rightarrow> Inl ValueError
                    | (Some nan_idx_credit, g3) \<Rightarrow>
                        (case rng_sample R (nrows df) 313 g3 of
                           (None, g4) \<Rightarrow> Inl ValueError
                         | (Some nan_idx_min, g4) \<Rightarrow>
                             (case loc_set_nan nan_idx_credit ''CREDIT_LIMIT'' df of
                                Inl e \<Rightarrow> Inl e
                              | Inr df1 \<Rightarrow>
                                  (case loc_set_nan nan_idx_min ''MINIMUM_PAYMENTS'' df1 of
                                     Inl e \<Rightarrow> Inl e
                                   | Inr df2 \<Rightarrow> Inr (df2, g4))))))"

subsection \<open>The command line\<close>

text \<open>
  The command line as \<open>argparse\<close> has matched it against the one declared option:
  \<open>--version\<close> was omitted, or supplied with a value string (the last one, when it
  is repeated). The value goes through \<open>type=int\<close> and then the \<open>choices\<close>
  check; either failure exits. Any other command line exits as well: \<open>-h\<close> after
  printing the usage, an argument that is not declared or a missing value as an error.
  Strings are ASCII.
\<close>

datatype version_arg = Omitted | Supplied string | Unrecognized

definition is_space :: "char \<Rightarrow> bool" where
  "is_space c \<longleftrightarrow> c \<in> set [CHR '' '', CHR 0x09, CHR 0x0A, CHR 0x0B, CHR 0x0C, CHR 0x0D]"

definition is_digit :: "char \<Rightarrow> bool" where
  "is_digit c \<longleftrightarrow> (of_char (CHR ''0'') :: nat) \<le> of_char c \<and> (of_char c :: nat) \<le> of_char (CHR ''9'')"

definition digit_value :: "char \<Rightarrow> nat" where
  "digit_value c = of_char c - of_char (CHR ''0'')"

definition strip :: "string \<Rightarrow> string" where
  "strip s = rev (dropWhile is_space (rev (dropWhile is_space s)))"

text \<open>Decimal digits, single underscores allowed between digits.\<close>

fun digits_value :: "nat \<Rightarrow> string \<Rightarrow> nat option" where
  "digits_value acc [] = Some acc"
| "digits_value acc [c] = (if is_digit c then Some (acc * 10 + digit_value c) else None)"
| "digits_value acc (c # d # s) =
     (if is_digit c then
        (if d = CHR ''_'' then digits_value (acc * 10 + digit_value c) s
         else digits_value (acc * 10 + digit_value c) (d # s))
      else None)"

text \<open>
  \<open>sys.get_int_max_str_digits()\<close>, at its default: a literal of more digits is
  refused with ValueError, leading zeros counted, underscores and the sign not.
\<close>

definition int_max_str_digits :: nat where
  "int_max_str_digits = 4300"

definition unsigned_value :: "string \<Rightarrow> nat option" where
  "unsigned_value s =
     (if s = [] \<or> last s = CHR ''_'' \<or> int_max_str_digits < length (filter is_digit s) then None
      else digits_value 0 s)"

text \<open>\<open>int(s)\<close> in base ten; \<open>None\<close> is ValueError.\<close>

definition py_int :: "string \<Rightarrow> int option" where
  "py_int s =
     (case strip s of
        [] \<Rightarrow> None
      | c # t \<Rightarrow>
          if c = CHR ''-'' then map_option (\<lambda>n. - int n) (unsigned_value t)
          else if c = CHR ''+'' then map_option int (unsigned_value t)
          else map_option int (unsigned_value (c # t)))"

definition parse_args :: "version_arg \<Rightarrow> py_error + int" where
  "parse_args a =
     (case a of
        Omitted \<Rightarrow> Inr 1
      | Supplied s \<Rightarrow>
          (case py_int s of
             None \<Rightarrow> Inl SystemExit
           | Some v \<Rightarrow> if v \<in> set [1, 2] then Inr v else Inl SystemExit)
      | Unrecognized \<Rightarrow> Inl SystemExit)"

subsection \<open>Files\<close>

text \<open>
  The stages meet only through CSV files at fixed paths. A CSV file is modelled by the
  table it holds: \<open>to_csv(index=False)\<close> followed by \<open>read_csv\<close> is taken to give
  the table back.
\<close>

datatype io_error = Raised py_error | FileNotFoundError string

type_synonym files = "string \<rightharpoonup> table"

definition RAW_PATH :: string where
  "RAW_PATH = ''data/raw/CC_GENERAL.csv''"

definition PROCESSED_PATH :: string where
  "PROCESSED_PATH = ''data/processed/CC_PROCESSED.csv''"

definition read_csv :: "files \<Rightarrow> string \<Rightarrow> io_error + table" where
  "read_csv fs path = (case fs path of None \<Rightarrow> Inl (FileNotFoundError path) | Some df \<Rightarrow> Inr df)"

text \<open>\<open>main\<close> of generate_data.py; \<open>output_path\<close> is the raw path.\<close>

definition main :: "'g np_random \<Rightarrow> version_arg \<Rightarrow> 'g \<Rightarrow> files \<Rightarrow> io_error + files \<times> 'g" where
  "main R a g0 fs =
     (case parse_args a of
        Inl e \<Rightarrow> Inl (Raised e)
      | Inr version \<Rightarrow>
          (case (if version = 1 then generate_credit_card_data R 8950 42 g0
                 else generate_credit_card_data R 9500 99 g0) of
             Inl e \<Rightarrow> Inl (Raised e)
           | Inr (df, g) \<Rightarrow> Inr (fs(''data/raw/CC_GENERAL.csv'' \<mapsto> df), g)))"

text \<open>\<open>preprocess(RAW_PATH, PROCESSED_PATH)\<close>, as the script runs it.\<close>

definition preprocess_files :: "string \<Rightarrow> string \<Rightarrow> files \<Rightarrow> io_error + table \<times> files" where
  "preprocess_files input_path output_path fs =
     (case read_csv fs input_path of
        Inl e \<Rightarrow> Inl e
      | Inr df \<Rightarrow>
          (case preprocess df of
             Inl e \<Rightarrow> Inl (Raised e)
           | Inr out \<Rightarrow> Inr (out, fs(output_path \<mapsto> out))))"

section \<open>Statement vocabulary for the preprocessor\<close>


text \<open>The numeric columns of the generator's table, in its order (the keys of \<open>data\<close>).\<close>

definition numeric_columns :: "string list" where
  "numeric_columns =
    [''BALANCE'', ''BALANCE_FREQUENCY'', ''PURCHASES'', ''ONEOFF_PURCHASES'',
     ''INSTALLMENTS_PURCHASES'', ''CASH_ADVANCE'', ''PURCHASES_FREQUENCY'',
     ''ONEOFF_PURCHASES_FREQUENCY'', ''PURCHASES_INSTALLMENTS_FREQUENCY'',
     ''CASH_ADVANCE_FREQUENCY'', ''CASH_ADVANCE_TRX'', ''PURCHASES_TRX'', ''CREDIT_LIMIT'',
     ''PAYMENTS'', ''MINIMUM_PAYMENTS'', ''PRC_FULL_PAYMENT'', ''TENURE'']"

definition imputed_columns :: "string list" where
  "imputed_columns = [''CREDIT_LIMIT'', ''MINIMUM_PAYMENTS'']"

fun numeric_column :: "column \<Rightarrow> bool" where
  "numeric_column (NumCol xs) = list_all (\<lambda>x. is_finite x \<or> isna x) xs"
| "numeric_column (ObjCol xs) = False"

text \<open>
  A table in the generator's schema: its columns are the generator's, with or without
  the identifier; all columns have the table's row count; every column but the
  identifier holds numbers or missing markers.
\<close>

definition in_generator_schema :: "table \<Rightarrow> bool" where
  "in_generator_schema df \<longleftrightarrow>
     (columns df = ''CUST_ID'' # numeric_columns \<or> columns df = numeric_columns) \<and>
     list_all (\<lambda>(c, col). col_len col = nrows df \<and> (c \<noteq> ''CUST_ID'' \<longrightarrow> numeric_column col)) df"

text \<open>
  Missing values occur only in the two imputed columns, and each of those has a value
  that is not missing.
\<close>

definition missing_only_imputed :: "table \<Rightarrow> bool" where
  "missing_only_imputed df \<longleftrightarrow>
     list_all (\<lambda>(c, col).
        if c \<in> set imputed_columns then col_isna_count col < col_len col
        else col_isna_count col = 0) df"

definition no_missing :: "table \<Rightarrow> bool" where
  "no_missing df \<longleftrightarrow> list_all (\<lambda>(c, col). col_isna_count col = 0) df"

text \<open>Some row of a division has a zero denominator; some row is zero over zero.\<close>

definition divides_by_zero :: "cell list \<Rightarrow> cell list \<Rightarrow> bool" where
  "divides_by_zero xs ys \<longleftrightarrow> list_ex (\<lambda>(x, y). y = Fin 0) (zip xs ys)"

definition zero_over_zero :: "cell list \<Rightarrow> cell list \<Rightarrow> bool" where
  "zero_over_zero xs ys \<longleftrightarrow> list_ex (\<lambda>(x, y). x = Fin 0 \<and> y = Fin 0) (zip xs ys)"

text \<open>
  One of the four ratios of step 3 is zero over zero in some row of the imputed table:
  PURCHASES or CASH_ADVANCE over TENURE, PURCHASES or BALANCE over CREDIT_LIMIT + 1.
\<close>

definition undefined_ratio :: "table \<Rightarrow> bool" where
  "undefined_ratio df \<longleftrightarrow>
     (case fill_missing (drop_identifier df) of
        Inl e \<Rightarrow> False
      | Inr imp \<Rightarrow>
          (case (df_num imp ''PURCHASES'', df_num imp ''CASH_ADVANCE'', df_num imp ''BALANCE'',
                 df_num imp ''TENURE'', df_num imp ''CREDIT_LIMIT'') of
             (Inr pu, Inr ca, Inr ba, Inr te, Inr cl) \<Rightarrow>
               zero_over_zero pu te \<or> zero_over_zero ca te \<or>
               zero_over_zero pu (limit_denominator cl) \<or>
               zero_over_zero ba (limit_denominator cl)
           | _ \<Rightarrow> False))"

text \<open>All columns are distinctly labelled and as long as the table.\<close>

definition wf_table :: "table \<Rightarrow> bool" where
  "wf_table df \<longleftrightarrow>
     distinct (columns df) \<and> list_all (\<lambda>(c, col). col_len col = nrows df) df"

text \<open>
  The table \<open>preprocess\<close> returns, written out as the eleven column assignments it
  performs on the table without the identifier.
\<close>

definition q99 :: "cell list \<Rightarrow> cell list" where
  "q99 xs = clip_upper (quantile (99 / 100) xs) xs"

definition preprocessed :: "table \<Rightarrow> cell list \<Rightarrow> cell list \<Rightarrow> cell list \<Rightarrow> cell list \<Rightarrow>
    cell list \<Rightarrow> cell list \<Rightarrow> cell list \<Rightarrow> table" where
  "preprocessed d0 ba pu ca cl pa mp te =
     (let cl' = fillna (median cl) cl; mp' = fillna (median mp) mp in
      df_set ''MINIMUM_PAYMENTS'' (q99 mp')
     (df_set ''PAYMENTS'' (q99 pa)
     (df_set ''CASH_ADVANCE'' (q99 ca)
     (df_set ''PURCHASES'' (q99 pu)
     (df_set ''BALANCE'' (q99 ba)
     (df_set ''BALANCE_TO_LIMIT_RATIO'' (series_div ba (limit_denominator cl'))
     (df_set ''PURCHASE_TO_LIMIT_RATIO'' (series_div pu (limit_denominator cl'))
     (df_set ''MONTHLY_AVG_CASH_ADVANCE'' (series_div ca te)
     (df_set ''MONTHLY_AVG_PURCHASE'' (series_div pu te)
     (df_set ''MINIMUM_PAYMENTS'' mp'
     (df_set ''CREDIT_LIMIT'' cl' d0)))))))))))"

section \<open>train.py\<close>

text \<open>
  scikit-learn is a library: the model takes the three estimators as a record. A
  matrix is a list of rows. \<open>'m\<close> is the type of a fitted Isolation Forest.
  The arguments are those the script passes: the number of components and the random
  state for PCA; the number of trees, the contamination and the random state for the
  forest.
\<close>

type_synonym matrix = "cell list list"

record 'm sklearn =
  scaler_fit_transform :: "table \<Rightarrow> py_error + matrix"
  pca_fit_transform :: "nat \<Rightarrow> nat \<Rightarrow> matrix \<Rightarrow> py_error + matrix \<times> real list"
  forest_fit_predict :: "nat \<Rightarrow> real \<Rightarrow> nat \<Rightarrow> matrix \<Rightarrow> py_error + 'm \<times> int list"
  decision_function :: "'m \<Rightarrow> matrix \<Rightarrow> real list"

definition n_features :: "matrix \<Rightarrow> nat" where
  "n_features X = (case X of [] \<Rightarrow> 0 | r # rs \<Rightarrow> length r)"

definition finite_matrix :: "matrix \<Rightarrow> bool" where
  "finite_matrix X \<longleftrightarrow> list_all (list_all is_finite) X"

fun finite_column :: "column \<Rightarrow> bool" where
  "finite_column (NumCol xs) = list_all is_finite xs"
| "finite_column (ObjCol xs) = False"

definition finite_table :: "table \<Rightarrow> bool" where
  "finite_table df \<longleftrightarrow> list_all (\<lambda>(c, col). finite_column col) df"

text \<open>
  What the script relies on, as scikit-learn documents it. The scaler accepts a table
  of finite numbers with at least one row and returns one row per table row, one
  feature per column. PCA accepts a finite matrix when the number of components is at
  most the number of rows and of features, keeps the rows, and reports one variance
  ratio per component. The forest accepts a finite matrix with at least one row and
  labels every row 1 or -1; a row is labelled -1 exactly when its decision function is
  below zero.
\<close>

definition sklearn_contract :: "'m sklearn \<Rightarrow> bool" where
  "sklearn_contract sk \<longleftrightarrow>
     (\<forall>df. finite_table df \<and> wf_table df \<and> 0 < nrows df \<longrightarrow>
        (\<exists>X. scaler_fit_transform sk df = Inr X)) \<and>
     (\<forall>df X. scaler_fit_transform sk df = Inr X \<longrightarrow>
        length X = nrows df \<and> n_features X = ncols df \<and>
        (finite_table df \<longrightarrow> finite_matrix X)) \<and>
     (\<forall>k rs X. finite_matrix X \<and> k \<le> length X \<and> k \<le> n_features X \<longrightarrow>
        (\<exists>Y evr. pca_fit_transform sk k rs X = Inr (Y, evr))) \<and>
     (\<forall>k rs X Y evr. pca_fit_transform sk k rs X = Inr (Y, evr) \<longrightarrow>
        length Y = length X \<and> length evr = k \<and> (finite_matrix X \<longrightarrow> finite_matrix Y)) \<and>
     (\<forall>t c rs X. finite_matrix X \<and> 0 < length X \<longrightarrow>
        (\<exists>m labels. forest_fit_predict sk t c rs X = Inr (m, labels))) \<and>
     (\<forall>t c rs X m labels. forest_fit_predict sk t c rs X = Inr (m, labels) \<longrightarrow>
        length labels = length X \<and> length (decision_function sk m X) = length X \<and>
        (\<forall>i < length X.
           (labels ! i = 1 \<or> labels ! i = - 1) \<and>
           (labels ! i = - 1 \<longleftrightarrow> decision_function sk m X ! i < 0)))"

definition CONTAMINATION :: real where
  "CONTAMINATION = 5 / 100"

text \<open>\<open>ndarray.cumsum()\<close>.\<close>

fun cumsum_from :: "real \<Rightarrow> real list \<Rightarrow> real list" where
  "cumsum_from a [] = []"
| "cumsum_from a (x # xs) = (a + x) # cumsum_from (a + x) xs"

definition cumsum :: "real list \<Rightarrow> real list" where
  "cumsum xs = cumsum_from 0 xs"

definition round_cell :: "nat \<Rightarrow> cell \<Rightarrow> cell" where
  "round_cell d c = (case c of Fin x \<Rightarrow> Fin (np_round d x) | _ \<Rightarrow> c)"

record metrics =
  model :: string
  n_samples :: nat
  n_components_pca :: nat
  variance_explained :: real
  contamination :: real
  n_anomalies :: int
  n_normal :: int
  anomaly_percentage :: cell
  anomaly_score_mean :: real
  anomaly_score_min :: real
  anomaly_score_max :: real

text \<open>
  What the estimators returned in one run: the cumulative variance ratios, the labels
  of \<open>fit_predict\<close> and the scores of \<open>decision_function\<close>.
\<close>

record fitted =
  explained :: "real list"
  labels :: "int list"
  scores :: "real list"

text \<open>
  The estimator calls of \<open>train\<close>, in order. \<open>explained[-1]\<close> needs a component;
  the variance plot draws the ratios against \<open>range(1, 11)\<close> and needs ten of them.
\<close>

definition fit :: "'m sklearn \<Rightarrow> table \<Rightarrow> py_error + fitted" where
  "fit sk df =
     (case scaler_fit_transform sk df of
        Inl e \<Rightarrow> Inl e
      | Inr X_scaled \<Rightarrow>
     (case pca_fit_transform sk 10 42 X_scaled of
        Inl e \<Rightarrow> Inl e
      | Inr (X_pca, evr) \<Rightarrow>
          if cumsum evr = [] then Inl IndexError
          else
     (case pca_fit_transform sk 2 42 X_scaled of
        Inl e \<Rightarrow> Inl e
      | Inr (X_2d, evr2) \<Rightarrow>
          if length (cumsum evr) \<noteq> 10 then Inl ValueError
          else
     (case forest_fit_predict sk 200 CONTAMINATION 42 X_pca of
        Inl e \<Rightarrow> Inl e
      | Inr (m, ls) \<Rightarrow>
          Inr \<lparr>explained = cumsum evr, labels = ls, scores = decision_function sk m X_pca\<rparr>))))"

text \<open>
  The metrics dictionary. The flags are \<open>(labels == -1).astype(int)\<close>; the percentage
  is a float division, not-a-number for no rows; \<open>np.min\<close> of no scores raises.
\<close>

definition anomaly_flags :: "int list \<Rightarrow> int list" where
  "anomaly_flags ls = map (\<lambda>l. if l = - 1 then 1 else 0) ls"

definition anomaly_pct :: "int list \<Rightarrow> cell" where
  "anomaly_pct flags =
     cell_mul (cell_div (Fin (of_int (sum_list flags))) (Fin (of_nat (length flags)))) (Fin 100)"

definition make_metrics :: "table \<Rightarrow> fitted \<Rightarrow> py_error + metrics" where
  "make_metrics df ft =
     (let flags = anomaly_flags (labels ft);
          n_anom = sum_list flags;
          n_norm = int (length flags) - n_anom
      in if scores ft = [] then Inl ValueError
         else Inr \<lparr>model = ''IsolationForest + PCA'',
                   n_samples = nrows df,
                   n_components_pca = 10,
                   variance_explained = np_round 4 (last (explained ft)),
                   contamination = CONTAMINATION,
                   n_anomalies = n_anom,
                   n_normal = n_norm,
                   anomaly_percentage = round_cell 2 (anomaly_pct flags),
                   anomaly_score_mean = np_round 4 (sum_list (scores ft) / real (length (scores ft))),
                   anomaly_score_min = np_round 4 (Min (set (scores ft))),
                   anomaly_score_max = np_round 4 (Max (set (scores ft)))\<rparr>)"

text \<open>
  \<open>train\<close>, up to the metrics it writes to the report; the figures and the
  serialised estimators are not modelled.
\<close>

definition train :: "'m sklearn \<Rightarrow> files \<Rightarrow> io_error + metrics" where
  "train sk fs =
     (case read_csv fs PROCESSED_PATH of
        Inl e \<Rightarrow> Inl e
      | Inr df \<Rightarrow>
          (case fit sk df of
             Inl e \<Rightarrow> Inl (Raised e)
           | Inr ft \<Rightarrow>
               (case make_metrics df ft of
                  Inl e \<Rightarrow> Inl (Raised e)
                | Inr m \<Rightarrow> Inr m)))"

section \<open>Statement vocabulary for the generator\<close>

text \<open>The parameters of a distribution are ones numpy accepts.\<close>

fun spec_ok :: "distribution \<Rightarrow> bool" where
  "spec_ok (Randint lo hi) = (lo < hi)"
| "spec_ok (Choice a) = (a \<noteq> [])"
| "spec_ok _ = True"

text \<open>The credit-limit tiers of the generator.\<close>

definition credit_tiers :: "int list" where
  "credit_tiers = [500, 1000, 1500, 2000, 3000, 5000, 7500, 10000, 15000, 20000]"

text \<open>
  The table \<open>generate_credit_card_data\<close> returns, written out: the drawn columns
  behind the identifiers, with the two sampled position lists made missing.
\<close>

definition generated :: "nat \<Rightarrow> table \<Rightarrow> nat list \<Rightarrow> nat list \<Rightarrow> cell list \<Rightarrow> cell list \<Rightarrow> table" where
  "generated n cols idx1 idx2 cl mp =
     df_set ''MINIMUM_PAYMENTS'' (set_nan idx2 mp)
       (df_set ''CREDIT_LIMIT'' (set_nan idx1 cl)
         ((''CUST_ID'', ObjCol (map Some (map cust_id [1..<n + 1]))) # cols))"

text \<open>
  A small generator that meets the contract, for instantiating the statements: the
  state is a counter.
\<close>

definition example_rng :: "nat np_random" where
  "example_rng =
     \<lparr>rng_seed = (\<lambda>s g. if 0 \<le> s \<and> s < 2 ^ 32 then Some (nat s) else None),
      rng_exponential = (\<lambda>sc n g. (map (\<lambda>i. sc * real ((g + i) mod 7)) [0..<n], g + n)),
      rng_uniform = (\<lambda>lo hi n g. (map (\<lambda>i. lo + (hi - lo) * real ((g + i) mod 10) / 10) [0..<n], g + n)),
      rng_randint = (\<lambda>lo hi n g. (map (\<lambda>i. lo + int ((g + i) mod nat (hi - lo))) [0..<n], g + n)),
      rng_choice = (\<lambda>a n g. (map (\<lambda>i. a ! ((g + i) mod length a)) [0..<n], g + n)),
      rng_sample = (\<lambda>pop k g. (if k \<le> pop then Some (take k (rotate g [0..<pop])) else None, g + k))\<rparr>"

section \<open>Example tables\<close>

text \<open>A three-row raw table with the generator's columns, and what \<open>preprocess\<close> makes of it.\<close>

definition example_raw :: table where
  "example_raw =
    [(''CUST_ID'', ObjCol [Some ''C10001'', Some ''C10002'', Some ''C10003'']),
     (''BALANCE'', NumCol [Fin 40, Fin 900, Fin 100]),
     (''BALANCE_FREQUENCY'', NumCol [Fin (1 / 2), Fin 1, Fin 0]),
     (''PURCHASES'', NumCol [Fin 100, Fin 200, Fin 0]),
     (''ONEOFF_PURCHASES'', NumCol [Fin 60, Fin 200, Fin 0]),
     (''INSTALLMENTS_PURCHASES'', NumCol [Fin 40, Fin 0, Fin 0]),
     (''CASH_ADVANCE'', NumCol [Fin 0, Fin 50, Fin 600]),
     (''PURCHASES_FREQUENCY'', NumCol [Fin (1 / 4), Fin 1, Fin 0]),
     (''ONEOFF_PURCHASES_FREQUENCY'', NumCol [Fin (1 / 4), Fin 1, Fin 0]),
     (''PURCHASES_INSTALLMENTS_FREQUENCY'', NumCol [Fin (1 / 4), Fin 0, Fin 0]),
     (''CASH_ADVANCE_FREQUENCY'', NumCol [Fin 0, Fin (1 / 10), Fin (1 / 2)]),
     (''CASH_ADVANCE_TRX'', NumCol [Fin 0, Fin 1, Fin 19]),
     (''PURCHASES_TRX'', NumCol [Fin 7, Fin 99, Fin 0]),
     (''CREDIT_LIMIT'', NumCol [Fin 1000, NaN, Fin 500]),
     (''PAYMENTS'', NumCol [Fin 10, Fin 20, Fin 700]),
     (''MINIMUM_PAYMENTS'', NumCol [NaN, Fin 30, Fin 25]),
     (''PRC_FULL_PAYMENT'', NumCol [Fin 0, Fin 1, Fin (3 / 4)]),
     (''TENURE'', NumCol [Fin 10, Fin 12, Fin 6])]"

definition example_processed :: table where
  "example_processed =
    [(''BALANCE'', NumCol [Fin 40, Fin 884, Fin 100]),
     (''BALANCE_FREQUENCY'', NumCol [Fin (1 / 2), Fin 1, Fin 0]),
     (''PURCHASES'', NumCol [Fin 100, Fin 198, Fin 0]),
     (''ONEOFF_PURCHASES'', NumCol [Fin 60, Fin 200, Fin 0]),
     (''INSTALLMENTS_PURCHASES'', NumCol [Fin 40, Fin 0, Fin 0]),
     (''CASH_ADVANCE'', NumCol [Fin 0, Fin 50, Fin 589]),
     (''PURCHASES_FREQUENCY'', NumCol [Fin (1 / 4), Fin 1, Fin 0]),
     (''ONEOFF_PURCHASES_FREQUENCY'', NumCol [Fin (1 / 4), Fin 1, Fin 0]),
     (''PURCHASES_INSTALLMENTS_FREQUENCY'', NumCol [Fin (1 / 4), Fin 0, Fin 0]),
     (''CASH_ADVANCE_FREQUENCY'', NumCol [Fin 0, Fin (1 / 10), Fin (1 / 2)]),
     (''CASH_ADVANCE_TRX'', NumCol [Fin 0, Fin 1, Fin 19]),
     (''PURCHASES_TRX'', NumCol [Fin 7, Fin 99, Fin 0]),
     (''CREDIT_LIMIT'', NumCol [Fin 1000, Fin 750, Fin 500]),
     (''PAYMENTS'', NumCol [Fin 10, Fin 20, Fin (3432 / 5)]),
     (''MINIMUM_PAYMENTS'', NumCol [Fin (55 / 2), Fin (599 / 20), Fin 25]),
     (''PRC_FULL_PAYMENT'', NumCol [Fin 0, Fin 1, Fin (3 / 4)]),
     (''TENURE'', NumCol [Fin 10, Fin 12, Fin 6]),
     (''MONTHLY_AVG_PURCHASE'', NumCol [Fin 10, Fin (50 / 3), Fin 0]),
     (''MONTHLY_AVG_CASH_ADVANCE'', NumCol [Fin 0, Fin (25 / 6), Fin 100]),
     (''PURCHASE_TO_LIMIT_RATIO'', NumCol [Fin (100 / 1001), Fin (200 / 751), Fin 0]),
     (''BALANCE_TO_LIMIT_RATIO'', NumCol [Fin (40 / 1001), Fin (900 / 751), Fin (100 / 501)])]"

text \<open>A two-row raw table whose second customer has zero tenure and no purchases.\<close>

definition zero_tenure_raw :: table where
  "zero_tenure_raw =
    [(''CUST_ID'', ObjCol [Some ''C10001'', Some ''C10002'']),
     (''BALANCE'', NumCol [Fin 40, Fin 900]),
     (''BALANCE_FREQUENCY'', NumCol [Fin (1 / 2), Fin 1]),
     (''PURCHASES'', NumCol [Fin 100, Fin 0]),
     (''ONEOFF_PURCHASES'', NumCol [Fin 60, Fin 0]),
     (''INSTALLMENTS_PURCHASES'', NumCol [Fin 40, Fin 0]),
     (''CASH_ADVANCE'', NumCol [Fin 0, Fin 50]),
     (''PURCHASES_FREQUENCY'', NumCol [Fin (1 / 4), Fin 0]),
     (''ONEOFF_PURCHASES_FREQUENCY'', NumCol [Fin (1 / 4), Fin 0]),
     (''PURCHASES_INSTALLMENTS_FREQUENCY'', NumCol [Fin (1 / 4), Fin 0]),
     (''CASH_ADVANCE_FREQUENCY'', NumCol [Fin 0, Fin (1 / 10)]),
     (''CASH_ADVANCE_TRX'', NumCol [Fin 0, Fin 1]),
     (''PURCHASES_TRX'', NumCol [Fin 7, Fin 0]),
     (''CREDIT_LIMIT'', NumCol [Fin 1000, Fin 500]),
     (''PAYMENTS'', NumCol [Fin 10, Fin 20]),
     (''MINIMUM_PAYMENTS'', NumCol [Fin 25, Fin 30]),
     (''PRC_FULL_PAYMENT'', NumCol [Fin 0, Fin 1]),
     (''TENURE'', NumCol [Fin 10, Fin 0])]"

definition zero_tenure_processed :: table where
  "zero_tenure_processed =
    [(''BALANCE'', NumCol [Fin 40, Fin (4457 / 5)]),
     (''BALANCE_FREQUENCY'', NumCol [Fin (1 / 2), Fin 1]),
     (''PURCHASES'', NumCol [Fin 99, Fin 0]),
     (''ONEOFF_PURCHASES'', NumCol [Fin 60, Fin 0]),
     (''INSTALLMENTS_PURCHASES'', NumCol [Fin 40, Fin 0]),
     (''CASH_ADVANCE'', NumCol [Fin 0, Fin (99 / 2)]),
     (''PURCHASES_FREQUENCY'', NumCol [Fin (1 / 4), Fin 0]),
     (''ONEOFF_PURCHASES_FREQUENCY'', NumCol [Fin (1 / 4), Fin 0]),
     (''PURCHASES_INSTALLMENTS_FREQUENCY'', NumCol [Fin (1 / 4), Fin 0]),
     (''CASH_ADVANCE_FREQUENCY'', NumCol [Fin 0, Fin (1 / 10)]),
     (''CASH_ADVANCE_TRX'', NumCol [Fin 0, Fin 1]),
     (''PURCHASES_TRX'', NumCol [Fin 7, Fin 0]),
     (''CREDIT_LIMIT'', NumCol [Fin 1000, Fin 500]),
     (''PAYMENTS'', NumCol [Fin 10, Fin (199 / 10)]),
     (''MINIMUM_PAYMENTS'', NumCol [Fin 25, Fin (599 / 20)]),
     (''PRC_FULL_PAYMENT'', NumCol [Fin 0, Fin 1]),
     (''TENURE'', NumCol [Fin 10, Fin 0]),
     (''MONTHLY_AVG_PURCHASE'', NumCol [Fin 10, NaN]),
     (''MONTHLY_AVG_CASH_ADVANCE'', NumCol [Fin 0, PInf]),
     (''PURCHASE_TO_LIMIT_RATIO'', NumCol [Fin (100 / 1001), Fin 0]),
     (''BALANCE_TO_LIMIT_RATIO'', NumCol [Fin (40 / 1001), Fin (300 / 167)])]"

text \<open>
  Estimators that meet the contract, for instantiating the statements, with a table of
  ten rows and ten features at the processed path and the metrics of training on it.
\<close>

definition example_sklearn :: "unit sklearn" where
  "example_sklearn =
     \<lparr>scaler_fit_transform = (\<lambda>df.
        if finite_table df \<and> 0 < nrows df
        then Inr (replicate (nrows df) (replicate (ncols df) (Fin 0)))
        else Inl ValueError),
      pca_fit_transform = (\<lambda>k rs X.
        if finite_matrix X \<and> k \<le> length X \<and> k \<le> n_features X
        then Inr (map (take k) X, replicate k (1 / real k))
        else Inl ValueError),
      forest_fit_predict = (\<lambda>t c rs X.
        if finite_matrix X \<and> 0 < length X
        then Inr ((), map (\<lambda>i. if i mod 20 = 0 then - 1 else 1) [0..<length X])
        else Inl ValueError),
      decision_function = (\<lambda>m X. map (\<lambda>i. if i mod 20 = 0 then - 1 / 10 else 1 / 10) [0..<length X])\<rparr>"

definition example_features :: table where
  "example_features =
     map (\<lambda>c. (c, NumCol (map (\<lambda>i. Fin (real i)) [0..<10]))) (take 10 numeric_columns)"

definition example_files :: files where
  "example_files = Map.empty(PROCESSED_PATH \<mapsto> example_features)"

definition example_metrics :: metrics where
  "example_metrics =
     \<lparr>model = ''IsolationForest + PCA'', n_samples = 10, n_components_pca = 10,
      variance_explained = 1, contamination = 1 / 20, n_anomalies = 1, n_normal = 9,
      anomaly_percentage = Fin 10, anomaly_score_mean = 2 / 25,
      anomaly_score_min = - (1 / 10), anomaly_score_max = 1 / 10\<rparr>"

text \<open>
  A two-row raw table without missing values whose first credit limit is the largest
  unsigned 64-bit integer, as \<open>read_csv\<close> reads it into a uint64 column, and what
  \<open>preprocess\<close> makes of it.
\<close>

definition max_limit_raw :: table where
  "max_limit_raw =
    [(''CUST_ID'', ObjCol [Some ''C10001'', Some ''C10002'']),
     (''BALANCE'', NumCol [Fin 40, Fin 900]),
     (''BALANCE_FREQUENCY'', NumCol [Fin (1 / 2), Fin 1]),
     (''PURCHASES'', NumCol [Fin 100, Fin 200]),
     (''ONEOFF_PURCHASES'', NumCol [Fin 60, Fin 200]),
     (''INSTALLMENTS_PURCHASES'', NumCol [Fin 40, Fin 0]),
     (''CASH_ADVANCE'', NumCol [Fin 0, Fin 50]),
     (''PURCHASES_FREQUENCY'', NumCol [Fin (1 / 4), Fin 1]),
     (''ONEOFF_PURCHASES_FREQUENCY'', NumCol [Fin (1 / 4), Fin 1]),
     (''PURCHASES_INSTALLMENTS_FREQUENCY'', NumCol [Fin (1 / 4), Fin 0]),
     (''CASH_ADVANCE_FREQUENCY'', NumCol [Fin 0, Fin (1 / 10)]),
     (''CASH_ADVANCE_TRX'', NumCol [Fin 0, Fin 1]),
     (''PURCHASES_TRX'', NumCol [Fin 7, Fin 3]),
     (''CREDIT_LIMIT'', NumCol [Fin 18446744073709551615, Fin 1000]),
     (''PAYMENTS'', NumCol [Fin 10, Fin 20]),
     (''MINIMUM_PAYMENTS'', NumCol [Fin 25, Fin 30]),
     (''PRC_FULL_PAYMENT'', NumCol [Fin 0, Fin 1]),
     (''TENURE'', NumCol [Fin 12, Fin 10])]"

definition max_limit_processed :: table where
  "max_limit_processed =
    [(''BALANCE'', NumCol [Fin 40, Fin (4457 / 5)]),
     (''BALANCE_FREQUENCY'', NumCol [Fin (1 / 2), Fin 1]),
     (''PURCHASES'', NumCol [Fin 100, Fin 199]),
     (''ONEOFF_PURCHASES'', NumCol [Fin 60, Fin 200]),
     (''INSTALLMENTS_PURCHASES'', NumCol [Fin 40, Fin 0]),
     (''CASH_ADVANCE'', NumCol [Fin 0, Fin (99 / 2)]),
     (''PURCHASES_FREQUENCY'', NumCol [Fin (1 / 4), Fin 1]),
     (''ONEOFF_PURCHASES_FREQUENCY'', NumCol [Fin (1 / 4), Fin 1]),
     (''PURCHASES_INSTALLMENTS_FREQUENCY'', NumCol [Fin (1 / 4), Fin 0]),
     (''CASH_ADVANCE_FREQUENCY'', NumCol [Fin 0, Fin (1 / 10)]),
     (''CASH_ADVANCE_TRX'', NumCol [Fin 0, Fin 1]),
     (''PURCHASES_TRX'', NumCol [Fin 7, Fin 3]),
     (''CREDIT_LIMIT'', NumCol [Fin 18446744073709551615, Fin 1000]),
     (''PAYMENTS'', NumCol [Fin 10, Fin (199 / 10)]),
     (''MINIMUM_PAYMENTS'', NumCol [Fin 25, Fin (599 / 20)]),
     (''PRC_FULL_PAYMENT'', NumCol [Fin 0, Fin 1]),
     (''TENURE'', NumCol [Fin 12, Fin 10]),
     (''MONTHLY_AVG_PURCHASE'', NumCol [Fin (25 / 3), Fin 20]),
     (''MONTHLY_AVG_CASH_ADVANCE'', NumCol [Fin 0, Fin 5]),
     (''PURCHASE_TO_LIMIT_RATIO'', NumCol [PInf, Fin (200 / 1001)]),
     (''BALANCE_TO_LIMIT_RATIO'', NumCol [PInf, Fin (900 / 1001)])]"

section \<open>Properties of the preprocessor\<close>

subsection \<open>Column lookups through the steps\<close>

lemma example_preprocess: "preprocess example_raw = Inr example_processed"
  by code_simp

lemma df_num_df_set:
  "df_num (df_set c xs df) c' = (if c' = c then Inr xs else df_num df c')"
  by (simp add: df_num_def df_get_def df_set_def update_conv')

lemma fill_column_num:
  "fill_column c df = Inr df' \<Longrightarrow>
     \<exists>xs. df_num df c = Inr xs \<and> df' = df_set c (fillna (median xs) xs) df"
  by (auto simp: fill_column_def split: sum.splits)

lemma per_tenure_num:
  "per_tenure new num df = Inr df' \<Longrightarrow>
     \<exists>xs te. df_num df num = Inr xs \<and> df_num df ''TENURE'' = Inr te \<and>
       df' = df_set new (series_div xs te) df"
  by (auto simp: per_tenure_def split: sum.splits)

lemma per_limit_num:
  "per_limit new num df = Inr df' \<Longrightarrow>
     \<exists>xs cl. df_num df num = Inr xs \<and> df_num df ''CREDIT_LIMIT'' = Inr cl \<and>
       df' = df_set new (series_div xs (limit_denominator cl)) df"
  by (auto simp: per_limit_def split: sum.splits)

lemma feature_engineering_keeps:
  assumes "feature_engineering df = Inr df'" and "c \<notin> set derived_columns"
  shows "df_num df' c = df_num df c"
proof -
  from assms(1) obtain d1 d2 d3 where
    s1: "per_tenure ''MONTHLY_AVG_PURCHASE'' ''PURCHASES'' df = Inr d1" and
    s2: "per_tenure ''MONTHLY_AVG_CASH_ADVANCE'' ''CASH_ADVANCE'' d1 = Inr d2" and
    s3: "per_limit ''PURCHASE_TO_LIMIT_RATIO'' ''PURCHASES'' d2 = Inr d3" and
    s4: "per_limit ''BALANCE_TO_LIMIT_RATIO'' ''BALANCE'' d3 = Inr df'"
    by (auto simp: feature_engineering_def split: sum.splits)
  from assms(2) have ne: "c \<noteq> ''MONTHLY_AVG_PURCHASE''" "c \<noteq> ''MONTHLY_AVG_CASH_ADVANCE''"
    "c \<noteq> ''PURCHASE_TO_LIMIT_RATIO''" "c \<noteq> ''BALANCE_TO_LIMIT_RATIO''"
    by (auto simp: derived_columns_def)
  from per_tenure_num[OF s1] ne have "df_num d1 c = df_num df c"
    by (auto simp: df_num_df_set)
  moreover from per_tenure_num[OF s2] ne have "df_num d2 c = df_num d1 c"
    by (auto simp: df_num_df_set)
  moreover from per_limit_num[OF s3] ne have "df_num d3 c = df_num d2 c"
    by (auto simp: df_num_df_set)
  moreover from per_limit_num[OF s4] ne have "df_num df' c = df_num d3 c"
    by (auto simp: df_num_df_set)
  ultimately show ?thesis by simp
qed

lemma clip_column_num:
  "clip_column c df = Inr df' \<Longrightarrow>
     \<exists>xs. df_num df c = Inr xs \<and> df' = df_set c (clip_upper (quantile (99 / 100) xs) xs) df"
  by (auto simp: clip_column_def split: sum.splits)

lemma clip_outliers_other:
  "clip_outliers cs df = Inr df' \<Longrightarrow> c \<notin> set cs \<Longrightarrow> df_num df' c = df_num df c"
proof (induction cs arbitrary: df)
  case Nil
  then show ?case by simp
next
  case (Cons a cs)
  from Cons.prems(1) obtain d where d: "clip_column a df = Inr d" and r: "clip_outliers cs d = Inr df'"
    by (auto split: sum.splits)
  from Cons.prems(2) have "c \<noteq> a" "c \<notin> set cs" by auto
  with Cons.IH[OF r] clip_column_num[OF d] show ?case
    by (auto simp: df_num_df_set)
qed

lemma clip_outliers_clipped:
  "clip_outliers cs df = Inr df' \<Longrightarrow> distinct cs \<Longrightarrow> c \<in> set cs \<Longrightarrow>
     \<exists>xs. df_num df c = Inr xs \<and> df_num df' c = Inr (clip_upper (quantile (99 / 100) xs) xs)"
proof (induction cs arbitrary: df)
  case Nil
  then show ?case by simp
next
  case (Cons a cs)
  from Cons.prems(1) obtain d where d: "clip_column a df = Inr d" and r: "clip_outliers cs d = Inr df'"
    by (auto split: sum.splits)
  from clip_column_num[OF d] obtain ys where ys: "df_num df a = Inr ys"
    "d = df_set a (clip_upper (quantile (99 / 100) ys) ys) df" by blast
  show ?case
  proof (cases "c = a")
    case True
    with Cons.prems(2) have "c \<notin> set cs" by simp
    from clip_outliers_other[OF r this] ys True show ?thesis
      by (simp add: df_num_df_set)
  next
    case False
    with Cons.prems have "distinct cs" "c \<in> set cs" by auto
    from Cons.IH[OF r this] ys False show ?thesis
      by (simp add: df_num_df_set)
  qed
qed

lemma length_clip_upper: "length (clip_upper u xs) = length xs"
  by (simp add: clip_upper_def)

lemma cell_less_irrefl: "\<not> cell_less a a"
  by (simp add: cell_less_def)

lemma cell_le_NaN_right [simp]: "cell_le a NaN = False"
  by (cases a) simp_all

lemma clip_upper_nth:
  assumes "i < length xs"
  shows "\<not> cell_less u (clip_upper u xs ! i)"
    and "cell_le (xs ! i) u \<Longrightarrow> clip_upper u xs ! i = xs ! i"
    and "\<not> cell_less (xs ! i) (clip_upper u xs ! i)"
  using assms
  by (auto simp: clip_upper_def clip_cell_def cell_less_def isna_def)

lemma preprocess_explicit:
  assumes "df_num (drop_identifier df) ''BALANCE'' = Inr ba"
    and "df_num (drop_identifier df) ''PURCHASES'' = Inr pu"
    and "df_num (drop_identifier df) ''CASH_ADVANCE'' = Inr ca"
    and "df_num (drop_identifier df) ''CREDIT_LIMIT'' = Inr cl"
    and "df_num (drop_identifier df) ''PAYMENTS'' = Inr pa"
    and "df_num (drop_identifier df) ''MINIMUM_PAYMENTS'' = Inr mp"
    and "df_num (drop_identifier df) ''TENURE'' = Inr te"
  shows "preprocess df = Inr (preprocessed (drop_identifier df) ba pu ca cl pa mp te)"
  using assms
  by (simp add: preprocess_def fill_missing_def fill_column_def feature_engineering_def
      per_tenure_def per_limit_def cols_to_clip_def clip_column_def df_num_df_set
      preprocessed_def q99_def Let_def)

lemma preprocess_inputs:
  assumes "preprocess df = Inr out"
  shows "\<exists>ba pu ca cl pa mp te.
           df_num (drop_identifier df) ''BALANCE'' = Inr ba \<and>
           df_num (drop_identifier df) ''PURCHASES'' = Inr pu \<and>
           df_num (drop_identifier df) ''CASH_ADVANCE'' = Inr ca \<and>
           df_num (drop_identifier df) ''CREDIT_LIMIT'' = Inr cl \<and>
           df_num (drop_identifier df) ''PAYMENTS'' = Inr pa \<and>
           df_num (drop_identifier df) ''MINIMUM_PAYMENTS'' = Inr mp \<and>
           df_num (drop_identifier df) ''TENURE'' = Inr te"
proof -
  let ?d0 = "drop_identifier df"
  from assms obtain imp feat where
    imp: "fill_missing ?d0 = Inr imp" and
    feat: "feature_engineering imp = Inr feat" and
    out: "clip_outliers cols_to_clip feat = Inr out"
    by (auto simp: preprocess_def split: sum.splits)
  from imp obtain d1 where d1: "fill_column ''CREDIT_LIMIT'' ?d0 = Inr d1"
    and d2: "fill_column ''MINIMUM_PAYMENTS'' d1 = Inr imp"
    by (auto simp: fill_missing_def split: sum.splits)
  from fill_column_num[OF d1] obtain cl where cl: "df_num ?d0 ''CREDIT_LIMIT'' = Inr cl"
    and d1eq: "d1 = df_set ''CREDIT_LIMIT'' (fillna (median cl) cl) ?d0" by blast
  from fill_column_num[OF d2] obtain mp where "df_num d1 ''MINIMUM_PAYMENTS'' = Inr mp"
    and impeq: "imp = df_set ''MINIMUM_PAYMENTS'' (fillna (median mp) mp) d1" by blast
  then have mp: "df_num ?d0 ''MINIMUM_PAYMENTS'' = Inr mp"
    by (simp add: d1eq df_num_df_set)
  have unchanged: "df_num imp c = df_num ?d0 c"
    if "c \<noteq> ''CREDIT_LIMIT''" "c \<noteq> ''MINIMUM_PAYMENTS''" for c
    using that by (simp add: impeq d1eq df_num_df_set)
  from feat obtain f1 where f1: "per_tenure ''MONTHLY_AVG_PURCHASE'' ''PURCHASES'' imp = Inr f1"
    by (auto simp: feature_engineering_def split: sum.splits)
  from per_tenure_num[OF f1] obtain pu te where "df_num imp ''PURCHASES'' = Inr pu"
    "df_num imp ''TENURE'' = Inr te" by blast
  then have pu: "df_num ?d0 ''PURCHASES'' = Inr pu" and te: "df_num ?d0 ''TENURE'' = Inr te"
    by (simp_all add: unchanged)
  have keep: "df_num feat c = df_num ?d0 c"
    if "c \<in> {''BALANCE'', ''CASH_ADVANCE'', ''PAYMENTS''}" for c
  proof -
    from that have "c \<notin> set derived_columns" by (auto simp: derived_columns_def)
    from feature_engineering_keeps[OF feat this] that show ?thesis by (auto simp: unchanged)
  qed
  have dist: "distinct cols_to_clip" by (simp add: cols_to_clip_def)
  have "\<exists>xs. df_num feat c = Inr xs" if "c \<in> set cols_to_clip" for c
    using clip_outliers_clipped[OF out dist that] by blast
  then have "\<exists>xs. df_num feat ''BALANCE'' = Inr xs" "\<exists>xs. df_num feat ''CASH_ADVANCE'' = Inr xs"
    "\<exists>xs. df_num feat ''PAYMENTS'' = Inr xs"
    by (simp_all add: cols_to_clip_def)
  then obtain ba ca pa where "df_num ?d0 ''BALANCE'' = Inr ba" "df_num ?d0 ''CASH_ADVANCE'' = Inr ca"
    "df_num ?d0 ''PAYMENTS'' = Inr pa"
    by (auto simp: keep)
  with cl mp pu te show ?thesis by blast
qed

lemma preprocess_cases:
  assumes "preprocess df = Inr out"
  obtains ba pu ca cl pa mp te where
    "df_num (drop_identifier df) ''BALANCE'' = Inr ba"
    "df_num (drop_identifier df) ''PURCHASES'' = Inr pu"
    "df_num (drop_identifier df) ''CASH_ADVANCE'' = Inr ca"
    "df_num (drop_identifier df) ''CREDIT_LIMIT'' = Inr cl"
    "df_num (drop_identifier df) ''PAYMENTS'' = Inr pa"
    "df_num (drop_identifier df) ''MINIMUM_PAYMENTS'' = Inr mp"
    "df_num (drop_identifier df) ''TENURE'' = Inr te"
    "out = preprocessed (drop_identifier df) ba pu ca cl pa mp te"
proof -
  from preprocess_inputs[OF assms] obtain ba pu ca cl pa mp te where
    h: "df_num (drop_identifier df) ''BALANCE'' = Inr ba"
    "df_num (drop_identifier df) ''PURCHASES'' = Inr pu"
    "df_num (drop_identifier df) ''CASH_ADVANCE'' = Inr ca"
    "df_num (drop_identifier df) ''CREDIT_LIMIT'' = Inr cl"
    "df_num (drop_identifier df) ''PAYMENTS'' = Inr pa"
    "df_num (drop_identifier df) ''MINIMUM_PAYMENTS'' = Inr mp"
    "df_num (drop_identifier df) ''TENURE'' = Inr te" by blast
  from preprocess_explicit[OF h] assms
  have "out = preprocessed (drop_identifier df) ba pu ca cl pa mp te" by simp
  with h that show thesis by blast
qed

lemma df_num_preprocessed:
  "df_num (preprocessed d0 ba pu ca cl pa mp te) c =
     (if c = ''MINIMUM_PAYMENTS'' then Inr (q99 (fillna (median mp) mp))
      else if c = ''PAYMENTS'' then Inr (q99 pa)
      else if c = ''CASH_ADVANCE'' then Inr (q99 ca)
      else if c = ''PURCHASES'' then Inr (q99 pu)
      else if c = ''BALANCE'' then Inr (q99 ba)
      else if c = ''BALANCE_TO_LIMIT_RATIO'' then
        Inr (series_div ba (limit_denominator (fillna (median cl) cl)))
      else if c = ''PURCHASE_TO_LIMIT_RATIO'' then
        Inr (series_div pu (limit_denominator (fillna (median cl) cl)))
      else if c = ''MONTHLY_AVG_CASH_ADVANCE'' then Inr (series_div ca te)
      else if c = ''MONTHLY_AVG_PURCHASE'' then Inr (series_div pu te)
      else if c = ''CREDIT_LIMIT'' then Inr (fillna (median cl) cl)
      else df_num d0 c)"
  by (simp add: preprocessed_def Let_def df_num_df_set)

subsection \<open>Row counts\<close>

lemma df_num_mem: "df_num df c = Inr xs \<Longrightarrow> (c, NumCol xs) \<in> set df"
  by (auto simp: df_num_def df_get_def split: option.splits column.splits dest: map_of_SomeD)

lemma drop_identifier_subset: "set (drop_identifier df) \<subseteq> set df"
  by (auto simp: drop_identifier_def AList.delete_eq)

lemma wf_table_len: "wf_table df \<Longrightarrow> (c, col) \<in> set df \<Longrightarrow> col_len col = nrows df"
  by (auto simp: wf_table_def list_all_iff)

lemma wf_dropped_len:
  assumes "wf_table df" and "df_num (drop_identifier df) c = Inr xs"
  shows "length xs = nrows df"
proof -
  from df_num_mem[OF assms(2)] drop_identifier_subset have "(c, NumCol xs) \<in> set df" by blast
  from wf_table_len[OF assms(1) this] show ?thesis by simp
qed

lemma wf_dropped_nrows:
  assumes "wf_table df" and "drop_identifier df \<noteq> []"
  shows "nrows (drop_identifier df) = nrows df"
proof -
  from assms(2) obtain c col rest where e: "drop_identifier df = (c, col) # rest"
    by (cases "drop_identifier df") auto
  then have "(c, col) \<in> set (drop_identifier df)" by simp
  with drop_identifier_subset have "(c, col) \<in> set df" by blast
  from wf_table_len[OF assms(1) this] e show ?thesis by simp
qed

lemma df_set_nonempty [simp]: "df_set c xs df \<noteq> []"
  by (simp add: df_set_def)

lemma nrows_df_set:
  "df \<noteq> [] \<Longrightarrow> length xs = nrows df \<Longrightarrow> nrows (df_set c xs df) = nrows df"
  by (cases df) (auto simp: df_set_def)

lemma length_q99 [simp]: "length (q99 xs) = length xs"
  by (simp add: q99_def clip_upper_def)

lemma length_fillna [simp]: "length (fillna v xs) = length xs"
  by (simp add: fillna_def)

lemma length_series_div [simp]: "length (series_div xs ys) = min (length xs) (length ys)"
  by (simp add: series_div_def)

lemma length_limit_denominator [simp]: "length (limit_denominator xs) = length xs"
  by (simp add: limit_denominator_def)

lemma nrows_preprocessed:
  assumes "d0 \<noteq> []" and "length ba = nrows d0" "length pu = nrows d0" "length ca = nrows d0"
    "length cl = nrows d0" "length pa = nrows d0" "length mp = nrows d0" "length te = nrows d0"
  shows "nrows (preprocessed d0 ba pu ca cl pa mp te) = nrows d0"
  using assms by (simp add: preprocessed_def Let_def nrows_df_set)







lemma fill_missing_explicit:
  assumes "df_num d0 ''CREDIT_LIMIT'' = Inr cl" and "df_num d0 ''MINIMUM_PAYMENTS'' = Inr mp"
  shows "fill_missing d0 =
           Inr (df_set ''MINIMUM_PAYMENTS'' (fillna (median mp) mp)
                 (df_set ''CREDIT_LIMIT'' (fillna (median cl) cl) d0))"
  using assms by (simp add: fill_missing_def fill_column_def df_num_df_set)

subsection \<open>Derived ratios\<close>




subsection \<open>Order statistics of finite cells\<close>

lemma set_insort_cell [simp]: "set (insort_cell x ys) = insert x (set ys)"
  by (induction ys) auto

lemma set_sort_cells [simp]: "set (sort_cells xs) = set xs"
  by (induction xs) auto

lemma length_insort_cell [simp]: "length (insort_cell x ys) = Suc (length ys)"
  by (induction ys) auto

lemma length_sort_cells [simp]: "length (sort_cells xs) = length xs"
  by (induction xs) auto

lemma sort_cells_eq_Nil [simp]: "sort_cells xs = [] \<longleftrightarrow> xs = []"
  using length_sort_cells[of xs] by (simp only: length_0_conv[symmetric])

lemma is_finite_iff: "is_finite c \<longleftrightarrow> (\<exists>x. c = Fin x)"
  by (cases c) auto

lemma median_cases:
  "median xs = NaN \<and> dropna xs = [] \<or>
   (\<exists>a \<in> set (dropna xs). median xs = a) \<or>
   (\<exists>a \<in> set (dropna xs). \<exists>b \<in> set (dropna xs). median xs = cell_div (cell_add a b) (Fin 2))"
proof (cases "dropna xs = []")
  case True
  then show ?thesis by (simp add: median_def)
next
  case False
  let ?ys = "sort_cells (dropna xs)"
  from False have pos: "0 < length ?ys" by simp
  have mem: "?ys ! k \<in> set (dropna xs)" if "k < length ?ys" for k
    using nth_mem[OF that] by simp
  have h: "length ?ys div 2 < length ?ys" "length ?ys div 2 - 1 < length ?ys"
    using pos by arith+
  show ?thesis
    using mem[OF h(1)] mem[OF h(2)] False
    by (auto simp: median_def Let_def)
qed

lemma median_finite:
  assumes "\<forall>x \<in> set xs. is_finite x \<or> isna x" and "\<exists>x \<in> set xs. \<not> isna x"
  shows "is_finite (median xs)"
proof -
  have fin: "is_finite a" if "a \<in> set (dropna xs)" for a
    using that assms(1) by (auto simp: dropna_def)
  from assms(2) have "dropna xs \<noteq> []"
    by (auto simp: dropna_def filter_empty_conv)
  with median_cases[of xs] consider
    a where "a \<in> set (dropna xs)" "median xs = a"
  | a b where "a \<in> set (dropna xs)" "b \<in> set (dropna xs)"
      "median xs = cell_div (cell_add a b) (Fin 2)"
    by blast
  then show ?thesis
  proof cases
    case 1
    with fin show ?thesis by simp
  next
    case 2
    from fin[OF 2(1)] fin[OF 2(2)] obtain x y where "a = Fin x" "b = Fin y"
      unfolding is_finite_iff by blast
    with 2(3) show ?thesis by simp
  qed
qed

lemma fillna_finite:
  assumes "\<forall>x \<in> set xs. is_finite x \<or> isna x" and "is_finite v"
  shows "\<forall>x \<in> set (fillna v xs). is_finite x"
  using assms by (auto simp: fillna_def)

lemma isna_count_zero: "length (filter isna xs) = 0 \<longleftrightarrow> NaN \<notin> set xs"
  by (auto simp: filter_empty_conv isna_def)

lemma finite_no_nan: "\<forall>x \<in> set xs. is_finite x \<Longrightarrow> NaN \<notin> set xs"
  by auto

lemma series_div_no_nan:
  assumes "\<forall>x \<in> set xs. is_finite x" and "\<forall>y \<in> set ys. is_finite y"
    and "\<not> zero_over_zero xs ys"
  shows "NaN \<notin> set (series_div xs ys)"
proof
  assume "NaN \<in> set (series_div xs ys)"
  then obtain x y where xy: "(x, y) \<in> set (zip xs ys)" and nan: "cell_div x y = NaN"
    by (auto simp: series_div_def)
  from xy have "x \<in> set xs" "y \<in> set ys" by (auto dest: set_zip_leftD set_zip_rightD)
  with assms(1,2) have "is_finite x" "is_finite y" by blast+
  then obtain a b where ab: "x = Fin a" "y = Fin b"
    unfolding is_finite_iff by blast
  with nan have "a = 0 \<and> b = 0" by (auto split: if_splits)
  with xy ab assms(3) show False
    by (auto simp: zero_over_zero_def list_ex_iff)
qed

lemma add_one_finite: "is_finite c \<Longrightarrow> is_finite (add_one u c)"
  by (cases c) (simp_all add: add_one_def)

lemma limit_denominator_finite:
  "\<forall>x \<in> set cl. is_finite x \<Longrightarrow> \<forall>x \<in> set (limit_denominator cl). is_finite x"
  by (auto simp: limit_denominator_def add_one_finite)

lemma q99_no_nan: "NaN \<notin> set xs \<Longrightarrow> NaN \<notin> set (q99 xs)"
  by (auto simp: q99_def clip_upper_def clip_cell_def isna_def)

lemma distinct_numeric_columns: "distinct (''CUST_ID'' # numeric_columns)"
  by (simp add: numeric_columns_def)

lemma schema_distinct: "in_generator_schema df \<Longrightarrow> distinct (map fst df)"
  using distinct_numeric_columns by (auto simp: in_generator_schema_def columns_def)

lemma schema_wf: "in_generator_schema df \<Longrightarrow> wf_table df"
  using schema_distinct[of df]
  by (auto simp: wf_table_def in_generator_schema_def columns_def list_all_iff)

lemma schema_column:
  assumes "in_generator_schema df" and "c \<in> set numeric_columns"
  shows "\<exists>xs. df_num (drop_identifier df) c = Inr xs \<and> (c, NumCol xs) \<in> set df \<and>
           (\<forall>x \<in> set xs. is_finite x \<or> isna x)"
proof -
  from assms have "c \<in> fst ` set df"
    by (auto simp: in_generator_schema_def columns_def simp flip: set_map)
  then obtain col where col: "(c, col) \<in> set df" by force
  from assms(2) distinct_numeric_columns have ne: "c \<noteq> ''CUST_ID''" by auto
  with col assms(1) have "numeric_column col"
    by (auto simp: in_generator_schema_def list_all_iff)
  then obtain xs where xs: "col = NumCol xs" "\<forall>x \<in> set xs. is_finite x \<or> isna x"
    by (cases col) (auto simp: list_all_iff)
  from col schema_distinct[OF assms(1)] have "map_of df c = Some col" by simp
  with ne xs have "df_num (drop_identifier df) c = Inr xs"
    by (simp add: df_num_def df_get_def drop_identifier_def delete_conv')
  with col xs show ?thesis by blast
qed

lemma map_of_preprocessed_id:
  "map_of (preprocessed d0 ba pu ca cl pa mp te) ''CUST_ID'' = map_of d0 ''CUST_ID''"
  by (simp add: preprocessed_def Let_def df_set_def update_conv')

lemma distinct_preprocessed:
  "distinct (map fst d0) \<Longrightarrow> distinct (map fst (preprocessed d0 ba pu ca cl pa mp te))"
  by (simp add: preprocessed_def Let_def df_set_def distinct_update)

lemma no_nan_df_set:
  assumes "\<forall>k col. map_of d k = Some col \<longrightarrow> k \<in> S \<or> col_isna_count col = 0"
    and "NaN \<notin> set xs"
  shows "\<forall>k col. map_of (df_set c xs d) k = Some col \<longrightarrow>
           k \<in> S - {c} \<or> col_isna_count col = 0"
  using assms by (auto simp: df_set_def update_conv' filter_empty_conv isna_def split: if_splits)

lemma no_missing_iff:
  "distinct (map fst df) \<Longrightarrow>
     no_missing df \<longleftrightarrow> (\<forall>c col. map_of df c = Some col \<longrightarrow> col_isna_count col = 0)"
  by (auto simp: no_missing_def list_all_iff dest: map_of_SomeD)

subsection \<open>No missing values\<close>

text \<open>
  C1, as amended. For a table in the generator's schema, with or without the CUST_ID
  column, whose missing values occur only in CREDIT_LIMIT and MINIMUM_PAYMENTS, neither
  of them entirely missing, and in which no row makes one of the four ratios zero over
  zero, \<open>preprocess\<close> succeeds and returns a table with no missing value in any
  column and without the CUST_ID column.
\<close>

theorem preprocess_no_missing:
  assumes schema: "in_generator_schema df"
    and missing: "missing_only_imputed df"
    and defined: "\<not> undefined_ratio df"
  shows "\<exists>out. preprocess df = Inr out \<and> no_missing out \<and> ''CUST_ID'' \<notin> set (columns out)"
proof -
  let ?d0 = "drop_identifier df"
  have cols: "''BALANCE'' \<in> set numeric_columns" "''PURCHASES'' \<in> set numeric_columns"
    "''CASH_ADVANCE'' \<in> set numeric_columns" "''CREDIT_LIMIT'' \<in> set numeric_columns"
    "''PAYMENTS'' \<in> set numeric_columns" "''MINIMUM_PAYMENTS'' \<in> set numeric_columns"
    "''TENURE'' \<in> set numeric_columns"
    by (simp_all add: numeric_columns_def)
  from schema_column[OF schema cols(1)] obtain ba where
    cba: "df_num ?d0 ''BALANCE'' = Inr ba" and mba: "(''BALANCE'', NumCol ba) \<in> set df"
    and gba: "\<forall>x \<in> set ba. is_finite x \<or> isna x"
    by blast
  from schema_column[OF schema cols(2)] obtain pu where
    cpu: "df_num ?d0 ''PURCHASES'' = Inr pu" and mpu: "(''PURCHASES'', NumCol pu) \<in> set df"
    and gpu: "\<forall>x \<in> set pu. is_finite x \<or> isna x"
    by blast
  from schema_column[OF schema cols(3)] obtain ca where
    cca: "df_num ?d0 ''CASH_ADVANCE'' = Inr ca" and mca: "(''CASH_ADVANCE'', NumCol ca) \<in> set df"
    and gca: "\<forall>x \<in> set ca. is_finite x \<or> isna x"
    by blast
  from schema_column[OF schema cols(4)] obtain cl where
    ccl: "df_num ?d0 ''CREDIT_LIMIT'' = Inr cl" and mcl: "(''CREDIT_LIMIT'', NumCol cl) \<in> set df"
    and gcl: "\<forall>x \<in> set cl. is_finite x \<or> isna x"
    by blast
  from schema_column[OF schema cols(5)] obtain pa where
    cpa: "df_num ?d0 ''PAYMENTS'' = Inr pa" and mpa: "(''PAYMENTS'', NumCol pa) \<in> set df"
    and gpa: "\<forall>x \<in> set pa. is_finite x \<or> isna x"
    by blast
  from schema_column[OF schema cols(6)] obtain mp where
    cmp: "df_num ?d0 ''MINIMUM_PAYMENTS'' = Inr mp" and mmp: "(''MINIMUM_PAYMENTS'', NumCol mp) \<in> set df"
    and gmp: "\<forall>x \<in> set mp. is_finite x \<or> isna x"
    by blast
  from schema_column[OF schema cols(7)] obtain te where
    cte: "df_num ?d0 ''TENURE'' = Inr te" and mte: "(''TENURE'', NumCol te) \<in> set df"
    and gte: "\<forall>x \<in> set te. is_finite x \<or> isna x"
    by blast
  note c = cba cpu cca ccl cpa cmp cte
  note m = mba mpu mca mcl mpa mmp mte
  note f = gba gpu gca gcl gpa gmp gte
  let ?cl = "fillna (median cl) cl" and ?mp = "fillna (median mp) mp"
  let ?out = "preprocessed ?d0 ba pu ca cl pa mp te"
  have out: "preprocess df = Inr ?out"
    by (rule preprocess_explicit[OF c])
  have full: "\<forall>x \<in> set xs. is_finite x"
    if "(k, NumCol xs) \<in> set df" "k \<notin> set imputed_columns" "\<forall>x \<in> set xs. is_finite x \<or> isna x"
    for k xs
  proof -
    from missing that(1,2) have "length (filter isna xs) = 0"
      by (auto simp: missing_only_imputed_def list_all_iff)
    then have "NaN \<notin> set xs" using isna_count_zero[of xs] by blast
    with that(3) show ?thesis by (auto simp: isna_def)
  qed
  have fba: "\<forall>x \<in> set ba. is_finite x" by (rule full[OF m(1) _ f(1)]) (simp add: imputed_columns_def)
  have fpu: "\<forall>x \<in> set pu. is_finite x" by (rule full[OF m(2) _ f(2)]) (simp add: imputed_columns_def)
  have fca: "\<forall>x \<in> set ca. is_finite x" by (rule full[OF m(3) _ f(3)]) (simp add: imputed_columns_def)
  have fpa: "\<forall>x \<in> set pa. is_finite x" by (rule full[OF m(5) _ f(5)]) (simp add: imputed_columns_def)
  have fte: "\<forall>x \<in> set te. is_finite x" by (rule full[OF m(7) _ f(7)]) (simp add: imputed_columns_def)
  have some: "\<exists>x \<in> set xs. \<not> isna x"
    if "(k, NumCol xs) \<in> set df" "k \<in> set imputed_columns" for k xs
  proof -
    from missing that have "length (filter isna xs) < length xs"
      by (auto simp: missing_only_imputed_def list_all_iff)
    then show ?thesis
      by (metis filter_True less_irrefl)
  qed
  have fcl: "\<forall>x \<in> set ?cl. is_finite x"
    by (rule fillna_finite[OF f(4) median_finite[OF f(4) some[OF m(4)]]])
      (simp add: imputed_columns_def)
  have fmp: "\<forall>x \<in> set ?mp. is_finite x"
    by (rule fillna_finite[OF f(6) median_finite[OF f(6) some[OF m(6)]]])
      (simp add: imputed_columns_def)
  have fld: "\<forall>x \<in> set (limit_denominator ?cl). is_finite x"
    by (rule limit_denominator_finite[OF fcl])
  from defined c have z: "\<not> zero_over_zero pu te" "\<not> zero_over_zero ca te"
    "\<not> zero_over_zero pu (limit_denominator ?cl)" "\<not> zero_over_zero ba (limit_denominator ?cl)"
    by (simp_all add: undefined_ratio_def fill_missing_explicit[OF c(4) c(6)] df_num_df_set)
  have dist: "distinct (map fst ?out)"
    using schema_distinct[OF schema]
    by (intro distinct_preprocessed) (simp add: drop_identifier_def distinct_delete)
  have n: "NaN \<notin> set ?cl" "NaN \<notin> set ?mp" "NaN \<notin> set (series_div pu te)"
    "NaN \<notin> set (series_div ca te)" "NaN \<notin> set (series_div pu (limit_denominator ?cl))"
    "NaN \<notin> set (series_div ba (limit_denominator ?cl))" "NaN \<notin> set (q99 ba)"
    "NaN \<notin> set (q99 pu)" "NaN \<notin> set (q99 ca)" "NaN \<notin> set (q99 pa)"
    "NaN \<notin> set (q99 ?mp)"
    by (simp_all add: q99_no_nan finite_no_nan series_div_no_nan
          fba fpu fca fpa fte fcl fmp fld z)
  have q0: "\<forall>k col. map_of ?d0 k = Some col \<longrightarrow>
      k \<in> set imputed_columns \<or> col_isna_count col = 0"
  proof (intro allI impI)
    fix k col
    assume "map_of ?d0 k = Some col"
    then have "(k, col) \<in> set ?d0" by (rule map_of_SomeD)
    with drop_identifier_subset have "(k, col) \<in> set df" by blast
    with missing have "if k \<in> set imputed_columns then col_isna_count col < col_len col
        else col_isna_count col = 0"
      unfolding missing_only_imputed_def list_all_iff by fast
    then show "k \<in> set imputed_columns \<or> col_isna_count col = 0"
      by (simp split: if_splits)
  qed
  note q = no_nan_df_set[OF no_nan_df_set[OF no_nan_df_set[OF no_nan_df_set[OF
      no_nan_df_set[OF no_nan_df_set[OF no_nan_df_set[OF no_nan_df_set[OF no_nan_df_set[OF
      no_nan_df_set[OF no_nan_df_set[OF q0 n(1)] n(2)] n(3)] n(4)] n(5)] n(6)] n(7)] n(8)]
      n(9)] n(10)] n(11),
      of "''MINIMUM_PAYMENTS''" "''PAYMENTS''" "''CASH_ADVANCE''" "''PURCHASES''" "''BALANCE''"
        "''BALANCE_TO_LIMIT_RATIO''" "''PURCHASE_TO_LIMIT_RATIO''" "''MONTHLY_AVG_CASH_ADVANCE''"
        "''MONTHLY_AVG_PURCHASE''" "''MINIMUM_PAYMENTS''" "''CREDIT_LIMIT''"]
  have "col_isna_count col = 0" if lookup: "map_of ?out k = Some col" for k col
  proof -
    from lookup have "map_of (df_set ''MINIMUM_PAYMENTS'' (q99 ?mp)
     (df_set ''PAYMENTS'' (q99 pa)
     (df_set ''CASH_ADVANCE'' (q99 ca)
     (df_set ''PURCHASES'' (q99 pu)
     (df_set ''BALANCE'' (q99 ba)
     (df_set ''BALANCE_TO_LIMIT_RATIO'' (series_div ba (limit_denominator ?cl))
     (df_set ''PURCHASE_TO_LIMIT_RATIO'' (series_div pu (limit_denominator ?cl))
     (df_set ''MONTHLY_AVG_CASH_ADVANCE'' (series_div ca te)
     (df_set ''MONTHLY_AVG_PURCHASE'' (series_div pu te)
     (df_set ''MINIMUM_PAYMENTS'' ?mp
     (df_set ''CREDIT_LIMIT'' ?cl ?d0))))))))))) k = Some col"
      by (simp only: preprocessed_def Let_def)
    from q[rule_format, OF this] show ?thesis
      by (auto simp: imputed_columns_def)
  qed
  with dist have "no_missing ?out" by (simp add: no_missing_iff)
  moreover have "map_of ?out ''CUST_ID'' = None"
    by (simp add: map_of_preprocessed_id drop_identifier_def delete_conv')
  then have "''CUST_ID'' \<notin> set (columns ?out)"
    by (simp add: map_of_eq_None_iff columns_def)
  ultimately show ?thesis using out by blast
qed

theorem preprocess_no_missing_witness:
  "in_generator_schema example_raw \<and> missing_only_imputed example_raw \<and>
   \<not> undefined_ratio example_raw \<and>
   (\<exists>out. preprocess example_raw = Inr out \<and> no_missing out \<and>
      ''CUST_ID'' \<notin> set (columns out)) \<and>
   ''CUST_ID'' \<notin> set (columns (tl example_raw)) \<and>
   in_generator_schema (tl example_raw) \<and> missing_only_imputed (tl example_raw) \<and>
   \<not> undefined_ratio (tl example_raw) \<and>
   (\<exists>out. preprocess (tl example_raw) = Inr out \<and> no_missing out \<and>
      ''CUST_ID'' \<notin> set (columns out))"
proof -
  have a: "in_generator_schema example_raw" "missing_only_imputed example_raw"
    "\<not> undefined_ratio example_raw"
    by code_simp+
  have b: "in_generator_schema (tl example_raw)" "missing_only_imputed (tl example_raw)"
    "\<not> undefined_ratio (tl example_raw)"
    by code_simp+
  have c: "''CUST_ID'' \<notin> set (columns (tl example_raw))"
    by code_simp
  from preprocess_no_missing[OF a] preprocess_no_missing[OF b] a b c
  show ?thesis by blast
qed

text \<open>
  C1 as stated fails: the table is in the generator's schema and has no missing value
  at all, yet zero purchases over zero tenure leaves a missing value in
  MONTHLY_AVG_PURCHASE.
\<close>

theorem zero_tenure_counterexample:
  "in_generator_schema zero_tenure_raw \<and> missing_only_imputed zero_tenure_raw \<and>
   preprocess zero_tenure_raw = Inr zero_tenure_processed \<and>
   df_num zero_tenure_processed ''MONTHLY_AVG_PURCHASE'' = Inr [Fin 10, NaN] \<and>
   \<not> no_missing zero_tenure_processed"
  by code_simp

subsection \<open>Clipping\<close>

text \<open>
  C3. After the clipping loop, in each of the five clipped columns no value exceeds the
  column's 99th-percentile threshold, where the threshold is the quantile of that column
  in the table as it stands after imputation; a value at or below the threshold is
  unchanged; and no value is raised.
\<close>

theorem clip_outliers_bounds:
  assumes "preprocess df = Inr out" and "c \<in> set cols_to_clip"
  shows "\<exists>imp xs ys. fill_missing (drop_identifier df) = Inr imp \<and> df_num imp c = Inr xs \<and>
           df_num out c = Inr ys \<and> length ys = length xs \<and>
           (\<forall>i < length xs.
              \<not> cell_less (quantile (99 / 100) xs) (ys ! i) \<and>
              (cell_le (xs ! i) (quantile (99 / 100) xs) \<longrightarrow> ys ! i = xs ! i) \<and>
              \<not> cell_less (xs ! i) (ys ! i))"
proof -
  from assms(1) obtain imp feat where
    imp: "fill_missing (drop_identifier df) = Inr imp" and
    feat: "feature_engineering imp = Inr feat" and
    out: "clip_outliers cols_to_clip feat = Inr out"
    by (auto simp: preprocess_def split: sum.splits)
  have dist: "distinct cols_to_clip" by (simp add: cols_to_clip_def)
  from clip_outliers_clipped[OF out dist assms(2)] obtain xs where
    xs: "df_num feat c = Inr xs" "df_num out c = Inr (clip_upper (quantile (99 / 100) xs) xs)"
    by blast
  from assms(2) have "c \<notin> set derived_columns"
    by (auto simp: cols_to_clip_def derived_columns_def)
  from feature_engineering_keeps[OF feat this] xs(1) have "df_num imp c = Inr xs" by simp
  with imp xs(2) show ?thesis
    by (auto simp: length_clip_upper clip_upper_nth)
qed

theorem clip_outliers_bounds_witness:
  "preprocess example_raw = Inr example_processed \<and> ''PURCHASES'' \<in> set cols_to_clip \<and>
   (\<exists>imp xs ys. fill_missing (drop_identifier example_raw) = Inr imp \<and>
      df_num imp ''PURCHASES'' = Inr xs \<and>
      df_num example_processed ''PURCHASES'' = Inr ys \<and> length ys = length xs \<and>
      (\<forall>i < length xs.
         \<not> cell_less (quantile (99 / 100) xs) (ys ! i) \<and>
         (cell_le (xs ! i) (quantile (99 / 100) xs) \<longrightarrow> ys ! i = xs ! i) \<and>
         \<not> cell_less (xs ! i) (ys ! i)))"
proof -
  have c: "''PURCHASES'' \<in> set cols_to_clip"
    by (simp add: cols_to_clip_def)
  from clip_outliers_bounds[OF example_preprocess c] example_preprocess c
  show ?thesis by blast
qed

section \<open>Properties of the generator\<close>

subsection \<open>Draws\<close>

lemma contract_parts:
  assumes "numpy_contract R"
  shows contract_seed_reset: "\<And>s g g'. rng_seed R s g = rng_seed R s g'"
    and contract_seed_valid: "\<And>s g. rng_seed R s g \<noteq> None \<longleftrightarrow> 0 \<le> s \<and> s < 2 ^ 32"
    and contract_exponential: "\<And>sc n g. length (fst (rng_exponential R sc n g)) = n"
    and contract_uniform: "\<And>lo hi n g. length (fst (rng_uniform R lo hi n g)) = n"
    and contract_randint: "\<And>lo hi n g. lo < hi \<Longrightarrow>
        length (fst (rng_randint R lo hi n g)) = n \<and>
        (\<forall>v \<in> set (fst (rng_randint R lo hi n g)). lo \<le> v \<and> v < hi)"
    and contract_choice: "\<And>a n g. a \<noteq> [] \<Longrightarrow>
        length (fst (rng_choice R a n g)) = n \<and> set (fst (rng_choice R a n g)) \<subseteq> set a"
    and contract_sample_case: "\<And>pop k g.
        case fst (rng_sample R pop k g) of
          None \<Rightarrow> pop < k
        | Some idx \<Rightarrow> k \<le> pop \<and> length idx = k \<and> distinct idx \<and> (\<forall>i \<in> set idx. i < pop)"
proof -
  note all = assms[unfolded numpy_contract_def]
  note a = all[THEN conjunct1]
  note b = all[THEN conjunct2, THEN conjunct1]
  note c = all[THEN conjunct2, THEN conjunct2, THEN conjunct1]
  note d = all[THEN conjunct2, THEN conjunct2, THEN conjunct2, THEN conjunct1]
  note e = all[THEN conjunct2, THEN conjunct2, THEN conjunct2, THEN conjunct2, THEN conjunct1]
  note f = all[THEN conjunct2, THEN conjunct2, THEN conjunct2, THEN conjunct2, THEN conjunct2,
      THEN conjunct1]
  note g = all[THEN conjunct2, THEN conjunct2, THEN conjunct2, THEN conjunct2, THEN conjunct2,
      THEN conjunct2]
  show "\<And>s g g'. rng_seed R s g = rng_seed R s g'" by (rule a[rule_format])
  show "\<And>s g. rng_seed R s g \<noteq> None \<longleftrightarrow> 0 \<le> s \<and> s < 2 ^ 32" by (rule b[rule_format])
  show "\<And>sc n g. length (fst (rng_exponential R sc n g)) = n" by (rule c[rule_format])
  show "\<And>lo hi n g. length (fst (rng_uniform R lo hi n g)) = n" by (rule d[rule_format])
  show "\<And>lo hi n g. lo < hi \<Longrightarrow>
        length (fst (rng_randint R lo hi n g)) = n \<and>
        (\<forall>v \<in> set (fst (rng_randint R lo hi n g)). lo \<le> v \<and> v < hi)"
    by (rule e[rule_format])
  show "\<And>a n g. a \<noteq> [] \<Longrightarrow>
        length (fst (rng_choice R a n g)) = n \<and> set (fst (rng_choice R a n g)) \<subseteq> set a"
    by (rule f[rule_format])
  show "\<And>pop k g.
        case fst (rng_sample R pop k g) of
          None \<Rightarrow> pop < k
        | Some idx \<Rightarrow> k \<le> pop \<and> length idx = k \<and> distinct idx \<and> (\<forall>i \<in> set idx. i < pop)"
    by (rule g[rule_format])
qed

lemma contract_sample:
  assumes "numpy_contract R" and "k \<le> pop"
  shows "\<exists>idx g'. rng_sample R pop k g = (Some idx, g') \<and> length idx = k \<and> distinct idx \<and>
           (\<forall>i \<in> set idx. i < pop)"
  using contract_sample_case[OF assms(1), of pop k g] assms(2)
  by (cases "rng_sample R pop k g") (auto split: option.splits)

lemma contract_sample_Some:
  assumes "numpy_contract R" and "rng_sample R pop k g = (Some idx, g')"
  shows "k \<le> pop \<and> length idx = k \<and> distinct idx \<and> (\<forall>i \<in> set idx. i < pop)"
  using contract_sample_case[OF assms(1), of pop k g] assms(2) by simp

lemma draw_finite: "\<forall>x \<in> set (fst (draw R d n g)). is_finite x"
  by (cases d) (auto split: prod.splits)

lemma draw_length:
  "numpy_contract R \<Longrightarrow> spec_ok d \<Longrightarrow> length (fst (draw R d n g)) = n"
proof (cases d)
  case (Exponential sc)
  assume "numpy_contract R"
  from contract_exponential[OF this, of sc n g] Exponential show ?thesis
    by (auto split: prod.splits)
next
  case (Uniform lo hi)
  assume "numpy_contract R"
  from contract_uniform[OF this, of lo hi n g] Uniform show ?thesis
    by (auto split: prod.splits)
next
  case (Randint lo hi)
  assume "numpy_contract R" "spec_ok d"
  with contract_randint[of R lo hi n g] Randint show ?thesis
    by (auto split: prod.splits)
next
  case (Choice a)
  assume "numpy_contract R" "spec_ok d"
  with contract_choice[of R a n g] Choice show ?thesis
    by (auto split: prod.splits)
qed

lemma draw_randint_range:
  assumes "numpy_contract R" and "lo < hi" and "x \<in> set (fst (draw R (Randint lo hi) n g))"
  shows "\<exists>v. x = Fin (of_int v) \<and> lo \<le> v \<and> v < hi"
  using contract_randint[OF assms(1,2), of n g] assms(3)
  by (auto split: prod.splits)

lemma draw_choice_range:
  assumes "numpy_contract R" and "a \<noteq> []" and "x \<in> set (fst (draw R (Choice a) n g))"
  shows "\<exists>v \<in> set a. x = Fin (of_int v)"
  using contract_choice[OF assms(1,2), of n g] assms(3)
  by (auto split: prod.splits)

lemma draw_columns_keys: "map fst (fst (draw_columns R specs n g)) = map fst specs"
proof (induction specs arbitrary: g)
  case Nil
  then show ?case by simp
next
  case (Cons p specs)
  obtain c0 d0 where p: "p = (c0, d0)" by (cases p)
  obtain xs g1 where d: "draw R d0 n g = (xs, g1)" by (cases "draw R d0 n g")
  obtain cols g2 where r: "draw_columns R specs n g1 = (cols, g2)"
    by (cases "draw_columns R specs n g1")
  from Cons.IH[of g1] r have "map fst cols = map fst specs" by simp
  with p d r show ?case by simp
qed

lemma draw_columns_entry:
  "(c, col) \<in> set (fst (draw_columns R specs n g)) \<Longrightarrow>
     \<exists>d g'. (c, d) \<in> set specs \<and> col = NumCol (fst (draw R d n g'))"
proof (induction specs arbitrary: g)
  case Nil
  then show ?case by simp
next
  case (Cons p specs)
  obtain c0 d0 where p: "p = (c0, d0)" by (cases p)
  obtain xs g1 where d: "draw R d0 n g = (xs, g1)" by (cases "draw R d0 n g")
  obtain cols g2 where r: "draw_columns R specs n g1 = (cols, g2)"
    by (cases "draw_columns R specs n g1")
  from Cons.prems p d r have "(c, col) = (c0, NumCol xs) \<or> (c, col) \<in> set cols" by simp
  then show ?case
  proof
    assume "(c, col) = (c0, NumCol xs)"
    with p d have "(c, d0) \<in> set (p # specs) \<and> col = NumCol (fst (draw R d0 n g))" by simp
    then show ?thesis by blast
  next
    assume "(c, col) \<in> set cols"
    with r have "(c, col) \<in> set (fst (draw_columns R specs n g1))" by simp
    from Cons.IH[OF this] show ?thesis by auto
  qed
qed

lemma draw_columns_lookup:
  assumes "map_of specs c = Some d"
  shows "\<exists>g'. map_of (fst (draw_columns R specs n g)) c = Some (NumCol (fst (draw R d n g')))"
  using assms
proof (induction specs arbitrary: g)
  case Nil
  then show ?case by simp
next
  case (Cons p specs)
  obtain c0 d0 where p: "p = (c0, d0)" by (cases p)
  obtain xs g1 where d: "draw R d0 n g = (xs, g1)" by (cases "draw R d0 n g")
  obtain cols g2 where r: "draw_columns R specs n g1 = (cols, g2)"
    by (cases "draw_columns R specs n g1")
  show ?case
  proof (cases "c = c0")
    case True
    with Cons.prems p have "d = d0" by simp
    with True p d r have "map_of (fst (draw_columns R (p # specs) n g)) c =
        Some (NumCol (fst (draw R d n g)))" by simp
    then show ?thesis by blast
  next
    case False
    with Cons.prems p have "map_of specs c = Some d" by simp
    from Cons.IH[OF this, of g1] obtain g' where
      "map_of (fst (draw_columns R specs n g1)) c = Some (NumCol (fst (draw R d n g')))" by blast
    with False p d r have "map_of (fst (draw_columns R (p # specs) n g)) c =
        Some (NumCol (fst (draw R d n g')))" by simp
    then show ?thesis by blast
  qed
qed

lemma column_specs_ok: "list_all (\<lambda>(c, d). spec_ok d) column_specs"
  by (simp add: column_specs_def)

lemma column_specs_keys: "map fst column_specs = numeric_columns"
  by (simp add: column_specs_def numeric_columns_def)

subsection \<open>Missing markers\<close>

lemma length_set_nan [simp]: "length (set_nan idx xs) = length xs"
  by (simp add: set_nan_def)

lemma set_nan_nth:
  "i < length xs \<Longrightarrow> set_nan idx xs ! i = (if i \<in> set idx then NaN else xs ! i)"
  by (simp add: set_nan_def)

lemma set_nan_positions:
  assumes "\<forall>x \<in> set xs. is_finite x" and "\<forall>i \<in> set idx. i < length xs"
  shows "{i. i < length (set_nan idx xs) \<and> isna (set_nan idx xs ! i)} = set idx"
proof -
  have "\<not> isna (xs ! i)" if "i < length xs" for i
    using assms(1) nth_mem[OF that] by (auto simp: isna_def)
  with assms(2) show ?thesis
    by (auto simp: set_nan_nth isna_def split: if_splits)
qed

lemma set_nan_count:
  assumes "\<forall>x \<in> set xs. is_finite x" and "\<forall>i \<in> set idx. i < length xs" and "distinct idx"
  shows "length (filter isna (set_nan idx xs)) = length idx"
proof -
  have "length (filter isna (set_nan idx xs)) =
      card {i. i < length (set_nan idx xs) \<and> isna (set_nan idx xs ! i)}"
    by (rule length_filter_conv_card)
  also have "\<dots> = card (set idx)"
    by (simp only: set_nan_positions[OF assms(1,2)])
  also have "\<dots> = length idx"
    by (rule distinct_card[OF assms(3)])
  finally show ?thesis .
qed

lemma set_nan_finite_or_nan:
  "\<forall>x \<in> set xs. is_finite x \<Longrightarrow> \<forall>x \<in> set (set_nan idx xs). is_finite x \<or> isna x"
  by (auto simp: set_nan_def isna_def dest!: set_zip_rightD)

subsection \<open>The generated table\<close>

lemma column_specs_entry_ok: "(c, d) \<in> set column_specs \<Longrightarrow> spec_ok d"
  using column_specs_ok by (auto simp: list_all_iff)

lemma drawn_entry:
  assumes "numpy_contract R" and "(c, col) \<in> set (fst (draw_columns R column_specs n g))"
  shows "\<exists>xs. col = NumCol xs \<and> length xs = n \<and> (\<forall>x \<in> set xs. is_finite x)"
proof -
  from draw_columns_entry[OF assms(2)] obtain d g' where
    d: "(c, d) \<in> set column_specs" "col = NumCol (fst (draw R d n g'))" by blast
  have "length (fst (draw R d n g')) = n"
    by (rule draw_length[OF assms(1) column_specs_entry_ok[OF d(1)]])
  moreover have "\<forall>x \<in> set (fst (draw R d n g')). is_finite x"
    by (rule draw_finite)
  ultimately show ?thesis using d(2) by simp
qed

lemma drawn_lookup:
  assumes "numpy_contract R" and "map_of column_specs c = Some d"
  shows "\<exists>g'. map_of (fst (draw_columns R column_specs n g)) c = Some (NumCol (fst (draw R d n g'))) \<and>
           length (fst (draw R d n g')) = n"
proof -
  from draw_columns_lookup[OF assms(2), where R = R and n = n and g = g] obtain g' where
    g': "map_of (fst (draw_columns R column_specs n g)) c = Some (NumCol (fst (draw R d n g')))"
    by blast
  from assms(2) have "(c, d) \<in> set column_specs" by (rule map_of_SomeD)
  then have "length (fst (draw R d n g')) = n"
    by (intro draw_length[OF assms(1)] column_specs_entry_ok)
  with g' show ?thesis by blast
qed

lemma loc_set_nan_num:
  assumes "\<forall>i \<in> set idx. i < nrows df" and "map_of df c = Some (NumCol xs)"
  shows "loc_set_nan idx c df = Inr (df_set c (set_nan idx xs) df)"
  using assms by (simp add: loc_set_nan_def list_all_iff)

lemma generate_steps:
  assumes "rng_seed R seed g0 = Some g1" and "\<not> ns < 0"
    and "draw_columns R column_specs (nat ns) g1 = (cols, g2)"
    and "data_frame ((''CUST_ID'', ObjCol (map Some (map cust_id [1..<nat ns + 1]))) # cols) = Inr df"
    and "rng_sample R (nrows df) 1 g2 = (Some idx1, g3)"
    and "rng_sample R (nrows df) 313 g3 = (Some idx2, g4)"
    and "loc_set_nan idx1 ''CREDIT_LIMIT'' df = Inr df1"
    and "loc_set_nan idx2 ''MINIMUM_PAYMENTS'' df1 = Inr df2"
  shows "generate_credit_card_data R ns seed g0 = Inr (df2, g4)"
  unfolding generate_credit_card_data_def
  by (simp only: assms Let_def option.case sum.case prod.case if_False)

lemma generate_explicit:
  assumes contract: "numpy_contract R" and n: "313 \<le> ns"
    and seeded: "rng_seed R seed g0 = Some g1"
  obtains cols g2 idx1 g3 idx2 g4 cl mp where
    "draw_columns R column_specs (nat ns) g1 = (cols, g2)"
    "rng_sample R (nat ns) 1 g2 = (Some idx1, g3)"
    "rng_sample R (nat ns) 313 g3 = (Some idx2, g4)"
    "map_of cols ''CREDIT_LIMIT'' = Some (NumCol cl)"
    "map_of cols ''MINIMUM_PAYMENTS'' = Some (NumCol mp)"
    "generate_credit_card_data R ns seed g0 =
       Inr (generated (nat ns) cols idx1 idx2 cl mp, g4)"
proof -
  let ?n = "nat ns"
  obtain cols g2 where cols: "draw_columns R column_specs ?n g1 = (cols, g2)"
    by (cases "draw_columns R column_specs ?n g1")
  define data where "data = (''CUST_ID'', ObjCol (map Some (map cust_id [1..<?n + 1]))) # cols"
  have entry: "\<exists>xs. col = NumCol xs \<and> length xs = ?n \<and> (\<forall>x \<in> set xs. is_finite x)"
    if "(c, col) \<in> set cols" for c col
    using drawn_entry[OF contract, of c col ?n g1] that cols by simp
  have rows: "nrows data = ?n" by (simp add: data_def)
  have "col_len col = ?n" if "(c, col) \<in> set cols" for c col
    using entry[OF that] by auto
  then have "list_all (\<lambda>(c, col). col_len col = nrows data) data"
    unfolding rows by (auto simp: list_all_iff data_def)
  then have frame: "data_frame data = Inr data"
    by (simp only: data_frame_def if_True)
  from n have "1 \<le> ?n" "313 \<le> ?n" by simp_all
  from contract_sample[OF contract \<open>1 \<le> ?n\<close>, of g2] obtain idx1 g3 where
    s1: "rng_sample R ?n 1 g2 = (Some idx1, g3)" and r1: "\<forall>i \<in> set idx1. i < ?n" by blast
  from contract_sample[OF contract \<open>313 \<le> ?n\<close>, of g3] obtain idx2 g4 where
    s2: "rng_sample R ?n 313 g3 = (Some idx2, g4)" and r2: "\<forall>i \<in> set idx2. i < ?n" by blast
  have specs: "map_of column_specs ''CREDIT_LIMIT'' =
      Some (Choice [500, 1000, 1500, 2000, 3000, 5000, 7500, 10000, 15000, 20000])"
    "map_of column_specs ''MINIMUM_PAYMENTS'' = Some (Exponential 400)"
    by (simp_all add: column_specs_def)
  from drawn_lookup[OF contract specs(1), of ?n g1] cols obtain cl where
    cl: "map_of cols ''CREDIT_LIMIT'' = Some (NumCol cl)" by auto
  from drawn_lookup[OF contract specs(2), of ?n g1] cols obtain mp where
    mp: "map_of cols ''MINIMUM_PAYMENTS'' = Some (NumCol mp)" by auto
  let ?df1 = "df_set ''CREDIT_LIMIT'' (set_nan idx1 cl) data"
  from cl have dcl: "map_of data ''CREDIT_LIMIT'' = Some (NumCol cl)" by (simp add: data_def)
  have l1: "loc_set_nan idx1 ''CREDIT_LIMIT'' data = Inr ?df1"
    by (rule loc_set_nan_num) (use r1 rows dcl in simp_all)
  have ne: "data \<noteq> []" by (simp add: data_def)
  have rows1: "nrows ?df1 = ?n"
    using dcl rows by (cases data) (auto simp: df_set_def split: if_splits)
  from mp have "map_of ?df1 ''MINIMUM_PAYMENTS'' = Some (NumCol mp)"
    by (simp add: df_set_def update_conv' data_def)
  with r2 rows1 have l2: "loc_set_nan idx2 ''MINIMUM_PAYMENTS'' ?df1 =
      Inr (df_set ''MINIMUM_PAYMENTS'' (set_nan idx2 mp) ?df1)"
    by (intro loc_set_nan_num) simp_all
  from n have neg: "\<not> ns < 0" by simp
  note s1' = s1[folded rows, unfolded data_def]
  note s2' = s2[folded rows, unfolded data_def]
  from generate_steps[OF seeded neg cols frame[unfolded data_def] s1' s2'
      l1[unfolded data_def] l2[unfolded data_def]]
  have "generate_credit_card_data R ns seed g0 =
      Inr (generated ?n cols idx1 idx2 cl mp, g4)"
    by (simp only: generated_def)
  with cols s1 s2 cl mp that show thesis by blast
qed

lemma columns_df_set:
  "c \<in> set (columns df) \<Longrightarrow> columns (df_set c xs df) = columns df"
  by (simp add: columns_def df_set_def update_keys)

lemma map_of_df_set:
  "map_of (df_set c xs df) k = (if k = c then Some (NumCol xs) else map_of df k)"
  by (simp add: df_set_def update_conv')

lemma generated_table:
  assumes contract: "numpy_contract R"
    and cols: "draw_columns R column_specs n g1 = (cols, g2)"
    and i1: "\<forall>i \<in> set idx1. i < n" "distinct idx1"
    and i2: "\<forall>i \<in> set idx2. i < n" "distinct idx2"
    and cl: "map_of cols ''CREDIT_LIMIT'' = Some (NumCol cl)"
    and mp: "map_of cols ''MINIMUM_PAYMENTS'' = Some (NumCol mp)"
  shows "columns (generated n cols idx1 idx2 cl mp) = ''CUST_ID'' # numeric_columns"
    and "nrows (generated n cols idx1 idx2 cl mp) = n"
    and "df_num (generated n cols idx1 idx2 cl mp) ''CREDIT_LIMIT'' = Inr (set_nan idx1 cl)"
    and "df_num (generated n cols idx1 idx2 cl mp) ''MINIMUM_PAYMENTS'' = Inr (set_nan idx2 mp)"
    and "length cl = n" and "length mp = n"
    and "length (filter isna (set_nan idx1 cl)) = length idx1"
    and "length (filter isna (set_nan idx2 mp)) = length idx2"
    and "{i. i < n \<and> isna (set_nan idx1 cl ! i)} = set idx1"
    and "{i. i < n \<and> isna (set_nan idx2 mp ! i)} = set idx2"
    and "\<forall>(c, col) \<in> set (generated n cols idx1 idx2 cl mp).
           col_len col = n \<and>
           (c \<notin> set imputed_columns \<longrightarrow> col_isna_count col = 0) \<and>
           (c \<noteq> ''CUST_ID'' \<longrightarrow> numeric_column col)"
proof -
  define data where "data = (''CUST_ID'', ObjCol (map Some (map cust_id [1..<n + 1]))) # cols"
  let ?T = "generated n cols idx1 idx2 cl mp"
  have T: "?T = df_set ''MINIMUM_PAYMENTS'' (set_nan idx2 mp)
      (df_set ''CREDIT_LIMIT'' (set_nan idx1 cl) data)"
    by (simp only: generated_def data_def)
  have entry: "\<exists>xs. col = NumCol xs \<and> length xs = n \<and> (\<forall>x \<in> set xs. is_finite x)"
    if "(c, col) \<in> set cols" for c col
    using drawn_entry[OF contract, of c col n g1] that cols by simp
  have keys: "map fst cols = numeric_columns"
    using draw_columns_keys[of R column_specs n g1] cols column_specs_keys by simp
  have dcols: "columns data = ''CUST_ID'' # numeric_columns"
    by (simp add: columns_def data_def keys)
  have in1: "''CREDIT_LIMIT'' \<in> set (columns data)" "''MINIMUM_PAYMENTS'' \<in> set (columns data)"
    unfolding dcols by (simp_all add: numeric_columns_def)
  show c: "columns ?T = ''CUST_ID'' # numeric_columns"
    unfolding T using in1 by (simp add: columns_df_set dcols)
  from map_of_SomeD[OF cl] entry have fcl: "length cl = n" "\<forall>x \<in> set cl. is_finite x"
    by fastforce+
  from map_of_SomeD[OF mp] entry have fmp: "length mp = n" "\<forall>x \<in> set mp. is_finite x"
    by fastforce+
  show "length cl = n" "length mp = n" by (rule fcl(1), rule fmp(1))
  have ne: "data \<noteq> []" and rows: "nrows data = n" by (simp_all add: data_def)
  show "nrows ?T = n"
    unfolding T using ne rows fcl(1) fmp(1) by (simp add: nrows_df_set)
  have look: "map_of ?T k =
      (if k = ''MINIMUM_PAYMENTS'' then Some (NumCol (set_nan idx2 mp))
       else if k = ''CREDIT_LIMIT'' then Some (NumCol (set_nan idx1 cl))
       else map_of data k)" for k
    unfolding T by (simp add: map_of_df_set)
  show "df_num ?T ''CREDIT_LIMIT'' = Inr (set_nan idx1 cl)"
    "df_num ?T ''MINIMUM_PAYMENTS'' = Inr (set_nan idx2 mp)"
    by (simp_all add: df_num_def df_get_def look)
  from i1(1) fcl(1) have r1: "\<forall>i \<in> set idx1. i < length cl" by simp
  from i2(1) fmp(1) have r2: "\<forall>i \<in> set idx2. i < length mp" by simp
  show n1: "length (filter isna (set_nan idx1 cl)) = length idx1"
    by (rule set_nan_count[OF fcl(2) r1 i1(2)])
  show n2: "length (filter isna (set_nan idx2 mp)) = length idx2"
    by (rule set_nan_count[OF fmp(2) r2 i2(2)])
  show "{i. i < n \<and> isna (set_nan idx1 cl ! i)} = set idx1"
    using set_nan_positions[OF fcl(2) r1] fcl(1) by simp
  show "{i. i < n \<and> isna (set_nan idx2 mp ! i)} = set idx2"
    using set_nan_positions[OF fmp(2) r2] fmp(1) by simp
  have dist: "distinct (map fst ?T)"
    using c distinct_numeric_columns by (simp add: columns_def)
  show "\<forall>(c, col) \<in> set ?T.
           col_len col = n \<and>
           (c \<notin> set imputed_columns \<longrightarrow> col_isna_count col = 0) \<and>
           (c \<noteq> ''CUST_ID'' \<longrightarrow> numeric_column col)"
  proof (intro ballI, clarify)
    fix k col
    assume "(k, col) \<in> set ?T"
    with dist have l: "map_of ?T k = Some col" by simp
    consider "k = ''MINIMUM_PAYMENTS''" "col = NumCol (set_nan idx2 mp)"
      | "k = ''CREDIT_LIMIT''" "col = NumCol (set_nan idx1 cl)"
      | "k \<noteq> ''MINIMUM_PAYMENTS''" "k \<noteq> ''CREDIT_LIMIT''" "map_of data k = Some col"
      using l unfolding look by (auto split: if_splits)
    then show "col_len col = n \<and>
           (k \<notin> set imputed_columns \<longrightarrow> col_isna_count col = 0) \<and>
           (k \<noteq> ''CUST_ID'' \<longrightarrow> numeric_column col)"
    proof cases
      case 1
      with fmp set_nan_finite_or_nan[OF fmp(2), of idx2] show ?thesis
        by (simp add: imputed_columns_def list_all_iff)
    next
      case 2
      with fcl set_nan_finite_or_nan[OF fcl(2), of idx1] show ?thesis
        by (simp add: imputed_columns_def list_all_iff)
    next
      case 3
      from map_of_SomeD[OF 3(3)] have "(k, col) \<in> set data" .
      then consider "k = ''CUST_ID''" "col = ObjCol (map Some (map cust_id [1..<n + 1]))"
        | "(k, col) \<in> set cols"
        by (auto simp: data_def)
      then show ?thesis
      proof cases
        case 1
        then show ?thesis by (simp add: filter_empty_conv)
      next
        case 2
        from entry[OF this] obtain xs where
          xs: "col = NumCol xs" "length xs = n" "\<forall>x \<in> set xs. is_finite x" by blast
        then have "filter isna xs = []"
          by (auto simp: filter_empty_conv isna_def)
        with xs show ?thesis by (simp add: list_all_iff)
      qed
    qed
  qed
qed

lemma example_rng_sel:
  "rng_seed example_rng s g = (if 0 \<le> s \<and> s < 2 ^ 32 then Some (nat s) else None)"
  "rng_exponential example_rng sc n g = (map (\<lambda>i. sc * real ((g + i) mod 7)) [0..<n], g + n)"
  "rng_uniform example_rng lo hi n g = (map (\<lambda>i. lo + (hi - lo) * real ((g + i) mod 10) / 10) [0..<n], g + n)"
  "rng_randint example_rng l h n g = (map (\<lambda>i. l + int ((g + i) mod nat (h - l))) [0..<n], g + n)"
  "rng_choice example_rng a n g = (map (\<lambda>i. a ! ((g + i) mod length a)) [0..<n], g + n)"
  "rng_sample example_rng pop k g = (if k \<le> pop then Some (take k (rotate g [0..<pop])) else None, g + k)"
  unfolding example_rng_def by (simp_all only: np_random.simps)

lemma example_rng_contract: "numpy_contract example_rng"
proof -
  have a: "\<forall>s g g'. rng_seed example_rng s g = rng_seed example_rng s g'"
    by (simp add: example_rng_sel)
  have b: "\<forall>s g. rng_seed example_rng s g \<noteq> None \<longleftrightarrow> 0 \<le> s \<and> s < 2 ^ 32"
    by (simp add: example_rng_sel)
  have c: "\<forall>sc n g. length (fst (rng_exponential example_rng sc n g)) = n"
    by (simp add: example_rng_sel)
  have d: "\<forall>lo hi n g. length (fst (rng_uniform example_rng lo hi n g)) = n"
    by (simp add: example_rng_sel)
  have e: "\<forall>lo hi n g. lo < hi \<longrightarrow>
        length (fst (rng_randint example_rng lo hi n g)) = n \<and>
        (\<forall>v \<in> set (fst (rng_randint example_rng lo hi n g)). lo \<le> v \<and> v < hi)"
  proof (intro allI impI)
    fix lo hi :: int and n g :: nat
    assume "lo < hi"
    then have "0 < nat (hi - lo)" by simp
    then have "lo + int (m mod nat (hi - lo)) < hi" for m
      using mod_less_divisor[of "nat (hi - lo)" m] by linarith
    then show "length (fst (rng_randint example_rng lo hi n g)) = n \<and>
        (\<forall>v \<in> set (fst (rng_randint example_rng lo hi n g)). lo \<le> v \<and> v < hi)"
      by (auto simp: example_rng_sel)
  qed
  have f: "\<forall>a n g. a \<noteq> [] \<longrightarrow>
        length (fst (rng_choice example_rng a n g)) = n \<and>
        set (fst (rng_choice example_rng a n g)) \<subseteq> set a"
    by (auto simp: example_rng_sel)
  have g: "\<forall>pop k g.
        case fst (rng_sample example_rng pop k g) of
          None \<Rightarrow> pop < k
        | Some idx \<Rightarrow> k \<le> pop \<and> length idx = k \<and> distinct idx \<and> (\<forall>i \<in> set idx. i < pop)"
  proof (intro allI)
    fix pop k g :: nat
    let ?idx = "take k (rotate g [0..<pop])"
    have "set ?idx \<subseteq> set (rotate g [0..<pop])" by (rule set_take_subset)
    then have mem: "\<forall>i \<in> set ?idx. i < pop" by auto
    have dist: "distinct ?idx" by (intro distinct_take) simp
    show "case fst (rng_sample example_rng pop k g) of
          None \<Rightarrow> pop < k
        | Some idx \<Rightarrow> k \<le> pop \<and> length idx = k \<and> distinct idx \<and> (\<forall>i \<in> set idx. i < pop)"
    proof (cases "k \<le> pop")
      case True
      then have "fst (rng_sample example_rng pop k g) = Some ?idx"
        by (simp only: example_rng_sel if_True fst_conv)
      moreover from True have "length ?idx = k" by simp
      ultimately show ?thesis using True mem dist by (simp only: option.case simp_thms)
    next
      case False
      then have "fst (rng_sample example_rng pop k g) = None"
        by (simp only: example_rng_sel if_False fst_conv)
      with False show ?thesis by simp
    qed
  qed
  show ?thesis
    unfolding numpy_contract_def
    by (rule conjI[OF a conjI[OF b conjI[OF c conjI[OF d conjI[OF e conjI[OF f g]]]]]])
qed

subsection \<open>Missing values and determinism\<close>

text \<open>
  C4. For every \<open>n_samples\<close> of at least 313 and every seed, the call returns a
  table exactly when the seed is one numpy accepts, and the returned table has exactly
  one missing value in CREDIT_LIMIT and exactly 313 in MINIMUM_PAYMENTS, at that many
  distinct row positions, and none in any other column.
\<close>

theorem generated_missing_counts:
  assumes "numpy_contract R" and "313 \<le> ns"
  shows "(0 \<le> seed \<and> seed < 2 ^ 32 \<longrightarrow>
            (\<exists>df g. generate_credit_card_data R ns seed g0 = Inr (df, g))) \<and>
         (\<forall>df g. generate_credit_card_data R ns seed g0 = Inr (df, g) \<longrightarrow>
            nrows df = nat ns \<and>
            (\<exists>cl mp. df_num df ''CREDIT_LIMIT'' = Inr cl \<and>
               df_num df ''MINIMUM_PAYMENTS'' = Inr mp \<and>
               col_isna_count (NumCol cl) = 1 \<and> col_isna_count (NumCol mp) = 313 \<and>
               card {i. i < nat ns \<and> isna (cl ! i)} = 1 \<and>
               card {i. i < nat ns \<and> isna (mp ! i)} = 313) \<and>
            (\<forall>(c, col) \<in> set df. c \<notin> set imputed_columns \<longrightarrow> col_isna_count col = 0))"
proof (intro conjI impI allI)
  assume "0 \<le> seed \<and> seed < 2 ^ 32"
  with contract_seed_valid[OF assms(1), of seed g0] obtain g1 where
    "rng_seed R seed g0 = Some g1" by auto
  from generate_explicit[OF assms this] obtain df g where
    "generate_credit_card_data R ns seed g0 = Inr (df, g)" .
  then show "\<exists>df g. generate_credit_card_data R ns seed g0 = Inr (df, g)" by (intro exI)
next
  fix df g
  assume run: "generate_credit_card_data R ns seed g0 = Inr (df, g)"
  then obtain g1 where seeded: "rng_seed R seed g0 = Some g1"
    by (cases "rng_seed R seed g0") (simp_all add: generate_credit_card_data_def)
  from generate_explicit[OF assms seeded] obtain cols g2 idx1 g3 idx2 g4 cl mp where
    e: "draw_columns R column_specs (nat ns) g1 = (cols, g2)"
    "rng_sample R (nat ns) 1 g2 = (Some idx1, g3)"
    "rng_sample R (nat ns) 313 g3 = (Some idx2, g4)"
    "map_of cols ''CREDIT_LIMIT'' = Some (NumCol cl)"
    "map_of cols ''MINIMUM_PAYMENTS'' = Some (NumCol mp)"
    "generate_credit_card_data R ns seed g0 =
       Inr (generated (nat ns) cols idx1 idx2 cl mp, g4)" .
  from run e(6) have df: "df = generated (nat ns) cols idx1 idx2 cl mp" by simp
  from contract_sample_Some[OF assms(1) e(2)] have
    i1: "\<forall>i \<in> set idx1. i < nat ns" "distinct idx1" and l1: "length idx1 = 1" by simp_all
  from contract_sample_Some[OF assms(1) e(3)] have
    i2: "\<forall>i \<in> set idx2. i < nat ns" "distinct idx2" and l2: "length idx2 = 313" by simp_all
  note t = generated_table[OF assms(1) e(1) i1 i2 e(4) e(5)]
  show "nrows df = nat ns" unfolding df by (rule t(2))
  have "card (set idx1) = 1" "card (set idx2) = 313"
    using distinct_card[OF i1(2)] distinct_card[OF i2(2)] l1 l2 by simp_all
  with t(3,4,7,8,9,10) l1 l2
  show "\<exists>cl mp. df_num df ''CREDIT_LIMIT'' = Inr cl \<and>
               df_num df ''MINIMUM_PAYMENTS'' = Inr mp \<and>
               col_isna_count (NumCol cl) = 1 \<and> col_isna_count (NumCol mp) = 313 \<and>
               card {i. i < nat ns \<and> isna (cl ! i)} = 1 \<and>
               card {i. i < nat ns \<and> isna (mp ! i)} = 313"
    unfolding df by simp
  from t(11) show "\<forall>(c, col) \<in> set df. c \<notin> set imputed_columns \<longrightarrow> col_isna_count col = 0"
    unfolding df by blast
qed

theorem generated_missing_counts_witness:
  "numpy_contract example_rng \<and> (313 :: int) \<le> 313 \<and>
   0 \<le> (42 :: int) \<and> (42 :: int) < 2 ^ 32 \<and>
   (\<exists>df g. generate_credit_card_data example_rng 313 42 0 = Inr (df, g) \<and>
      nrows df = nat 313 \<and>
      (\<exists>cl mp. df_num df ''CREDIT_LIMIT'' = Inr cl \<and>
         df_num df ''MINIMUM_PAYMENTS'' = Inr mp \<and>
         col_isna_count (NumCol cl) = 1 \<and> col_isna_count (NumCol mp) = 313 \<and>
         card {i. i < nat 313 \<and> isna (cl ! i)} = 1 \<and>
         card {i. i < nat 313 \<and> isna (mp ! i)} = 313) \<and>
      (\<forall>(c, col) \<in> set df. c \<notin> set imputed_columns \<longrightarrow> col_isna_count col = 0))"
proof -
  have n: "(313 :: int) \<le> 313" by simp
  have v: "0 \<le> (42 :: int) \<and> (42 :: int) < 2 ^ 32" by simp
  note t = generated_missing_counts[OF example_rng_contract n, of 42 0]
  from t[THEN conjunct1, THEN mp, OF v] obtain df g where
    run: "generate_credit_card_data example_rng 313 42 0 = Inr (df, g)" by (elim exE)
  note p = t[THEN conjunct2, THEN spec, THEN spec, THEN mp, OF run]
  have "\<exists>df g. generate_credit_card_data example_rng 313 42 0 = Inr (df, g) \<and>
      nrows df = nat 313 \<and>
      (\<exists>cl mp. df_num df ''CREDIT_LIMIT'' = Inr cl \<and>
         df_num df ''MINIMUM_PAYMENTS'' = Inr mp \<and>
         col_isna_count (NumCol cl) = 1 \<and> col_isna_count (NumCol mp) = 313 \<and>
         card {i. i < nat 313 \<and> isna (cl ! i)} = 1 \<and>
         card {i. i < nat 313 \<and> isna (mp ! i)} = 313) \<and>
      (\<forall>(c, col) \<in> set df. c \<notin> set imputed_columns \<longrightarrow> col_isna_count col = 0)"
    by (rule exI[of _ df], rule exI[of _ g], rule conjI[OF run p])
  with example_rng_contract n v show ?thesis by (intro conjI) simp_all
qed

text \<open>
  C5. The generator is deterministic: whatever state the global generator is in when
  it is called, the same \<open>n_samples\<close> and seed give the same result, table and
  missing positions included; so \<open>main\<close> with the same version selector leaves the
  same raw file.
\<close>

theorem generator_deterministic:
  assumes "numpy_contract R"
  shows "generate_credit_card_data R ns seed g0 = generate_credit_card_data R ns seed g0' \<and>
         main R a g0 fs = main R a g0' fs"
proof -
  have s: "rng_seed R s g0 = rng_seed R s g0'" for s
    by (rule contract_seed_reset[OF assms])
  have g: "generate_credit_card_data R k s g0 = generate_credit_card_data R k s g0'" for k s
    unfolding generate_credit_card_data_def by (simp only: s)
  show ?thesis
    unfolding main_def by (simp only: g)
qed

theorem generator_deterministic_witness:
  "numpy_contract example_rng \<and>
   generate_credit_card_data example_rng 8950 42 0 = generate_credit_card_data example_rng 8950 42 7 \<and>
   main example_rng Omitted 0 Map.empty = main example_rng Omitted 7 Map.empty"
  using generator_deterministic[OF example_rng_contract, of 8950 42 0 7 Omitted Map.empty]
    example_rng_contract
  by (intro conjI) simp_all

section \<open>Properties of the trainer\<close>

lemma example_sklearn_sel:
  "scaler_fit_transform example_sklearn df =
     (if finite_table df \<and> 0 < nrows df
      then Inr (replicate (nrows df) (replicate (ncols df) (Fin 0))) else Inl ValueError)"
  "pca_fit_transform example_sklearn k rs X =
     (if finite_matrix X \<and> k \<le> length X \<and> k \<le> n_features X
      then Inr (map (take k) X, replicate k (1 / real k)) else Inl ValueError)"
  "forest_fit_predict example_sklearn t c rs X =
     (if finite_matrix X \<and> 0 < length X
      then Inr ((), map (\<lambda>i. if i mod 20 = 0 then - 1 else 1) [0..<length X])
      else Inl ValueError)"
  "decision_function example_sklearn m X =
     map (\<lambda>i. if i mod 20 = 0 then - 1 / 10 else 1 / 10) [0..<length X]"
  unfolding example_sklearn_def by (simp_all only: sklearn.simps)

lemma example_sklearn_contract: "sklearn_contract example_sklearn"
proof -
  have a: "\<forall>df. finite_table df \<and> wf_table df \<and> 0 < nrows df \<longrightarrow>
        (\<exists>X. scaler_fit_transform example_sklearn df = Inr X)"
    by (simp add: example_sklearn_sel)
  have b: "\<forall>df X. scaler_fit_transform example_sklearn df = Inr X \<longrightarrow>
        length X = nrows df \<and> n_features X = ncols df \<and>
        (finite_table df \<longrightarrow> finite_matrix X)"
  proof (intro allI impI)
    fix df X
    assume "scaler_fit_transform example_sklearn df = Inr X"
    then have p: "0 < nrows df" and X: "X = replicate (nrows df) (replicate (ncols df) (Fin 0))"
      by (simp_all add: example_sklearn_sel split: if_splits)
    from p obtain k where "nrows df = Suc k" by (cases "nrows df") auto
    with X show "length X = nrows df \<and> n_features X = ncols df \<and>
        (finite_table df \<longrightarrow> finite_matrix X)"
      by (simp add: n_features_def finite_matrix_def list_all_iff)
  qed
  have c: "\<forall>k rs X. finite_matrix X \<and> k \<le> length X \<and> k \<le> n_features X \<longrightarrow>
        (\<exists>Y evr. pca_fit_transform example_sklearn k rs X = Inr (Y, evr))"
    by (simp add: example_sklearn_sel)
  have d: "\<forall>k rs X Y evr. pca_fit_transform example_sklearn k rs X = Inr (Y, evr) \<longrightarrow>
        length Y = length X \<and> length evr = k \<and> (finite_matrix X \<longrightarrow> finite_matrix Y)"
  proof (intro allI impI)
    fix k rs X Y evr
    assume "pca_fit_transform example_sklearn k rs X = Inr (Y, evr)"
    then have Y: "Y = map (take k) X" "evr = replicate k (1 / real k)"
      by (simp_all add: example_sklearn_sel split: if_splits)
    have "finite_matrix X \<longrightarrow> finite_matrix (map (take k) X)"
      by (auto simp: finite_matrix_def list_all_iff dest: in_set_takeD)
    with Y show "length Y = length X \<and> length evr = k \<and> (finite_matrix X \<longrightarrow> finite_matrix Y)"
      by simp
  qed
  have e: "\<forall>t c rs X. finite_matrix X \<and> 0 < length X \<longrightarrow>
        (\<exists>m ls. forest_fit_predict example_sklearn t c rs X = Inr (m, ls))"
    by (simp add: example_sklearn_sel)
  have f: "\<forall>t c rs X m ls. forest_fit_predict example_sklearn t c rs X = Inr (m, ls) \<longrightarrow>
        length ls = length X \<and> length (decision_function example_sklearn m X) = length X \<and>
        (\<forall>i < length X.
           (ls ! i = 1 \<or> ls ! i = - 1) \<and>
           (ls ! i = - 1 \<longleftrightarrow> decision_function example_sklearn m X ! i < 0))"
  proof (intro allI impI)
    fix t c rs X m ls
    assume "forest_fit_predict example_sklearn t c rs X = Inr (m, ls)"
    then have ls: "ls = map (\<lambda>i. if i mod 20 = 0 then - 1 else 1) [0..<length X]"
      by (simp add: example_sklearn_sel split: if_splits)
    show "length ls = length X \<and> length (decision_function example_sklearn m X) = length X \<and>
        (\<forall>i < length X.
           (ls ! i = 1 \<or> ls ! i = - 1) \<and>
           (ls ! i = - 1 \<longleftrightarrow> decision_function example_sklearn m X ! i < 0))"
      unfolding ls by (simp add: example_sklearn_sel)
  qed
  show ?thesis
    unfolding sklearn_contract_def
    by (rule conjI[OF a conjI[OF b conjI[OF c conjI[OF d conjI[OF e f]]]]])
qed

lemma sklearn_parts:
  assumes "sklearn_contract sk"
  shows scaler_succeeds: "\<And>df. finite_table df \<Longrightarrow> wf_table df \<Longrightarrow> 0 < nrows df \<Longrightarrow>
        \<exists>X. scaler_fit_transform sk df = Inr X"
    and scaler_shape: "\<And>df X. scaler_fit_transform sk df = Inr X \<Longrightarrow>
        length X = nrows df \<and> n_features X = ncols df \<and> (finite_table df \<longrightarrow> finite_matrix X)"
    and pca_succeeds: "\<And>k rs X. finite_matrix X \<Longrightarrow> k \<le> length X \<Longrightarrow> k \<le> n_features X \<Longrightarrow>
        \<exists>Y evr. pca_fit_transform sk k rs X = Inr (Y, evr)"
    and pca_shape: "\<And>k rs X Y evr. pca_fit_transform sk k rs X = Inr (Y, evr) \<Longrightarrow>
        length Y = length X \<and> length evr = k \<and> (finite_matrix X \<longrightarrow> finite_matrix Y)"
    and forest_succeeds: "\<And>t c rs X. finite_matrix X \<Longrightarrow> 0 < length X \<Longrightarrow>
        \<exists>m ls. forest_fit_predict sk t c rs X = Inr (m, ls)"
    and forest_labels: "\<And>t c rs X m ls. forest_fit_predict sk t c rs X = Inr (m, ls) \<Longrightarrow>
        length ls = length X \<and> length (decision_function sk m X) = length X \<and>
        (\<forall>i < length X.
           (ls ! i = 1 \<or> ls ! i = - 1) \<and>
           (ls ! i = - 1 \<longleftrightarrow> decision_function sk m X ! i < 0))"
proof -
  note all = assms[unfolded sklearn_contract_def]
  note a = all[THEN conjunct1]
  note b = all[THEN conjunct2, THEN conjunct1]
  note c = all[THEN conjunct2, THEN conjunct2, THEN conjunct1]
  note d = all[THEN conjunct2, THEN conjunct2, THEN conjunct2, THEN conjunct1]
  note e = all[THEN conjunct2, THEN conjunct2, THEN conjunct2, THEN conjunct2, THEN conjunct1]
  note f = all[THEN conjunct2, THEN conjunct2, THEN conjunct2, THEN conjunct2, THEN conjunct2]
  show "\<And>df. finite_table df \<Longrightarrow> wf_table df \<Longrightarrow> 0 < nrows df \<Longrightarrow>
        \<exists>X. scaler_fit_transform sk df = Inr X"
    using a by simp
  show "\<And>df X. scaler_fit_transform sk df = Inr X \<Longrightarrow>
        length X = nrows df \<and> n_features X = ncols df \<and> (finite_table df \<longrightarrow> finite_matrix X)"
    by (rule b[rule_format])
  show "\<And>k rs X. finite_matrix X \<Longrightarrow> k \<le> length X \<Longrightarrow> k \<le> n_features X \<Longrightarrow>
        \<exists>Y evr. pca_fit_transform sk k rs X = Inr (Y, evr)"
    using c by simp
  show "\<And>k rs X Y evr. pca_fit_transform sk k rs X = Inr (Y, evr) \<Longrightarrow>
        length Y = length X \<and> length evr = k \<and> (finite_matrix X \<longrightarrow> finite_matrix Y)"
    by (rule d[rule_format])
  show "\<And>t c rs X. finite_matrix X \<Longrightarrow> 0 < length X \<Longrightarrow>
        \<exists>m ls. forest_fit_predict sk t c rs X = Inr (m, ls)"
    using e by simp
  show "\<And>t c rs X m ls. forest_fit_predict sk t c rs X = Inr (m, ls) \<Longrightarrow>
        length ls = length X \<and> length (decision_function sk m X) = length X \<and>
        (\<forall>i < length X.
           (ls ! i = 1 \<or> ls ! i = - 1) \<and>
           (ls ! i = - 1 \<longleftrightarrow> decision_function sk m X ! i < 0))"
    by (rule f[rule_format])
qed

lemma length_cumsum_from [simp]: "length (cumsum_from a xs) = length xs"
  by (induction xs arbitrary: a) auto

lemma length_cumsum [simp]: "length (cumsum xs) = length xs"
  by (simp add: cumsum_def)

lemma fit_cases:
  assumes "fit sk df = Inr ft"
  obtains X_scaled X_pca evr X_2d evr2 m ls where
    "scaler_fit_transform sk df = Inr X_scaled"
    "pca_fit_transform sk 10 42 X_scaled = Inr (X_pca, evr)"
    "pca_fit_transform sk 2 42 X_scaled = Inr (X_2d, evr2)"
    "forest_fit_predict sk 200 CONTAMINATION 42 X_pca = Inr (m, ls)"
    "length (cumsum evr) = 10"
    "ft = \<lparr>explained = cumsum evr, labels = ls, scores = decision_function sk m X_pca\<rparr>"
  using assms unfolding fit_def
  by (auto split: sum.splits prod.splits if_splits)

lemma fit_facts:
  assumes contract: "sklearn_contract sk" and fit: "fit sk df = Inr ft"
  shows "length (labels ft) = nrows df" and "length (scores ft) = nrows df"
    and "length (explained ft) = 10"
    and "\<forall>i < nrows df. (labels ft ! i = 1 \<or> labels ft ! i = - 1) \<and>
           (labels ft ! i = - 1 \<longleftrightarrow> scores ft ! i < 0)"
proof -
  from fit obtain X_scaled X_pca evr X_2d evr2 m ls where
    s: "scaler_fit_transform sk df = Inr X_scaled"
    and p: "pca_fit_transform sk 10 42 X_scaled = Inr (X_pca, evr)"
    and f: "forest_fit_predict sk 200 CONTAMINATION 42 X_pca = Inr (m, ls)"
    and e: "length (cumsum evr) = 10"
    and ft: "ft = \<lparr>explained = cumsum evr, labels = ls, scores = decision_function sk m X_pca\<rparr>"
    by (rule fit_cases)
  from scaler_shape[OF contract s] have "length X_scaled = nrows df" by simp
  with pca_shape[OF contract p] have n: "length X_pca = nrows df" by simp
  note l = forest_labels[OF contract f]
  from l n ft show "length (labels ft) = nrows df" "length (scores ft) = nrows df" by simp_all
  from e ft show "length (explained ft) = 10" by simp
  from l n ft show "\<forall>i < nrows df. (labels ft ! i = 1 \<or> labels ft ! i = - 1) \<and>
           (labels ft ! i = - 1 \<longleftrightarrow> scores ft ! i < 0)" by auto
qed

lemma sum_anomaly_flags:
  "sum_list (anomaly_flags ls) = int (length (filter (\<lambda>l. l = - 1) ls))"
  by (induction ls) (auto simp: anomaly_flags_def)

lemma length_anomaly_flags [simp]: "length (anomaly_flags ls) = length ls"
  by (simp add: anomaly_flags_def)

lemma count_agree:
  assumes "length xs = length ys" and "\<forall>i < length xs. P (xs ! i) \<longleftrightarrow> Q (ys ! i)"
  shows "length (filter P xs) = length (filter Q ys)"
proof -
  have "{i. i < length xs \<and> P (xs ! i)} = {i. i < length ys \<and> Q (ys ! i)}"
    using assms by auto
  then show ?thesis by (simp only: length_filter_conv_card)
qed

lemma rint_close: "\<bar>of_int (rint x) - x\<bar> \<le> 1 / 2"
proof -
  define f where "f = (of_int \<lfloor>x\<rfloor> :: real)"
  have f: "f \<le> x" "x < f + 1" unfolding f_def by linarith+
  have r: "of_int (rint x) = (if x - f < 1 / 2 then f else if 1 / 2 < x - f then f + 1
      else if even \<lfloor>x\<rfloor> then f else f + 1)"
    unfolding rint_def Let_def f_def by simp
  consider "x - f < 1 / 2" | "1 / 2 < x - f" | "x - f = 1 / 2" by linarith
  then show ?thesis
  proof cases
    case 1
    with r have "of_int (rint x) = f" by simp
    with f 1 show ?thesis by linarith
  next
    case 2
    with r have "of_int (rint x) = f + 1" by simp
    with f 2 show ?thesis by linarith
  next
    case 3
    with r have "of_int (rint x) = f \<or> of_int (rint x) = f + 1" by simp
    with f 3 show ?thesis by linarith
  qed
qed

lemma np_round_close: "\<bar>np_round d x - x\<bar> \<le> 1 / (2 * 10 ^ d)"
proof -
  have pos: "(0 :: real) < 10 ^ d" by simp
  have "np_round d x - x = (of_int (rint (x * 10 ^ d)) - x * 10 ^ d) / 10 ^ d"
    by (simp add: np_round_def diff_divide_distrib)
  then have "\<bar>np_round d x - x\<bar> = \<bar>of_int (rint (x * 10 ^ d)) - x * 10 ^ d\<bar> / 10 ^ d"
    by simp
  also have "\<dots> \<le> (1 / 2) / 10 ^ d"
    by (rule divide_right_mono[OF rint_close]) simp
  finally show ?thesis by simp
qed

lemma train_cases:
  assumes "train sk fs = Inr m"
  obtains df ft where "fs PROCESSED_PATH = Some df" "fit sk df = Inr ft"
    "make_metrics df ft = Inr m"
  using assms unfolding train_def read_csv_def
  by (auto split: option.splits sum.splits)

lemma make_metrics_fields:
  assumes "make_metrics df ft = Inr m"
  shows "scores ft \<noteq> []" and "n_samples m = nrows df" and "contamination m = CONTAMINATION"
    and "n_anomalies m = sum_list (anomaly_flags (labels ft))"
    and "n_normal m = int (length (labels ft)) - sum_list (anomaly_flags (labels ft))"
    and "anomaly_percentage m = round_cell 2 (anomaly_pct (anomaly_flags (labels ft)))"
  using assms unfolding make_metrics_def Let_def
  by (auto split: if_splits)

lemma example_train: "train example_sklearn example_files = Inr example_metrics"
  by code_simp

text \<open>
  C6. In the metrics \<open>train\<close> writes, \<open>n_anomalies\<close> is the number of training rows
  whose decision-function score is below zero, which is the number of rows labelled -1,
  and \<open>anomaly_percentage\<close> is \<open>n_anomalies / n_samples * 100\<close> rounded to two
  decimals, hence within 0.005 of it.
\<close>

theorem anomaly_metrics:
  assumes "sklearn_contract sk" and "train sk fs = Inr m"
  shows "\<exists>df ft. fs PROCESSED_PATH = Some df \<and> fit sk df = Inr ft \<and>
     length (scores ft) = n_samples m \<and> length (labels ft) = n_samples m \<and>
     0 < n_samples m \<and>
     n_anomalies m = int (length (filter (\<lambda>s. s < 0) (scores ft))) \<and>
     n_anomalies m = int (length (filter (\<lambda>l. l = - 1) (labels ft))) \<and>
     anomaly_percentage m =
       Fin (np_round 2 (real_of_int (n_anomalies m) / real (n_samples m) * 100)) \<and>
     \<bar>np_round 2 (real_of_int (n_anomalies m) / real (n_samples m) * 100) -
        real_of_int (n_anomalies m) / real (n_samples m) * 100\<bar> \<le> 1 / 200"
proof -
  from assms(2) obtain df ft where
    df: "fs PROCESSED_PATH = Some df" and ft: "fit sk df = Inr ft"
    and mm: "make_metrics df ft = Inr m"
    by (rule train_cases)
  note f = fit_facts[OF assms(1) ft]
  note k = make_metrics_fields[OF mm]
  from k(1) f(2) have pos: "0 < nrows df" by (cases "scores ft") auto
  have n: "n_samples m = nrows df" by (rule k(2))
  have a1: "n_anomalies m = int (length (filter (\<lambda>l. l = - 1) (labels ft)))"
    using k(4) by (simp only: sum_anomaly_flags)
  have "length (filter (\<lambda>l. l = - 1) (labels ft)) = length (filter (\<lambda>s. s < 0) (scores ft))"
    by (rule count_agree) (use f in simp_all)
  with a1 have a2: "n_anomalies m = int (length (filter (\<lambda>s. s < 0) (scores ft)))" by simp
  have "anomaly_pct (anomaly_flags (labels ft)) =
      Fin (real_of_int (n_anomalies m) / real (n_samples m) * 100)"
    using pos f(1) k(4) n by (simp add: anomaly_pct_def)
  with k(6) have p: "anomaly_percentage m =
      Fin (np_round 2 (real_of_int (n_anomalies m) / real (n_samples m) * 100))"
    by (simp add: round_cell_def)
  have c: "\<bar>np_round 2 (real_of_int (n_anomalies m) / real (n_samples m) * 100) -
        real_of_int (n_anomalies m) / real (n_samples m) * 100\<bar> \<le> 1 / 200"
    using np_round_close[of 2 "real_of_int (n_anomalies m) / real (n_samples m) * 100"] by simp
  from f(1,2) n pos have l: "length (scores ft) = n_samples m" "length (labels ft) = n_samples m"
    "0 < n_samples m" by simp_all
  from df ft l a2 a1 p c show ?thesis by blast
qed

theorem anomaly_metrics_witness:
  "sklearn_contract example_sklearn \<and>
   train example_sklearn example_files = Inr example_metrics \<and>
   (\<exists>df ft. example_files PROCESSED_PATH = Some df \<and> fit example_sklearn df = Inr ft \<and>
     length (scores ft) = n_samples example_metrics \<and>
     length (labels ft) = n_samples example_metrics \<and>
     0 < n_samples example_metrics \<and>
     n_anomalies example_metrics = int (length (filter (\<lambda>s. s < 0) (scores ft))) \<and>
     n_anomalies example_metrics = int (length (filter (\<lambda>l. l = - 1) (labels ft))) \<and>
     anomaly_percentage example_metrics =
       Fin (np_round 2 (real_of_int (n_anomalies example_metrics) /
         real (n_samples example_metrics) * 100)) \<and>
     \<bar>np_round 2 (real_of_int (n_anomalies example_metrics) /
          real (n_samples example_metrics) * 100) -
        real_of_int (n_anomalies example_metrics) / real (n_samples example_metrics) * 100\<bar>
       \<le> 1 / 200)"
  by (rule conjI[OF example_sklearn_contract conjI[OF example_train
        anomaly_metrics[OF example_sklearn_contract example_train]]])

text \<open>
  C10. In the metrics \<open>train\<close> writes, the normal count and the anomaly count add
  up to the sample count.
\<close>

theorem counts_partition:
  assumes "sklearn_contract sk" and "train sk fs = Inr m"
  shows "n_normal m + n_anomalies m = int (n_samples m)"
proof -
  from assms(2) obtain df ft where
    ft: "fit sk df = Inr ft" and mm: "make_metrics df ft = Inr m"
    by (rule train_cases)
  note f = fit_facts[OF assms(1) ft]
  note k = make_metrics_fields[OF mm]
  from k(2,4,5) f(1) show ?thesis by simp
qed

theorem counts_partition_witness:
  "sklearn_contract example_sklearn \<and>
   train example_sklearn example_files = Inr example_metrics \<and>
   n_normal example_metrics + n_anomalies example_metrics = int (n_samples example_metrics)"
  by (rule conjI[OF example_sklearn_contract conjI[OF example_train
        counts_partition[OF example_sklearn_contract example_train]]])

section \<open>Properties of the pipeline\<close>

subsection \<open>What the generator hands over\<close>

lemma credit_tiers_low: "v \<in> set credit_tiers \<Longrightarrow> 500 \<le> v \<and> v \<le> 20000"
  unfolding credit_tiers_def by auto

lemma column_specs_lookup:
  "map_of column_specs ''CREDIT_LIMIT'' = Some (Choice credit_tiers)"
  "map_of column_specs ''TENURE'' = Some (Randint 6 13)"
  by (simp_all add: column_specs_def credit_tiers_def)

lemma drawn_column:
  assumes contract: "numpy_contract R"
    and cols: "draw_columns R column_specs n g1 = (cols, g2)"
    and spec: "map_of column_specs c = Some d"
  obtains g' where "map_of cols c = Some (NumCol (fst (draw R d n g')))"
    "length (fst (draw R d n g')) = n"
proof -
  from drawn_lookup[OF contract spec, of n g1] obtain g' where
    "map_of (fst (draw_columns R column_specs n g1)) c = Some (NumCol (fst (draw R d n g')))"
    "length (fst (draw R d n g')) = n" by (elim exE conjE)
  with cols that show thesis by simp
qed

lemma tier_range:
  assumes "numpy_contract R" and "x \<in> set (fst (draw R (Choice credit_tiers) n g))"
  shows "\<exists>v. x = Fin v \<and> 500 \<le> v \<and> v \<le> 20000"
proof -
  have ne: "credit_tiers \<noteq> []" by (simp add: credit_tiers_def)
  from draw_choice_range[OF assms(1) ne assms(2)] obtain v where
    v: "v \<in> set credit_tiers" "x = Fin (of_int v)" by (elim bexE)
  from credit_tiers_low[OF v(1)] have "(500 :: real) \<le> of_int v \<and> (of_int v :: real) \<le> 20000"
    by simp
  then have "500 \<le> (of_int v :: real)" "(of_int v :: real) \<le> 20000" by simp_all
  with v(2) show ?thesis by (intro exI conjI)
qed

lemma tenure_range:
  assumes "numpy_contract R" and "x \<in> set (fst (draw R (Randint 6 13) n g))"
  shows "\<exists>v. x = Fin (of_int v) \<and> 6 \<le> v \<and> v \<le> 12"
proof -
  have lt: "(6 :: int) < 13" by simp
  from draw_randint_range[OF assms(1) lt assms(2)] obtain v where
    "x = Fin (of_int v)" "6 \<le> v" "v < 13" by (elim exE conjE)
  then have "x = Fin (of_int v) \<and> 6 \<le> v \<and> v \<le> 12" by simp
  then show ?thesis by (rule exI)
qed

lemma generated_schema:
  assumes "columns T = ''CUST_ID'' # numeric_columns" and "nrows T = n"
    and "\<forall>(c, col) \<in> set T. col_len col = n \<and>
           (c \<notin> set imputed_columns \<longrightarrow> col_isna_count col = 0) \<and>
           (c \<noteq> ''CUST_ID'' \<longrightarrow> numeric_column col)"
  shows "in_generator_schema T"
proof -
  have "list_all (\<lambda>(c, col). col_len col = nrows T \<and> (c \<noteq> ''CUST_ID'' \<longrightarrow> numeric_column col)) T"
    unfolding list_all_iff assms(2) using assms(3) by fast
  with assms(1) show ?thesis
    unfolding in_generator_schema_def by (intro conjI disjI1)
qed

lemma df_num_lookup:
  "df_num T c = Inr xs \<Longrightarrow> map_of T c = Some (NumCol xs)"
  by (simp add: df_num_def df_get_def split: option.splits column.splits)

lemma generated_missing:
  assumes dist: "distinct (map fst T)"
    and other: "\<forall>(c, col) \<in> set T. col_len col = n \<and>
           (c \<notin> set imputed_columns \<longrightarrow> col_isna_count col = 0) \<and>
           (c \<noteq> ''CUST_ID'' \<longrightarrow> numeric_column col)"
    and cl: "df_num T ''CREDIT_LIMIT'' = Inr cl" "length (filter isna cl) < n"
    and mp: "df_num T ''MINIMUM_PAYMENTS'' = Inr mp" "length (filter isna mp) < n"
  shows "missing_only_imputed T"
  unfolding missing_only_imputed_def list_all_iff
proof (intro ballI)
  fix p
  assume p: "p \<in> set T"
  obtain k col where kc: "p = (k, col)" by (cases p)
  from p kc dist have l: "map_of T k = Some col" by simp
  from other p kc have len: "col_len col = n"
    and zero: "k \<notin> set imputed_columns \<Longrightarrow> col_isna_count col = 0" by fast+
  have "if k \<in> set imputed_columns then col_isna_count col < col_len col
        else col_isna_count col = 0"
  proof (cases "k \<in> set imputed_columns")
    case False
    with zero show ?thesis by simp
  next
    case True
    then have "k = ''CREDIT_LIMIT'' \<or> k = ''MINIMUM_PAYMENTS''"
      by (simp add: imputed_columns_def)
    then show ?thesis
    proof
      assume k: "k = ''CREDIT_LIMIT''"
      with l df_num_lookup[OF cl(1)] have "col = NumCol cl" by simp
      with True cl(2) len show ?thesis by simp
    next
      assume k: "k = ''MINIMUM_PAYMENTS''"
      with l df_num_lookup[OF mp(1)] have "col = NumCol mp" by simp
      with True mp(2) len show ?thesis by simp
    qed
  qed
  with kc show "case p of (c, col) \<Rightarrow>
      if c \<in> set imputed_columns then col_isna_count col < col_len col
      else col_isna_count col = 0" by simp
qed

lemma df_num_dropped:
  "c \<noteq> ''CUST_ID'' \<Longrightarrow> df_num (drop_identifier T) c = df_num T c"
  by (simp add: df_num_def df_get_def drop_identifier_def delete_conv')

lemma df_num_generated_other:
  assumes "c \<noteq> ''MINIMUM_PAYMENTS''" "c \<noteq> ''CREDIT_LIMIT''" "c \<noteq> ''CUST_ID''"
  shows "df_num (generated n cols idx1 idx2 cl mp) c = df_num cols c"
  using assms unfolding generated_def
  by (simp add: df_num_df_set) (simp add: df_num_def df_get_def)

lemma set_nan_tiers:
  assumes "\<forall>x \<in> set cl. \<exists>v. x = Fin v \<and> 500 \<le> v \<and> v \<le> 20000"
  shows "\<forall>x \<in> set (set_nan idx cl). isna x \<or> (\<exists>v. x = Fin v \<and> 500 \<le> v \<and> v \<le> 20000)"
proof
  fix x
  assume "x \<in> set (set_nan idx cl)"
  then obtain i y where "(i, y) \<in> set (zip [0..<length cl] cl)"
    "x = (if i \<in> set idx then NaN else y)"
    unfolding set_nan_def by auto
  moreover from this(1) have "y \<in> set cl" by (rule set_zip_rightD)
  ultimately show "isna x \<or> (\<exists>v. x = Fin v \<and> 500 \<le> v \<and> v \<le> 20000)"
    using assms by (cases "i \<in> set idx") (simp_all add: isna_def)
qed

lemma generate_result:
  assumes contract: "numpy_contract R" and n: "313 \<le> ns"
    and seeded: "rng_seed R seed g0 = Some g1"
  obtains df g cl te where
    "generate_credit_card_data R ns seed g0 = Inr (df, g)"
    "nrows df = nat ns" "columns df = ''CUST_ID'' # numeric_columns"
    "in_generator_schema df"
    "313 < ns \<Longrightarrow> missing_only_imputed df"
    "df_num (drop_identifier df) ''CREDIT_LIMIT'' = Inr cl"
    "\<forall>x \<in> set cl. isna x \<or> (\<exists>v. x = Fin v \<and> 500 \<le> v \<and> v \<le> 20000)"
    "df_num (drop_identifier df) ''TENURE'' = Inr te"
    "\<forall>x \<in> set te. \<exists>v. x = Fin (of_int v) \<and> 6 \<le> v \<and> v \<le> 12"
proof -
  from generate_explicit[OF contract n seeded] obtain cols g2 idx1 g3 idx2 g4 cl mp where
    e: "draw_columns R column_specs (nat ns) g1 = (cols, g2)"
    "rng_sample R (nat ns) 1 g2 = (Some idx1, g3)"
    "rng_sample R (nat ns) 313 g3 = (Some idx2, g4)"
    "map_of cols ''CREDIT_LIMIT'' = Some (NumCol cl)"
    "map_of cols ''MINIMUM_PAYMENTS'' = Some (NumCol mp)"
    "generate_credit_card_data R ns seed g0 =
       Inr (generated (nat ns) cols idx1 idx2 cl mp, g4)" .
  define T where "T = generated (nat ns) cols idx1 idx2 cl mp"
  from contract_sample_Some[OF contract e(2)] have
    i1: "\<forall>i \<in> set idx1. i < nat ns" "distinct idx1" and l1: "length idx1 = 1" by simp_all
  from contract_sample_Some[OF contract e(3)] have
    i2: "\<forall>i \<in> set idx2. i < nat ns" "distinct idx2" and l2: "length idx2 = 313" by simp_all
  note t = generated_table[OF contract e(1) i1 i2 e(4) e(5), folded T_def]
  have run: "generate_credit_card_data R ns seed g0 = Inr (T, g4)"
    unfolding T_def by (rule e(6))
  have dist: "distinct (map fst T)"
    using t(1) distinct_numeric_columns by (simp add: columns_def)
  have schema: "in_generator_schema T"
    by (rule generated_schema[OF t(1) t(2) t(11)])
  have missing: "missing_only_imputed T" if "313 < ns"
  proof (rule generated_missing[OF dist t(11) t(3) _ t(4)])
    from that l1 t(7) show "length (filter isna (set_nan idx1 cl)) < nat ns" by simp
    from that l2 t(8) show "length (filter isna (set_nan idx2 mp)) < nat ns" by simp
  qed
  from drawn_column[OF contract e(1) column_specs_lookup(1)] obtain g' where
    "map_of cols ''CREDIT_LIMIT'' = Some (NumCol (fst (draw R (Choice credit_tiers) (nat ns) g')))"
    by blast
  with e(4) have cl: "cl = fst (draw R (Choice credit_tiers) (nat ns) g')" by simp
  have "\<forall>x \<in> set cl. \<exists>v. x = Fin v \<and> 500 \<le> v \<and> v \<le> 20000"
    unfolding cl using tier_range[OF contract] by blast
  then have clr: "\<forall>x \<in> set (set_nan idx1 cl). isna x \<or> (\<exists>v. x = Fin v \<and> 500 \<le> v \<and> v \<le> 20000)"
    by (rule set_nan_tiers)
  from drawn_column[OF contract e(1) column_specs_lookup(2)] obtain g'' where
    te: "map_of cols ''TENURE'' = Some (NumCol (fst (draw R (Randint 6 13) (nat ns) g'')))"
    by blast
  define te where "te = fst (draw R (Randint 6 13) (nat ns) g'')"
  have ter: "\<forall>x \<in> set te. \<exists>v. x = Fin (of_int v) \<and> 6 \<le> v \<and> v \<le> 12"
    unfolding te_def using tenure_range[OF contract] by blast
  have d1: "df_num (drop_identifier T) ''CREDIT_LIMIT'' = Inr (set_nan idx1 cl)"
    using t(3) by (simp add: df_num_dropped)
  have "df_num T ''TENURE'' = df_num cols ''TENURE''"
    unfolding T_def by (rule df_num_generated_other) simp_all
  also have "\<dots> = Inr te"
    using te by (simp add: df_num_def df_get_def te_def)
  finally have d2: "df_num (drop_identifier T) ''TENURE'' = Inr te"
    by (simp add: df_num_dropped)
  show thesis
    by (rule that[OF run t(2) t(1) schema missing d1 clr d2 ter])
qed

subsection \<open>Finite output of the preprocessor\<close>

lemma sorted_nth_finite:
  assumes "\<forall>x \<in> set xs. is_finite x \<or> isna x" and "k < length (sort_cells (dropna xs))"
  shows "is_finite (sort_cells (dropna xs) ! k)"
proof -
  from nth_mem[OF assms(2)] have "sort_cells (dropna xs) ! k \<in> set (dropna xs)" by simp
  with assms(1) show ?thesis by (auto simp: dropna_def)
qed

lemma lerp_finite: "is_finite a \<Longrightarrow> is_finite b \<Longrightarrow> is_finite (lerp a b g)"
  by (cases a; cases b) (simp_all add: lerp_def cell_sub_def Let_def)

lemma quantile_finite_or_nan:
  assumes fin: "\<forall>x \<in> set xs. is_finite x \<or> isna x" and q: "0 \<le> q" "q \<le> 1"
  shows "is_finite (quantile q xs) \<or> isna (quantile q xs)"
proof (cases "dropna xs = []")
  case True
  then show ?thesis by (simp add: quantile_def isna_def)
next
  case False
  define ys where "ys = sort_cells (dropna xs)"
  define n where "n = length ys"
  from False have pos: "0 < n" by (simp add: n_def ys_def)
  define h where "h = real (n - 1) * q"
  have "0 \<le> h" unfolding h_def using q(1) by simp
  have "h \<le> real (n - 1)" unfolding h_def using q(2) by (simp add: mult_left_le)
  then have "\<lfloor>h\<rfloor> \<le> int (n - 1)" by linarith
  with pos have lo: "nat \<lfloor>h\<rfloor> < n" by linarith
  from pos have hi: "min (nat \<lfloor>h\<rfloor> + 1) (n - 1) < n" by simp
  have "is_finite (ys ! nat \<lfloor>h\<rfloor>)" "is_finite (ys ! min (nat \<lfloor>h\<rfloor> + 1) (n - 1))"
    unfolding ys_def using lo hi by (auto intro!: sorted_nth_finite[OF fin] simp: n_def ys_def)
  then have "is_finite (lerp (ys ! nat \<lfloor>h\<rfloor>) (ys ! min (nat \<lfloor>h\<rfloor> + 1) (n - 1))
      (h - real (nat \<lfloor>h\<rfloor>)))"
    by (rule lerp_finite)
  moreover have "quantile q xs = lerp (ys ! nat \<lfloor>h\<rfloor>) (ys ! min (nat \<lfloor>h\<rfloor> + 1) (n - 1))
      (h - real (nat \<lfloor>h\<rfloor>))"
    using False by (simp add: quantile_def Let_def ys_def n_def h_def)
  ultimately show ?thesis by simp
qed

lemma clip_cell_finite:
  "is_finite c \<Longrightarrow> is_finite u \<Longrightarrow> is_finite (clip_cell u c)"
  by (simp add: clip_cell_def)

lemma q99_finite:
  assumes "\<forall>x \<in> set xs. is_finite x"
  shows "\<forall>x \<in> set (q99 xs). is_finite x"
proof -
  from assms have "\<forall>x \<in> set xs. is_finite x \<or> isna x" by simp
  from quantile_finite_or_nan[OF this, of "99 / 100"]
  have "is_finite (quantile (99 / 100) xs) \<or> isna (quantile (99 / 100) xs)" by simp
  then show ?thesis
  proof
    assume "isna (quantile (99 / 100) xs)"
    with assms show ?thesis by (simp add: q99_def clip_upper_def)
  next
    assume u: "is_finite (quantile (99 / 100) xs)"
    then have "\<not> isna (quantile (99 / 100) xs)" by (auto simp: isna_def)
    with assms u show ?thesis
      by (auto simp: q99_def clip_upper_def intro: clip_cell_finite)
  qed
qed

lemma series_div_finite:
  assumes "\<forall>x \<in> set xs. is_finite x" and "\<forall>y \<in> set ys. is_finite y" and "Fin 0 \<notin> set ys"
  shows "\<forall>z \<in> set (series_div xs ys). is_finite z"
proof
  fix z
  assume "z \<in> set (series_div xs ys)"
  then obtain x y where xy: "(x, y) \<in> set (zip xs ys)" and z: "z = cell_div x y"
    by (auto simp: series_div_def)
  from xy have m: "x \<in> set xs" "y \<in> set ys" by (auto dest: set_zip_leftD set_zip_rightD)
  with assms(1,2) have "is_finite x" "is_finite y" by blast+
  then obtain a b where ab: "x = Fin a" "y = Fin b" unfolding is_finite_iff by blast
  with m(2) assms(3) have "b \<noteq> 0" by auto
  with z ab show "is_finite z" by simp
qed

lemma median_between:
  assumes "\<forall>x \<in> set xs. isna x \<or> (\<exists>v. x = Fin v \<and> c \<le> v \<and> v \<le> d)"
    and "\<exists>x \<in> set xs. \<not> isna x"
  shows "\<exists>v. median xs = Fin v \<and> c \<le> v \<and> v \<le> d"
proof -
  have mem: "\<exists>v. a = Fin v \<and> c \<le> v \<and> v \<le> d" if "a \<in> set (dropna xs)" for a
    using that assms(1) by (auto simp: dropna_def)
  from assms(2) have "dropna xs \<noteq> []"
    by (auto simp: dropna_def filter_empty_conv)
  with median_cases[of xs] consider
    a where "a \<in> set (dropna xs)" "median xs = a"
  | a b where "a \<in> set (dropna xs)" "b \<in> set (dropna xs)"
      "median xs = cell_div (cell_add a b) (Fin 2)"
    by blast
  then show ?thesis
  proof cases
    case 1
    with mem show ?thesis by simp
  next
    case 2
    from mem[OF 2(1)] obtain x where x: "a = Fin x" "c \<le> x" "x \<le> d" by (elim exE conjE)
    from mem[OF 2(2)] obtain y where y: "b = Fin y" "c \<le> y" "y \<le> d" by (elim exE conjE)
    from 2(3) x(1) y(1) have "median xs = Fin ((x + y) / 2)" by simp
    moreover from x y have "c \<le> (x + y) / 2" "(x + y) / 2 \<le> d" by simp_all
    ultimately show ?thesis by (intro exI conjI)
  qed
qed

lemma fillna_between:
  assumes "\<forall>x \<in> set xs. isna x \<or> (\<exists>v. x = Fin v \<and> c \<le> v \<and> v \<le> d)"
    and "\<exists>v. m = Fin v \<and> c \<le> v \<and> v \<le> d"
  shows "\<forall>x \<in> set (fillna m xs). \<exists>v. x = Fin v \<and> c \<le> v \<and> v \<le> d"
  using assms by (auto simp: fillna_def)

lemma add_one_nonzero:
  assumes "cell_le (Fin 0) x" and "x \<noteq> Fin UINT64_MAX"
  shows "add_one u x \<noteq> Fin 0"
proof (cases "x = Fin INT64_MAX \<and> \<not> u")
  case True
  then show ?thesis by (simp add: add_one_def INT64_MAX_def UINT64_MAX_def)
next
  case False
  with assms(2) have "add_one u x = cell_add x (Fin 1)" by (auto simp: add_one_def)
  with assms(1) show ?thesis by (cases x) auto
qed

lemma limit_denominator_nonzero:
  assumes "\<forall>x \<in> set cl. cell_le (Fin 0) x \<and> x \<noteq> Fin UINT64_MAX"
  shows "Fin 0 \<notin> set (limit_denominator cl)"
proof
  assume "Fin 0 \<in> set (limit_denominator cl)"
  then obtain x where x: "x \<in> set cl" "add_one (unsigned_column cl) x = Fin 0"
    by (auto simp: limit_denominator_def)
  from assms x(1) have "cell_le (Fin 0) x" "x \<noteq> Fin UINT64_MAX" by blast+
  from add_one_nonzero[OF this] x(2) show False by simp
qed

lemma divides_by_zero_iff: "divides_by_zero xs ys \<Longrightarrow> Fin 0 \<in> set ys"
  by (auto simp: divides_by_zero_def list_ex_iff dest: set_zip_rightD)

lemma cols_df_set:
  assumes "\<forall>k col. map_of d k = Some col \<longrightarrow> k \<in> S \<or> P col" and "P (NumCol xs)"
  shows "\<forall>k col. map_of (df_set c xs d) k = Some col \<longrightarrow> k \<in> S - {c} \<or> P col"
  using assms by (auto simp: map_of_df_set split: if_splits)

lemma preprocessed_all:
  assumes base: "\<forall>k col. map_of d0 k = Some col \<longrightarrow> k \<in> set imputed_columns \<or> P col"
    and "P (NumCol (fillna (median cl) cl))"
    and "P (NumCol (fillna (median mp) mp))"
    and "P (NumCol (series_div pu te))"
    and "P (NumCol (series_div ca te))"
    and "P (NumCol (series_div pu (limit_denominator (fillna (median cl) cl))))"
    and "P (NumCol (series_div ba (limit_denominator (fillna (median cl) cl))))"
    and "P (NumCol (q99 ba))" "P (NumCol (q99 pu))" "P (NumCol (q99 ca))" "P (NumCol (q99 pa))"
    and "P (NumCol (q99 (fillna (median mp) mp)))"
  shows "\<forall>k col. map_of (preprocessed d0 ba pu ca cl pa mp te) k = Some col \<longrightarrow> P col"
proof -
  note q = cols_df_set[OF cols_df_set[OF cols_df_set[OF cols_df_set[OF
      cols_df_set[OF cols_df_set[OF cols_df_set[OF cols_df_set[OF cols_df_set[OF
      cols_df_set[OF cols_df_set[OF base assms(2)] assms(3)] assms(4)] assms(5)] assms(6)]
      assms(7)] assms(8)] assms(9)] assms(10)] assms(11)] assms(12),
      of "''MINIMUM_PAYMENTS''" "''PAYMENTS''" "''CASH_ADVANCE''" "''PURCHASES''" "''BALANCE''"
        "''BALANCE_TO_LIMIT_RATIO''" "''PURCHASE_TO_LIMIT_RATIO''" "''MONTHLY_AVG_CASH_ADVANCE''"
        "''MONTHLY_AVG_PURCHASE''" "''MINIMUM_PAYMENTS''" "''CREDIT_LIMIT''"]
  have e: "k \<notin> set imputed_columns - {''CREDIT_LIMIT''} - {''MINIMUM_PAYMENTS''} -
      {''MONTHLY_AVG_PURCHASE''} - {''MONTHLY_AVG_CASH_ADVANCE''} - {''PURCHASE_TO_LIMIT_RATIO''} -
      {''BALANCE_TO_LIMIT_RATIO''} - {''BALANCE''} - {''PURCHASES''} - {''CASH_ADVANCE''} -
      {''PAYMENTS''} - {''MINIMUM_PAYMENTS''}" for k
    by (auto simp: imputed_columns_def)
  show ?thesis
  proof (intro allI impI)
    fix k col
    assume "map_of (preprocessed d0 ba pu ca cl pa mp te) k = Some col"
    then have "map_of (df_set ''MINIMUM_PAYMENTS'' (q99 (fillna (median mp) mp))
     (df_set ''PAYMENTS'' (q99 pa)
     (df_set ''CASH_ADVANCE'' (q99 ca)
     (df_set ''PURCHASES'' (q99 pu)
     (df_set ''BALANCE'' (q99 ba)
     (df_set ''BALANCE_TO_LIMIT_RATIO'' (series_div ba (limit_denominator (fillna (median cl) cl)))
     (df_set ''PURCHASE_TO_LIMIT_RATIO'' (series_div pu (limit_denominator (fillna (median cl) cl)))
     (df_set ''MONTHLY_AVG_CASH_ADVANCE'' (series_div ca te)
     (df_set ''MONTHLY_AVG_PURCHASE'' (series_div pu te)
     (df_set ''MINIMUM_PAYMENTS'' (fillna (median mp) mp)
     (df_set ''CREDIT_LIMIT'' (fillna (median cl) cl) d0))))))))))) k = Some col"
      by (simp only: preprocessed_def Let_def)
    from q[rule_format, OF this] e[of k] show "P col" by blast
  qed
qed

lemma columns_df_set_new:
  "c \<notin> set (columns df) \<Longrightarrow> columns (df_set c xs df) = columns df @ [c]"
  by (simp add: columns_def df_set_def update_keys)

lemma columns_preprocessed:
  assumes "columns d0 = numeric_columns"
  shows "columns (preprocessed d0 ba pu ca cl pa mp te) = numeric_columns @ derived_columns"
proof -
  define d2 where "d2 = df_set ''MINIMUM_PAYMENTS'' (fillna (median mp) mp)
     (df_set ''CREDIT_LIMIT'' (fillna (median cl) cl) d0)"
  have c2: "columns d2 = numeric_columns"
    unfolding d2_def using assms by (simp add: columns_df_set numeric_columns_def)
  define d6 where "d6 = df_set ''BALANCE_TO_LIMIT_RATIO''
       (series_div ba (limit_denominator (fillna (median cl) cl)))
     (df_set ''PURCHASE_TO_LIMIT_RATIO'' (series_div pu (limit_denominator (fillna (median cl) cl)))
     (df_set ''MONTHLY_AVG_CASH_ADVANCE'' (series_div ca te)
     (df_set ''MONTHLY_AVG_PURCHASE'' (series_div pu te) d2)))"
  have c6: "columns d6 = numeric_columns @ derived_columns"
    unfolding d6_def using c2
    by (simp add: columns_df_set_new numeric_columns_def derived_columns_def)
  have "preprocessed d0 ba pu ca cl pa mp te =
     df_set ''MINIMUM_PAYMENTS'' (q99 (fillna (median mp) mp))
     (df_set ''PAYMENTS'' (q99 pa)
     (df_set ''CASH_ADVANCE'' (q99 ca)
     (df_set ''PURCHASES'' (q99 pu)
     (df_set ''BALANCE'' (q99 ba) d6))))"
    by (simp only: preprocessed_def Let_def d6_def d2_def)
  then show ?thesis
    using c6 by (simp add: columns_df_set numeric_columns_def derived_columns_def)
qed

lemma schema_dropped_columns:
  assumes "in_generator_schema df"
  shows "columns (drop_identifier df) = numeric_columns"
proof -
  have "''CUST_ID'' \<notin> set numeric_columns" by (simp add: numeric_columns_def)
  then have "removeAll ''CUST_ID'' numeric_columns = numeric_columns" by simp
  with assms show ?thesis
    by (auto simp: in_generator_schema_def columns_def drop_identifier_def delete_keys)
qed

lemma unimputed_finite:
  assumes "missing_only_imputed df" and "(k, NumCol xs) \<in> set df"
    and "k \<notin> set imputed_columns" and "\<forall>x \<in> set xs. is_finite x \<or> isna x"
  shows "\<forall>x \<in> set xs. is_finite x"
proof -
  from assms(1,2,3) have "length (filter isna xs) = 0"
    by (auto simp: missing_only_imputed_def list_all_iff)
  then have "NaN \<notin> set xs" using isna_count_zero[of xs] by blast
  with assms(4) show ?thesis by (auto simp: isna_def)
qed

lemma imputed_some:
  assumes "missing_only_imputed df" and "(k, NumCol xs) \<in> set df" and "k \<in> set imputed_columns"
  shows "\<exists>x \<in> set xs. \<not> isna x"
proof -
  from assms have "length (filter isna xs) < length xs"
    by (auto simp: missing_only_imputed_def list_all_iff)
  then show ?thesis by (metis filter_True less_irrefl)
qed

lemma finite_table_iff:
  "distinct (map fst df) \<Longrightarrow>
     finite_table df \<and> list_all (\<lambda>(c, col). col_len col = n) df \<longleftrightarrow>
     (\<forall>k col. map_of df k = Some col \<longrightarrow> finite_column col \<and> col_len col = n)"
  by (auto simp: finite_table_def list_all_iff dest: map_of_SomeD)

lemma preprocess_finite:
  assumes schema: "in_generator_schema df" and missing: "missing_only_imputed df"
    and te: "df_num (drop_identifier df) ''TENURE'' = Inr te" "Fin 0 \<notin> set te"
    and cl: "df_num (drop_identifier df) ''CREDIT_LIMIT'' = Inr cl"
      "\<forall>x \<in> set cl. isna x \<or> (\<exists>v. x = Fin v \<and> 0 \<le> v \<and> v \<le> b)"
    and bound: "b < UINT64_MAX"
  obtains out where "preprocess df = Inr out" "finite_table out" "wf_table out"
    "nrows out = nrows df" "columns out = numeric_columns @ derived_columns"
proof -
  let ?d0 = "drop_identifier df"
  have cols: "''BALANCE'' \<in> set numeric_columns" "''PURCHASES'' \<in> set numeric_columns"
    "''CASH_ADVANCE'' \<in> set numeric_columns" "''CREDIT_LIMIT'' \<in> set numeric_columns"
    "''PAYMENTS'' \<in> set numeric_columns" "''MINIMUM_PAYMENTS'' \<in> set numeric_columns"
    "''TENURE'' \<in> set numeric_columns"
    by (simp_all add: numeric_columns_def)
  have imp: "''BALANCE'' \<notin> set imputed_columns" "''PURCHASES'' \<notin> set imputed_columns"
    "''CASH_ADVANCE'' \<notin> set imputed_columns" "''PAYMENTS'' \<notin> set imputed_columns"
    "''TENURE'' \<notin> set imputed_columns" "''CREDIT_LIMIT'' \<in> set imputed_columns"
    "''MINIMUM_PAYMENTS'' \<in> set imputed_columns"
    by (simp_all add: imputed_columns_def)
  from schema_column[OF schema cols(1)] obtain ba where
    cba: "df_num ?d0 ''BALANCE'' = Inr ba" and mba: "(''BALANCE'', NumCol ba) \<in> set df"
    and gba: "\<forall>x \<in> set ba. is_finite x \<or> isna x" by blast
  from schema_column[OF schema cols(2)] obtain pu where
    cpu: "df_num ?d0 ''PURCHASES'' = Inr pu" and mpu: "(''PURCHASES'', NumCol pu) \<in> set df"
    and gpu: "\<forall>x \<in> set pu. is_finite x \<or> isna x" by blast
  from schema_column[OF schema cols(3)] obtain ca where
    cca: "df_num ?d0 ''CASH_ADVANCE'' = Inr ca" and mca: "(''CASH_ADVANCE'', NumCol ca) \<in> set df"
    and gca: "\<forall>x \<in> set ca. is_finite x \<or> isna x" by blast
  from schema_column[OF schema cols(4)] obtain cl' where
    "df_num ?d0 ''CREDIT_LIMIT'' = Inr cl'" and mcl': "(''CREDIT_LIMIT'', NumCol cl') \<in> set df"
    and gcl': "\<forall>x \<in> set cl'. is_finite x \<or> isna x" by blast
  with cl(1) have "cl' = cl" by simp
  with mcl' gcl' have mcl: "(''CREDIT_LIMIT'', NumCol cl) \<in> set df"
    and gcl: "\<forall>x \<in> set cl. is_finite x \<or> isna x" by simp_all
  from schema_column[OF schema cols(5)] obtain pa where
    cpa: "df_num ?d0 ''PAYMENTS'' = Inr pa" and mpa: "(''PAYMENTS'', NumCol pa) \<in> set df"
    and gpa: "\<forall>x \<in> set pa. is_finite x \<or> isna x" by blast
  from schema_column[OF schema cols(6)] obtain mp where
    cmp: "df_num ?d0 ''MINIMUM_PAYMENTS'' = Inr mp"
    and mmp: "(''MINIMUM_PAYMENTS'', NumCol mp) \<in> set df"
    and gmp: "\<forall>x \<in> set mp. is_finite x \<or> isna x" by blast
  from schema_column[OF schema cols(7)] obtain te' where
    "df_num ?d0 ''TENURE'' = Inr te'" and mte': "(''TENURE'', NumCol te') \<in> set df"
    and gte': "\<forall>x \<in> set te'. is_finite x \<or> isna x" by blast
  with te(1) have "te' = te" by simp
  with mte' gte' have mte: "(''TENURE'', NumCol te) \<in> set df"
    and gte: "\<forall>x \<in> set te. is_finite x \<or> isna x" by simp_all
  note c = cba cpu cca cl(1) cpa cmp te(1)
  let ?cl = "fillna (median cl) cl" and ?mp = "fillna (median mp) mp"
  let ?out = "preprocessed ?d0 ba pu ca cl pa mp te"
  have out: "preprocess df = Inr ?out"
    by (rule preprocess_explicit[OF c])
  note wf = schema_wf[OF schema]
  note len = c[THEN wf_dropped_len[OF wf]]
  have fba: "\<forall>x \<in> set ba. is_finite x" by (rule unimputed_finite[OF missing mba imp(1) gba])
  have fpu: "\<forall>x \<in> set pu. is_finite x" by (rule unimputed_finite[OF missing mpu imp(2) gpu])
  have fca: "\<forall>x \<in> set ca. is_finite x" by (rule unimputed_finite[OF missing mca imp(3) gca])
  have fpa: "\<forall>x \<in> set pa. is_finite x" by (rule unimputed_finite[OF missing mpa imp(4) gpa])
  have fte: "\<forall>x \<in> set te. is_finite x" by (rule unimputed_finite[OF missing mte imp(5) gte])
  have fmp: "\<forall>x \<in> set ?mp. is_finite x"
    by (rule fillna_finite[OF gmp median_finite[OF gmp imputed_some[OF missing mmp imp(7)]]])
  have lcl: "\<forall>x \<in> set ?cl. \<exists>v. x = Fin v \<and> 0 \<le> v \<and> v \<le> b"
    by (rule fillna_between[OF cl(2) median_between[OF cl(2) imputed_some[OF missing mcl imp(6)]]])
  have fcl: "\<forall>x \<in> set ?cl. is_finite x"
  proof
    fix x assume "x \<in> set ?cl"
    with lcl obtain v where "x = Fin v" by blast
    then show "is_finite x" by simp
  qed
  have "\<forall>x \<in> set ?cl. cell_le (Fin 0) x \<and> x \<noteq> Fin UINT64_MAX"
  proof
    fix x assume "x \<in> set ?cl"
    with lcl obtain v where "x = Fin v" "0 \<le> v" "v \<le> b" by blast
    with bound show "cell_le (Fin 0) x \<and> x \<noteq> Fin UINT64_MAX" by simp
  qed
  then have nz: "Fin 0 \<notin> set (limit_denominator ?cl)" by (rule limit_denominator_nonzero)
  have fld: "\<forall>x \<in> set (limit_denominator ?cl). is_finite x"
    by (rule limit_denominator_finite[OF fcl])
  define n where "n = nrows df"
  define P where "P = (\<lambda>col. finite_column col \<and> col_len col = n)"
  have PI: "P (NumCol xs)" if "\<forall>x \<in> set xs. is_finite x" "length xs = n" for xs
    using that by (simp add: P_def list_all_iff)
  have base: "\<forall>k col. map_of ?d0 k = Some col \<longrightarrow> k \<in> set imputed_columns \<or> P col"
  proof (intro allI impI)
    fix k col
    assume l: "map_of ?d0 k = Some col"
    then have "(k, col) \<in> set ?d0" by (rule map_of_SomeD)
    with drop_identifier_subset have m: "(k, col) \<in> set df" by blast
    from l have ne: "k \<noteq> ''CUST_ID''"
      by (auto simp: drop_identifier_def delete_conv')
    show "k \<in> set imputed_columns \<or> P col"
    proof (cases "k \<in> set imputed_columns")
      case False
      from schema have "list_all (\<lambda>(c, col). col_len col = nrows df \<and>
          (c \<noteq> ''CUST_ID'' \<longrightarrow> numeric_column col)) df"
        unfolding in_generator_schema_def by (rule conjunct2)
      with m ne have "numeric_column col" and cl: "col_len col = nrows df"
        unfolding list_all_iff by fast+
      then obtain xs where xs: "col = NumCol xs" "\<forall>x \<in> set xs. is_finite x \<or> isna x"
        by (cases col) (auto simp: list_all_iff)
      from unimputed_finite[OF missing m[unfolded xs(1)] False xs(2)] cl xs(1)
      have "P col" by (simp add: P_def list_all_iff n_def)
      then show ?thesis ..
    qed simp
  qed
  have lens: "length ?cl = n" "length ?mp = n" "length (series_div pu te) = n"
    "length (series_div ca te) = n" "length (series_div pu (limit_denominator ?cl)) = n"
    "length (series_div ba (limit_denominator ?cl)) = n" "length (q99 ba) = n"
    "length (q99 pu) = n" "length (q99 ca) = n" "length (q99 pa) = n" "length (q99 ?mp) = n"
    using len by (simp_all add: n_def)
  have p1: "P (NumCol ?cl)" by (rule PI[OF fcl lens(1)])
  have p2: "P (NumCol ?mp)" by (rule PI[OF fmp lens(2)])
  have p3: "P (NumCol (series_div pu te))"
    by (rule PI[OF series_div_finite[OF fpu fte te(2)] lens(3)])
  have p4: "P (NumCol (series_div ca te))"
    by (rule PI[OF series_div_finite[OF fca fte te(2)] lens(4)])
  have p5: "P (NumCol (series_div pu (limit_denominator ?cl)))"
    by (rule PI[OF series_div_finite[OF fpu fld nz] lens(5)])
  have p6: "P (NumCol (series_div ba (limit_denominator ?cl)))"
    by (rule PI[OF series_div_finite[OF fba fld nz] lens(6)])
  have p7: "P (NumCol (q99 ba))" by (rule PI[OF q99_finite[OF fba] lens(7)])
  have p8: "P (NumCol (q99 pu))" by (rule PI[OF q99_finite[OF fpu] lens(8)])
  have p9: "P (NumCol (q99 ca))" by (rule PI[OF q99_finite[OF fca] lens(9)])
  have p10: "P (NumCol (q99 pa))" by (rule PI[OF q99_finite[OF fpa] lens(10)])
  have p11: "P (NumCol (q99 ?mp))" by (rule PI[OF q99_finite[OF fmp] lens(11)])
  have all: "\<forall>k col. map_of ?out k = Some col \<longrightarrow> P col"
    by (rule preprocessed_all[OF base p1 p2 p3 p4 p5 p6 p7 p8 p9 p10 p11])
  have dist: "distinct (map fst ?out)"
    using schema_distinct[OF schema]
    by (intro distinct_preprocessed) (simp add: drop_identifier_def distinct_delete)
  from cba have ne: "?d0 \<noteq> []" by (auto simp: df_num_def df_get_def)
  have rows: "nrows ?out = nrows df"
    using ne len wf_dropped_nrows[OF wf ne] by (simp add: nrows_preprocessed)
  from all have "\<forall>k col. map_of ?out k = Some col \<longrightarrow> finite_column col \<and> col_len col = n"
    unfolding P_def .
  then have "finite_table ?out \<and> list_all (\<lambda>(c, col). col_len col = n) ?out"
    by (simp only: finite_table_iff[OF dist, of n])
  then have ft: "finite_table ?out" and ln: "list_all (\<lambda>(c, col). col_len col = n) ?out"
    by (rule conjunct1, rule conjunct2)
  from ln rows have "list_all (\<lambda>(c, col). col_len col = nrows ?out) ?out"
    by (simp only: n_def)
  with dist have wfo: "wf_table ?out"
    unfolding wf_table_def columns_def by (rule conjI)
  have co: "columns ?out = numeric_columns @ derived_columns"
    by (rule columns_preprocessed[OF schema_dropped_columns[OF schema]])
  show thesis by (rule that[OF out ft wfo rows co])
qed

subsection \<open>Training succeeds\<close>

lemma fit_steps:
  assumes "scaler_fit_transform sk df = Inr X_scaled"
    and "pca_fit_transform sk 10 42 X_scaled = Inr (X_pca, evr)"
    and "length (cumsum evr) = 10"
    and "pca_fit_transform sk 2 42 X_scaled = Inr (X_2d, evr2)"
    and "forest_fit_predict sk 200 CONTAMINATION 42 X_pca = Inr (m, ls)"
  shows "fit sk df =
    Inr \<lparr>explained = cumsum evr, labels = ls, scores = decision_function sk m X_pca\<rparr>"
proof -
  from assms(3) have ne: "cumsum evr \<noteq> []" by (cases "cumsum evr") simp_all
  show ?thesis
    unfolding fit_def
    by (simp only: assms ne sum.case prod.case if_False not_not refl simp_thms)
qed

lemma train_succeeds:
  assumes contract: "sklearn_contract sk" and stored: "fs PROCESSED_PATH = Some df"
    and fin: "finite_table df" and wf: "wf_table df"
    and rows: "10 \<le> nrows df" and feats: "10 \<le> ncols df"
  obtains m where "train sk fs = Inr m" "n_samples m = nrows df"
    "contamination m = CONTAMINATION"
proof -
  from rows have pos: "0 < nrows df" by simp
  from scaler_succeeds[OF contract fin wf pos] obtain X where
    X: "scaler_fit_transform sk df = Inr X" by (elim exE)
  from scaler_shape[OF contract X] fin have
    sX: "length X = nrows df" "n_features X = ncols df" "finite_matrix X" by simp_all
  from rows feats sX have k10: "10 \<le> length X" "10 \<le> n_features X"
    and k2: "2 \<le> length X" "2 \<le> n_features X" by simp_all
  from pca_succeeds[OF contract sX(3) k10, of 42] obtain Y evr where
    Y: "pca_fit_transform sk 10 42 X = Inr (Y, evr)" by (elim exE)
  from pca_shape[OF contract Y] sX have
    sY: "length Y = nrows df" "length evr = 10" "finite_matrix Y" by simp_all
  from pca_succeeds[OF contract sX(3) k2, of 42] obtain Y2 evr2 where
    Y2: "pca_fit_transform sk 2 42 X = Inr (Y2, evr2)" by (elim exE)
  from sY(1) pos have posY: "0 < length Y" by simp
  from forest_succeeds[OF contract sY(3) posY, of 200 CONTAMINATION 42] obtain fm ls where
    F: "forest_fit_predict sk 200 CONTAMINATION 42 Y = Inr (fm, ls)" by (elim exE)
  from forest_labels[OF contract F] posY have sc: "decision_function sk fm Y \<noteq> []" by auto
  from sY(2) have e10: "length (cumsum evr) = 10" by simp
  define ft where "ft = \<lparr>explained = cumsum evr, labels = ls, scores = decision_function sk fm Y\<rparr>"
  have fit: "fit sk df = Inr ft"
    unfolding ft_def by (rule fit_steps[OF X Y e10 Y2 F])
  from sc have "scores ft \<noteq> []" by (simp add: ft_def)
  then obtain m where mm: "make_metrics df ft = Inr m"
    by (simp add: make_metrics_def Let_def)
  have tr: "train sk fs = Inr m"
    unfolding train_def read_csv_def by (simp add: stored fit mm)
  from make_metrics_fields[OF mm] have "n_samples m = nrows df" "contamination m = CONTAMINATION"
    by simp_all
  with tr that show thesis by blast
qed

lemma generated_imputed:
  assumes contract: "numpy_contract R" and n: "313 < ns"
    and run: "generate_credit_card_data R ns seed g0 = Inr (df, g)"
  obtains imp te cl where
    "in_generator_schema df" "missing_only_imputed df" "nrows df = nat ns"
    "columns df = ''CUST_ID'' # numeric_columns"
    "fill_missing (drop_identifier df) = Inr imp"
    "df_num (drop_identifier df) ''TENURE'' = Inr te"
    "df_num imp ''TENURE'' = Inr te"
    "\<forall>x \<in> set te. \<exists>v. x = Fin (of_int v) \<and> 6 \<le> v \<and> v \<le> 12"
    "Fin 0 \<notin> set te"
    "df_num (drop_identifier df) ''CREDIT_LIMIT'' = Inr cl"
    "\<forall>x \<in> set cl. isna x \<or> (\<exists>v. x = Fin v \<and> 0 \<le> v \<and> v \<le> 20000)"
    "df_num imp ''CREDIT_LIMIT'' = Inr (fillna (median cl) cl)"
    "\<forall>x \<in> set (fillna (median cl) cl). \<exists>v. x = Fin v \<and> 500 \<le> v \<and> v \<le> 20000"
proof -
  from run obtain g1 where seeded: "rng_seed R seed g0 = Some g1"
    by (cases "rng_seed R seed g0") (simp_all add: generate_credit_card_data_def)
  from n have n': "313 \<le> ns" by simp
  obtain df' g' cl te where
    r: "generate_credit_card_data R ns seed g0 = Inr (df', g')"
    "nrows df' = nat ns" "columns df' = ''CUST_ID'' # numeric_columns"
    "in_generator_schema df'"
    "missing_only_imputed df'"
    "df_num (drop_identifier df') ''CREDIT_LIMIT'' = Inr cl"
    "\<forall>x \<in> set cl. isna x \<or> (\<exists>v. x = Fin v \<and> 500 \<le> v \<and> v \<le> 20000)"
    "df_num (drop_identifier df') ''TENURE'' = Inr te"
    "\<forall>x \<in> set te. \<exists>v. x = Fin (of_int v) \<and> 6 \<le> v \<and> v \<le> 12"
  proof (rule generate_result[OF contract n' seeded])
    fix df' g' cl te
    assume a: "generate_credit_card_data R ns seed g0 = Inr (df', g')"
      "nrows df' = nat ns" "columns df' = ''CUST_ID'' # numeric_columns"
      "in_generator_schema df'"
      "313 < ns \<Longrightarrow> missing_only_imputed df'"
      "df_num (drop_identifier df') ''CREDIT_LIMIT'' = Inr cl"
      "\<forall>x \<in> set cl. isna x \<or> (\<exists>v. x = Fin v \<and> 500 \<le> v \<and> v \<le> 20000)"
      "df_num (drop_identifier df') ''TENURE'' = Inr te"
      "\<forall>x \<in> set te. \<exists>v. x = Fin (of_int v) \<and> 6 \<le> v \<and> v \<le> 12"
    show thesis
      by (rule that[OF a(1) a(2) a(3) a(4) a(5)[OF n] a(6) a(7) a(8) a(9)])
  qed
  from run r(1) have eq: "df' = df" by simp
  note s = r(2-6)[unfolded eq] r(7) r(8)[unfolded eq] r(9)
  have mp_col: "''MINIMUM_PAYMENTS'' \<in> set numeric_columns" by (simp add: numeric_columns_def)
  from schema_column[OF s(3) mp_col] obtain mp where
    mp: "df_num (drop_identifier df) ''MINIMUM_PAYMENTS'' = Inr mp" by blast
  define imp where "imp = df_set ''MINIMUM_PAYMENTS'' (fillna (median mp) mp)
      (df_set ''CREDIT_LIMIT'' (fillna (median cl) cl) (drop_identifier df))"
  have fm: "fill_missing (drop_identifier df) = Inr imp"
    unfolding imp_def by (rule fill_missing_explicit[OF s(5) mp])
  have it: "df_num imp ''TENURE'' = Inr te"
    unfolding imp_def using s(7) by (simp add: df_num_df_set)
  have ic: "df_num imp ''CREDIT_LIMIT'' = Inr (fillna (median cl) cl)"
    unfolding imp_def by (simp add: df_num_df_set)
  have nz: "Fin 0 \<notin> set te"
  proof
    assume "Fin 0 \<in> set te"
    with s(8) obtain v :: int where "Fin 0 = Fin (of_int v)" "6 \<le> v" by blast
    then show False by simp
  qed
  have cl_in: "''CREDIT_LIMIT'' \<in> set numeric_columns" "''CREDIT_LIMIT'' \<in> set imputed_columns"
    by (simp_all add: numeric_columns_def imputed_columns_def)
  from schema_column[OF s(3) cl_in(1)] s(5) have "(''CREDIT_LIMIT'', NumCol cl) \<in> set df"
    by auto
  from imputed_some[OF s(4) this cl_in(2)] have some: "\<exists>x \<in> set cl. \<not> isna x" .
  have low: "\<forall>x \<in> set (fillna (median cl) cl). \<exists>v. x = Fin v \<and> 500 \<le> v \<and> v \<le> 20000"
    by (rule fillna_between[OF s(6) median_between[OF s(6) some]])
  have nonneg: "\<forall>x \<in> set cl. isna x \<or> (\<exists>v. x = Fin v \<and> 0 \<le> v \<and> v \<le> 20000)"
  proof
    fix x assume "x \<in> set cl"
    with s(6) have "isna x \<or> (\<exists>v. x = Fin v \<and> 500 \<le> v \<and> v \<le> 20000)" by blast
    then show "isna x \<or> (\<exists>v. x = Fin v \<and> 0 \<le> v \<and> v \<le> 20000)" by force
  qed
  show thesis
    by (rule that[OF s(3) s(4) s(1) s(2) fm s(7) it s(8) nz s(5) nonneg ic low])
qed

subsection \<open>Denominators of the derived ratios\<close>

lemma ratio_columns:
  assumes run: "preprocess df = Inr out"
    and imp: "fill_missing (drop_identifier df) = Inr imp"
    and te: "df_num imp ''TENURE'' = Inr te"
    and cl: "df_num imp ''CREDIT_LIMIT'' = Inr cl"
  shows "\<exists>pu ca ba. df_num imp ''PURCHASES'' = Inr pu \<and>
           df_num imp ''CASH_ADVANCE'' = Inr ca \<and> df_num imp ''BALANCE'' = Inr ba \<and>
           df_num out ''MONTHLY_AVG_PURCHASE'' = Inr (series_div pu te) \<and>
           df_num out ''MONTHLY_AVG_CASH_ADVANCE'' = Inr (series_div ca te) \<and>
           df_num out ''PURCHASE_TO_LIMIT_RATIO'' = Inr (series_div pu (limit_denominator cl)) \<and>
           df_num out ''BALANCE_TO_LIMIT_RATIO'' = Inr (series_div ba (limit_denominator cl))"
proof -
  let ?d0 = "drop_identifier df"
  from run obtain ba pu ca cl0 pa mp te0 where
    c: "df_num ?d0 ''BALANCE'' = Inr ba" "df_num ?d0 ''PURCHASES'' = Inr pu"
       "df_num ?d0 ''CASH_ADVANCE'' = Inr ca" "df_num ?d0 ''CREDIT_LIMIT'' = Inr cl0"
       "df_num ?d0 ''PAYMENTS'' = Inr pa" "df_num ?d0 ''MINIMUM_PAYMENTS'' = Inr mp"
       "df_num ?d0 ''TENURE'' = Inr te0"
    and out: "out = preprocessed ?d0 ba pu ca cl0 pa mp te0"
    by (rule preprocess_cases)
  from fill_missing_explicit[OF c(4) c(6)] imp have
    i: "imp = df_set ''MINIMUM_PAYMENTS'' (fillna (median mp) mp)
        (df_set ''CREDIT_LIMIT'' (fillna (median cl0) cl0) ?d0)" by simp
  have k: "df_num imp ''TENURE'' = df_num ?d0 ''TENURE''"
    "df_num imp ''CREDIT_LIMIT'' = Inr (fillna (median cl0) cl0)"
    "df_num imp ''PURCHASES'' = df_num ?d0 ''PURCHASES''"
    "df_num imp ''CASH_ADVANCE'' = df_num ?d0 ''CASH_ADVANCE''"
    "df_num imp ''BALANCE'' = df_num ?d0 ''BALANCE''"
    unfolding i by (simp_all add: df_num_df_set)
  from te c(7) k(1) have te0: "te0 = te" by simp
  from cl k(2) have cl0: "fillna (median cl0) cl0 = cl" by simp
  have n: "df_num imp ''PURCHASES'' = Inr pu" "df_num imp ''CASH_ADVANCE'' = Inr ca"
    "df_num imp ''BALANCE'' = Inr ba"
    using c(1-3) k(3-5) by simp_all
  have o: "df_num out ''MONTHLY_AVG_PURCHASE'' = Inr (series_div pu te0)"
    "df_num out ''MONTHLY_AVG_CASH_ADVANCE'' = Inr (series_div ca te0)"
    "df_num out ''PURCHASE_TO_LIMIT_RATIO'' =
       Inr (series_div pu (limit_denominator (fillna (median cl0) cl0)))"
    "df_num out ''BALANCE_TO_LIMIT_RATIO'' =
       Inr (series_div ba (limit_denominator (fillna (median cl0) cl0)))"
    unfolding out by (simp_all add: df_num_preprocessed)
  note o' = o[unfolded te0 cl0]
  show ?thesis
    by (rule exI[of _ pu], rule exI[of _ ca], rule exI[of _ ba])
      (intro conjI n o')
qed

lemma generated_denominators:
  assumes contract: "numpy_contract R" and n: "313 < ns"
    and run: "generate_credit_card_data R ns seed g0 = Inr (gdf, g)"
  shows "\<exists>gimp gte gcl. fill_missing (drop_identifier gdf) = Inr gimp \<and>
           df_num gimp ''TENURE'' = Inr gte \<and> df_num gimp ''CREDIT_LIMIT'' = Inr gcl \<and>
           (\<forall>x \<in> set gte. \<exists>v. x = Fin (of_int v) \<and> 6 \<le> v \<and> v \<le> 12) \<and>
           (\<forall>x \<in> set gte. x \<noteq> Fin 0) \<and>
           (\<forall>x \<in> set gcl. cell_le (Fin 0) x \<and> x \<noteq> Fin UINT64_MAX)"
proof (rule generated_imputed[OF contract n run])
  fix gimp gte gcl
  assume f: "fill_missing (drop_identifier gdf) = Inr gimp"
    "df_num gimp ''TENURE'' = Inr gte"
    "\<forall>x \<in> set gte. \<exists>v. x = Fin (of_int v) \<and> 6 \<le> v \<and> v \<le> 12"
    "Fin 0 \<notin> set gte"
    "df_num gimp ''CREDIT_LIMIT'' = Inr (fillna (median gcl) gcl)"
    "\<forall>x \<in> set (fillna (median gcl) gcl). \<exists>v. x = Fin v \<and> 500 \<le> v \<and> v \<le> 20000"
  from f(4) have nz: "\<forall>x \<in> set gte. x \<noteq> Fin 0" by blast
  have nn: "\<forall>x \<in> set (fillna (median gcl) gcl). cell_le (Fin 0) x \<and> x \<noteq> Fin UINT64_MAX"
  proof
    fix x assume "x \<in> set (fillna (median gcl) gcl)"
    with f(6) obtain v where "x = Fin v" "500 \<le> v" "v \<le> 20000" by blast
    then show "cell_le (Fin 0) x \<and> x \<noteq> Fin UINT64_MAX" by (simp add: UINT64_MAX_def)
  qed
  show ?thesis
    by (rule exI[of _ gimp], rule exI[of _ gte], rule exI[of _ "fillna (median gcl) gcl"])
      (intro conjI f(1) f(2) f(5) f(3) nz nn)
qed

text \<open>
  C9, as amended. When, in the imputed table, every CREDIT_LIMIT value is non-negative
  and none is \<open>2^64 - 1\<close>, and every TENURE value is nonzero, no denominator of the
  four derived ratios is zero, whatever the numerator: TENURE by hypothesis, and
  CREDIT_LIMIT + 1 also where the credit limit is zero. The four derived columns that
  \<open>preprocess\<close> writes are these quotients. A table of the generator, of more than
  313 rows, meets the hypotheses: its TENURE values lie in 6 to 12 and its imputed
  CREDIT_LIMIT values are non-negative and below \<open>2^64 - 1\<close>.
\<close>

theorem ratio_denominators_nonzero:
  assumes imp: "fill_missing (drop_identifier df) = Inr imp"
    and te: "df_num imp ''TENURE'' = Inr te"
    and cl: "df_num imp ''CREDIT_LIMIT'' = Inr cl"
    and nonneg: "\<forall>x \<in> set cl. cell_le (Fin 0) x \<and> x \<noteq> Fin UINT64_MAX"
    and nonzero: "\<forall>x \<in> set te. x \<noteq> Fin 0"
  shows "(\<forall>num. \<not> divides_by_zero num te \<and> \<not> divides_by_zero num (limit_denominator cl)) \<and>
         (\<forall>out. preprocess df = Inr out \<longrightarrow>
            (\<exists>pu ca ba. df_num imp ''PURCHASES'' = Inr pu \<and>
               df_num imp ''CASH_ADVANCE'' = Inr ca \<and> df_num imp ''BALANCE'' = Inr ba \<and>
               df_num out ''MONTHLY_AVG_PURCHASE'' = Inr (series_div pu te) \<and>
               df_num out ''MONTHLY_AVG_CASH_ADVANCE'' = Inr (series_div ca te) \<and>
               df_num out ''PURCHASE_TO_LIMIT_RATIO'' = Inr (series_div pu (limit_denominator cl)) \<and>
               df_num out ''BALANCE_TO_LIMIT_RATIO'' = Inr (series_div ba (limit_denominator cl)))) \<and>
         (numpy_contract R \<and> 313 < ns \<and>
            generate_credit_card_data R ns seed g0 = Inr (gdf, g) \<longrightarrow>
            (\<exists>gimp gte gcl. fill_missing (drop_identifier gdf) = Inr gimp \<and>
               df_num gimp ''TENURE'' = Inr gte \<and> df_num gimp ''CREDIT_LIMIT'' = Inr gcl \<and>
               (\<forall>x \<in> set gte. \<exists>v. x = Fin (of_int v) \<and> 6 \<le> v \<and> v \<le> 12) \<and>
               (\<forall>x \<in> set gte. x \<noteq> Fin 0) \<and>
               (\<forall>x \<in> set gcl. cell_le (Fin 0) x \<and> x \<noteq> Fin UINT64_MAX)))"
proof -
  from nonzero have z: "Fin 0 \<notin> set te" by blast
  note zl = limit_denominator_nonzero[OF nonneg]
  have a: "\<forall>num. \<not> divides_by_zero num te \<and> \<not> divides_by_zero num (limit_denominator cl)"
  proof (intro allI conjI)
    fix num
    show "\<not> divides_by_zero num te"
      using divides_by_zero_iff[of num te] z by blast
    show "\<not> divides_by_zero num (limit_denominator cl)"
      using divides_by_zero_iff[of num "limit_denominator cl"] zl by blast
  qed
  have b: "\<forall>out. preprocess df = Inr out \<longrightarrow>
            (\<exists>pu ca ba. df_num imp ''PURCHASES'' = Inr pu \<and>
               df_num imp ''CASH_ADVANCE'' = Inr ca \<and> df_num imp ''BALANCE'' = Inr ba \<and>
               df_num out ''MONTHLY_AVG_PURCHASE'' = Inr (series_div pu te) \<and>
               df_num out ''MONTHLY_AVG_CASH_ADVANCE'' = Inr (series_div ca te) \<and>
               df_num out ''PURCHASE_TO_LIMIT_RATIO'' = Inr (series_div pu (limit_denominator cl)) \<and>
               df_num out ''BALANCE_TO_LIMIT_RATIO'' = Inr (series_div ba (limit_denominator cl)))"
  proof (intro allI impI)
    fix out
    assume run: "preprocess df = Inr out"
    show "\<exists>pu ca ba. df_num imp ''PURCHASES'' = Inr pu \<and>
               df_num imp ''CASH_ADVANCE'' = Inr ca \<and> df_num imp ''BALANCE'' = Inr ba \<and>
               df_num out ''MONTHLY_AVG_PURCHASE'' = Inr (series_div pu te) \<and>
               df_num out ''MONTHLY_AVG_CASH_ADVANCE'' = Inr (series_div ca te) \<and>
               df_num out ''PURCHASE_TO_LIMIT_RATIO'' = Inr (series_div pu (limit_denominator cl)) \<and>
               df_num out ''BALANCE_TO_LIMIT_RATIO'' = Inr (series_div ba (limit_denominator cl))"
      by (rule ratio_columns[OF run imp te cl])
  qed
  have c: "numpy_contract R \<and> 313 < ns \<and>
            generate_credit_card_data R ns seed g0 = Inr (gdf, g) \<longrightarrow>
            (\<exists>gimp gte gcl. fill_missing (drop_identifier gdf) = Inr gimp \<and>
               df_num gimp ''TENURE'' = Inr gte \<and> df_num gimp ''CREDIT_LIMIT'' = Inr gcl \<and>
               (\<forall>x \<in> set gte. \<exists>v. x = Fin (of_int v) \<and> 6 \<le> v \<and> v \<le> 12) \<and>
               (\<forall>x \<in> set gte. x \<noteq> Fin 0) \<and>
               (\<forall>x \<in> set gcl. cell_le (Fin 0) x \<and> x \<noteq> Fin UINT64_MAX))"
  proof
    assume h: "numpy_contract R \<and> 313 < ns \<and>
            generate_credit_card_data R ns seed g0 = Inr (gdf, g)"
    show "\<exists>gimp gte gcl. fill_missing (drop_identifier gdf) = Inr gimp \<and>
               df_num gimp ''TENURE'' = Inr gte \<and> df_num gimp ''CREDIT_LIMIT'' = Inr gcl \<and>
               (\<forall>x \<in> set gte. \<exists>v. x = Fin (of_int v) \<and> 6 \<le> v \<and> v \<le> 12) \<and>
               (\<forall>x \<in> set gte. x \<noteq> Fin 0) \<and>
               (\<forall>x \<in> set gcl. cell_le (Fin 0) x \<and> x \<noteq> Fin UINT64_MAX)"
      by (rule generated_denominators[OF h[THEN conjunct1] h[THEN conjunct2, THEN conjunct1]
            h[THEN conjunct2, THEN conjunct2]])
  qed
  show ?thesis by (rule conjI[OF a conjI[OF b c]])
qed

theorem ratio_denominators_nonzero_witness:
  "(\<exists>imp te cl.
      fill_missing (drop_identifier example_raw) = Inr imp \<and>
      df_num imp ''TENURE'' = Inr te \<and> df_num imp ''CREDIT_LIMIT'' = Inr cl \<and>
      (\<forall>x \<in> set cl. cell_le (Fin 0) x \<and> x \<noteq> Fin UINT64_MAX) \<and>
      (\<forall>x \<in> set te. x \<noteq> Fin 0) \<and>
      (\<forall>num. \<not> divides_by_zero num te \<and> \<not> divides_by_zero num (limit_denominator cl)) \<and>
      preprocess example_raw = Inr example_processed \<and>
      (\<exists>pu ca ba. df_num imp ''PURCHASES'' = Inr pu \<and>
         df_num imp ''CASH_ADVANCE'' = Inr ca \<and> df_num imp ''BALANCE'' = Inr ba \<and>
         df_num example_processed ''MONTHLY_AVG_PURCHASE'' = Inr (series_div pu te) \<and>
         df_num example_processed ''MONTHLY_AVG_CASH_ADVANCE'' = Inr (series_div ca te) \<and>
         df_num example_processed ''PURCHASE_TO_LIMIT_RATIO'' =
           Inr (series_div pu (limit_denominator cl)) \<and>
         df_num example_processed ''BALANCE_TO_LIMIT_RATIO'' =
           Inr (series_div ba (limit_denominator cl)))) \<and>
   numpy_contract example_rng \<and> (313 :: int) < 8950 \<and>
   (\<exists>gdf g. generate_credit_card_data example_rng 8950 42 0 = Inr (gdf, g) \<and>
      (\<exists>gimp gte gcl. fill_missing (drop_identifier gdf) = Inr gimp \<and>
         df_num gimp ''TENURE'' = Inr gte \<and> df_num gimp ''CREDIT_LIMIT'' = Inr gcl \<and>
         (\<forall>x \<in> set gte. \<exists>v. x = Fin (of_int v) \<and> 6 \<le> v \<and> v \<le> 12) \<and>
         (\<forall>x \<in> set gte. x \<noteq> Fin 0) \<and>
         (\<forall>x \<in> set gcl. cell_le (Fin 0) x \<and> x \<noteq> Fin UINT64_MAX)))"
proof -
  let ?imp = "df_set ''MINIMUM_PAYMENTS'' [Fin (55 / 2), Fin 30, Fin 25]
      (df_set ''CREDIT_LIMIT'' [Fin 1000, Fin 750, Fin 500] (drop_identifier example_raw))"
  let ?te = "[Fin 10, Fin 12, Fin 6]" and ?cl = "[Fin 1000, Fin 750, Fin 500]"
  have imp: "fill_missing (drop_identifier example_raw) = Inr ?imp" by code_simp
  have te: "df_num ?imp ''TENURE'' = Inr ?te" by code_simp
  have cl: "df_num ?imp ''CREDIT_LIMIT'' = Inr ?cl" by code_simp
  have nonneg: "\<forall>x \<in> set ?cl. cell_le (Fin 0) x \<and> x \<noteq> Fin UINT64_MAX"
    by (simp add: UINT64_MAX_def)
  have nonzero: "\<forall>x \<in> set ?te. x \<noteq> Fin 0" by simp
  have seeded: "rng_seed example_rng 42 (0 :: nat) = Some 42" by (simp add: example_rng_def)
  have n: "(313 :: int) \<le> 8950" "(313 :: int) < 8950" by simp_all
  obtain gdf g where run: "generate_credit_card_data example_rng 8950 42 0 = Inr (gdf, g)"
  proof (rule generate_result[OF example_rng_contract n(1) seeded])
    fix df g
    assume "generate_credit_card_data example_rng 8950 42 0 = Inr (df, g)"
    then show thesis by (rule that)
  qed
  note t = ratio_denominators_nonzero[OF imp te cl nonneg nonzero,
      of example_rng 8950 42 0 gdf g]
  note t1 = t[THEN conjunct1]
  note t2 = t[THEN conjunct2, THEN conjunct1, THEN spec, THEN mp, OF example_preprocess]
  note t3 = t[THEN conjunct2, THEN conjunct2, THEN mp,
      OF conjI[OF example_rng_contract conjI[OF n(2) run]]]
  have a: "\<exists>imp te cl.
      fill_missing (drop_identifier example_raw) = Inr imp \<and>
      df_num imp ''TENURE'' = Inr te \<and> df_num imp ''CREDIT_LIMIT'' = Inr cl \<and>
      (\<forall>x \<in> set cl. cell_le (Fin 0) x \<and> x \<noteq> Fin UINT64_MAX) \<and>
      (\<forall>x \<in> set te. x \<noteq> Fin 0) \<and>
      (\<forall>num. \<not> divides_by_zero num te \<and> \<not> divides_by_zero num (limit_denominator cl)) \<and>
      preprocess example_raw = Inr example_processed \<and>
      (\<exists>pu ca ba. df_num imp ''PURCHASES'' = Inr pu \<and>
         df_num imp ''CASH_ADVANCE'' = Inr ca \<and> df_num imp ''BALANCE'' = Inr ba \<and>
         df_num example_processed ''MONTHLY_AVG_PURCHASE'' = Inr (series_div pu te) \<and>
         df_num example_processed ''MONTHLY_AVG_CASH_ADVANCE'' = Inr (series_div ca te) \<and>
         df_num example_processed ''PURCHASE_TO_LIMIT_RATIO'' =
           Inr (series_div pu (limit_denominator cl)) \<and>
         df_num example_processed ''BALANCE_TO_LIMIT_RATIO'' =
           Inr (series_div ba (limit_denominator cl)))"
    by (rule exI[of _ ?imp], rule exI[of _ ?te], rule exI[of _ ?cl])
      (intro conjI imp te cl nonneg nonzero t1 example_preprocess t2)
  have b: "\<exists>gdf g. generate_credit_card_data example_rng 8950 42 0 = Inr (gdf, g) \<and>
      (\<exists>gimp gte gcl. fill_missing (drop_identifier gdf) = Inr gimp \<and>
         df_num gimp ''TENURE'' = Inr gte \<and> df_num gimp ''CREDIT_LIMIT'' = Inr gcl \<and>
         (\<forall>x \<in> set gte. \<exists>v. x = Fin (of_int v) \<and> 6 \<le> v \<and> v \<le> 12) \<and>
         (\<forall>x \<in> set gte. x \<noteq> Fin 0) \<and>
         (\<forall>x \<in> set gcl. cell_le (Fin 0) x \<and> x \<noteq> Fin UINT64_MAX))"
    by (rule exI[of _ gdf], rule exI[of _ g], rule conjI[OF run t3])
  show ?thesis
    by (rule conjI[OF a conjI[OF example_rng_contract conjI[OF n(2) b]]])
qed

text \<open>
  C9 as stated fails: both credit limits are non-negative and both tenures nonzero,
  yet the first credit limit is \<open>2^64 - 1\<close> in a uint64 column, the sum with 1 wraps
  to 0, and the two limit ratios of that row divide by zero.
\<close>

theorem uint64_limit_counterexample:
  "preprocess max_limit_raw = Inr max_limit_processed \<and>
   (\<exists>imp. fill_missing (drop_identifier max_limit_raw) = Inr imp \<and>
      df_num imp ''TENURE'' = Inr [Fin 12, Fin 10] \<and>
      df_num imp ''CREDIT_LIMIT'' = Inr [Fin UINT64_MAX, Fin 1000] \<and>
      df_num imp ''PURCHASES'' = Inr [Fin 100, Fin 200]) \<and>
   list_all (\<lambda>x. cell_le (Fin 0) x) [Fin UINT64_MAX, Fin 1000] \<and>
   list_all (\<lambda>x. x \<noteq> Fin 0) [Fin 12, Fin 10] \<and>
   limit_denominator [Fin UINT64_MAX, Fin 1000] = [Fin 0, Fin 1001] \<and>
   divides_by_zero [Fin 100, Fin 200] (limit_denominator [Fin UINT64_MAX, Fin 1000]) \<and>
   df_num max_limit_processed ''PURCHASE_TO_LIMIT_RATIO'' = Inr [PInf, Fin (200 / 1001)]"
proof -
  let ?imp = "df_set ''MINIMUM_PAYMENTS'' [Fin 25, Fin 30]
      (df_set ''CREDIT_LIMIT'' [Fin UINT64_MAX, Fin 1000] (drop_identifier max_limit_raw))"
  have "fill_missing (drop_identifier max_limit_raw) = Inr ?imp" by code_simp
  moreover have "df_num ?imp ''TENURE'' = Inr [Fin 12, Fin 10]" by code_simp
  moreover have "df_num ?imp ''CREDIT_LIMIT'' = Inr [Fin UINT64_MAX, Fin 1000]" by code_simp
  moreover have "df_num ?imp ''PURCHASES'' = Inr [Fin 100, Fin 200]" by code_simp
  ultimately have i: "\<exists>imp. fill_missing (drop_identifier max_limit_raw) = Inr imp \<and>
      df_num imp ''TENURE'' = Inr [Fin 12, Fin 10] \<and>
      df_num imp ''CREDIT_LIMIT'' = Inr [Fin UINT64_MAX, Fin 1000] \<and>
      df_num imp ''PURCHASES'' = Inr [Fin 100, Fin 200]"
    by (intro exI conjI)
  have p: "preprocess max_limit_raw = Inr max_limit_processed" by code_simp
  have r: "list_all (\<lambda>x. cell_le (Fin 0) x) [Fin UINT64_MAX, Fin 1000]"
    "list_all (\<lambda>x. x \<noteq> Fin 0) [Fin 12, Fin 10]"
    "limit_denominator [Fin UINT64_MAX, Fin 1000] = [Fin 0, Fin 1001]"
    "divides_by_zero [Fin 100, Fin 200] (limit_denominator [Fin UINT64_MAX, Fin 1000])"
    "df_num max_limit_processed ''PURCHASE_TO_LIMIT_RATIO'' = Inr [PInf, Fin (200 / 1001)]"
    by code_simp+
  from p i r show ?thesis by (intro conjI)
qed

subsection \<open>The command line\<close>



lemma generate_succeeds:
  assumes contract: "numpy_contract R" and n: "313 \<le> ns" and seed: "0 \<le> seed" "seed < 2 ^ 32"
  shows "\<exists>df g. generate_credit_card_data R ns seed g0 = Inr (df, g) \<and> nrows df = nat ns \<and>
           columns df = ''CUST_ID'' # numeric_columns"
proof -
  from contract_seed_valid[OF contract, of seed g0] seed have "rng_seed R seed g0 \<noteq> None"
    by simp
  then obtain g1 where seeded: "rng_seed R seed g0 = Some g1" by (cases "rng_seed R seed g0") auto
  show ?thesis
  proof (rule generate_result[OF contract n seeded])
    fix df g
    assume "generate_credit_card_data R ns seed g0 = Inr (df, g)" "nrows df = nat ns"
      "columns df = ''CUST_ID'' # numeric_columns"
    then show ?thesis by (intro exI conjI)
  qed
qed

lemma main_version_1:
  assumes "parse_args a = Inr 1" and "generate_credit_card_data R 8950 42 g0 = Inr (df, g)"
  shows "main R a g0 fs = Inr (fs(RAW_PATH \<mapsto> df), g)"
  using assms by (simp add: main_def RAW_PATH_def)




subsection \<open>End to end\<close>

lemma ncols_columns: "ncols df = length (columns df)"
  by (simp add: ncols_def columns_def)

lemma preprocess_files_stored:
  assumes "fs RAW_PATH = Some raw" and "preprocess raw = Inr out"
  shows "preprocess_files RAW_PATH PROCESSED_PATH fs = Inr (out, fs(PROCESSED_PATH \<mapsto> out))"
  using assms by (simp add: preprocess_files_def read_csv_def)

text \<open>
  C7. With version selector 1 the three stages run through: the generator writes a raw
  table of shape (8950, 18) from 8950 rows and seed 42, the preprocessor reads it and
  writes a processed table of shape (8950, 21), the 17 numeric columns followed by the
  4 derived ones, and the trainer reads that and reports 8950 samples at contamination
  0.05.
\<close>

theorem end_to_end_version_1:
  assumes numpy: "numpy_contract R" and sklearn: "sklearn_contract sk"
    and version: "parse_args a = Inr 1"
  shows "\<exists>raw g fs1 proc fs2 m.
           generate_credit_card_data R 8950 42 g0 = Inr (raw, g) \<and>
           main R a g0 fs = Inr (fs1, g) \<and> fs1 RAW_PATH = Some raw \<and>
           shape raw = (8950, 18) \<and> columns raw = ''CUST_ID'' # numeric_columns \<and>
           preprocess_files RAW_PATH PROCESSED_PATH fs1 = Inr (proc, fs2) \<and>
           fs2 PROCESSED_PATH = Some proc \<and>
           shape proc = (8950, 21) \<and> columns proc = numeric_columns @ derived_columns \<and>
           train sk fs2 = Inr m \<and> n_samples m = 8950 \<and> contamination m = 5 / 100"
proof -
  have s: "(313 :: int) \<le> 8950" "(0 :: int) \<le> 42" "(42 :: int) < 2 ^ 32" "(313 :: int) < 8950"
    by simp_all
  from generate_succeeds[OF numpy s(1-3), of g0] obtain raw g where
    run: "generate_credit_card_data R 8950 42 g0 = Inr (raw, g)" by (elim exE conjE)
  obtain te cl where
    schema: "in_generator_schema raw" and missing: "missing_only_imputed raw"
    and rows: "nrows raw = nat 8950" and cols: "columns raw = ''CUST_ID'' # numeric_columns"
    and te: "df_num (drop_identifier raw) ''TENURE'' = Inr te" "Fin 0 \<notin> set te"
    and cl: "df_num (drop_identifier raw) ''CREDIT_LIMIT'' = Inr cl"
      "\<forall>x \<in> set cl. isna x \<or> (\<exists>v. x = Fin v \<and> 0 \<le> v \<and> v \<le> 20000)"
  proof (rule generated_imputed[OF numpy s(4) run])
    fix imp te cl
    assume "in_generator_schema raw" "missing_only_imputed raw" "nrows raw = nat 8950"
      "columns raw = ''CUST_ID'' # numeric_columns"
      "df_num (drop_identifier raw) ''TENURE'' = Inr te" "Fin 0 \<notin> set te"
      "df_num (drop_identifier raw) ''CREDIT_LIMIT'' = Inr cl"
      "\<forall>x \<in> set cl. isna x \<or> (\<exists>v. x = Fin v \<and> 0 \<le> v \<and> v \<le> 20000)"
    then show thesis by (rule that)
  qed
  have bound: "20000 < UINT64_MAX" by (simp add: UINT64_MAX_def)
  obtain proc where
    pre: "preprocess raw = Inr proc" and fin: "finite_table proc" and wf: "wf_table proc"
    and prows: "nrows proc = nrows raw"
    and pcols: "columns proc = numeric_columns @ derived_columns"
    by (rule preprocess_finite[OF schema missing te cl bound])
  define fs1 where "fs1 = fs(RAW_PATH \<mapsto> raw)"
  define fs2 where "fs2 = fs1(PROCESSED_PATH \<mapsto> proc)"
  have m: "main R a g0 fs = Inr (fs1, g)"
    unfolding fs1_def by (rule main_version_1[OF version run])
  have r1: "fs1 RAW_PATH = Some raw" by (simp add: fs1_def)
  have r2: "fs2 PROCESSED_PATH = Some proc" by (simp add: fs2_def)
  have pf: "preprocess_files RAW_PATH PROCESSED_PATH fs1 = Inr (proc, fs2)"
    unfolding fs2_def by (rule preprocess_files_stored[where fs = fs1 and raw = raw and out = proc, OF r1 pre])
  have n_raw: "nrows raw = 8950" using rows by simp
  have c_raw: "ncols raw = 18"
    unfolding ncols_columns cols by (simp add: numeric_columns_def)
  have n_proc: "nrows proc = 8950" using prows n_raw by simp
  have c_proc: "ncols proc = 21"
    unfolding ncols_columns pcols by (simp add: numeric_columns_def derived_columns_def)
  have sh_raw: "shape raw = (8950, 18)" by (simp add: shape_def n_raw c_raw)
  have sh_proc: "shape proc = (8950, 21)" by (simp add: shape_def n_proc c_proc)
  have ge: "10 \<le> nrows proc" "10 \<le> ncols proc" by (simp_all add: n_proc c_proc)
  obtain mt where tr: "train sk fs2 = Inr mt" and ns: "n_samples mt = nrows proc"
    and ct: "contamination mt = CONTAMINATION"
    by (rule train_succeeds[where fs = fs2 and df = proc, OF sklearn r2 fin wf ge])
  have ns': "n_samples mt = 8950" using ns n_proc by simp
  have ct': "contamination mt = 5 / 100" using ct by (simp add: CONTAMINATION_def)
  show ?thesis
    by (rule exI[of _ raw], rule exI[of _ g], rule exI[of _ fs1], rule exI[of _ proc],
        rule exI[of _ fs2], rule exI[of _ mt])
      (intro conjI run m r1 sh_raw cols pf r2 sh_proc pcols tr ns' ct')
qed

theorem end_to_end_version_1_witness:
  "numpy_contract example_rng \<and> sklearn_contract example_sklearn \<and>
   parse_args Omitted = Inr 1 \<and>
   (\<exists>raw g fs1 proc fs2 m.
      generate_credit_card_data example_rng 8950 42 0 = Inr (raw, g) \<and>
      main example_rng Omitted 0 Map.empty = Inr (fs1, g) \<and> fs1 RAW_PATH = Some raw \<and>
      shape raw = (8950, 18) \<and> columns raw = ''CUST_ID'' # numeric_columns \<and>
      preprocess_files RAW_PATH PROCESSED_PATH fs1 = Inr (proc, fs2) \<and>
      fs2 PROCESSED_PATH = Some proc \<and>
      shape proc = (8950, 21) \<and> columns proc = numeric_columns @ derived_columns \<and>
      train example_sklearn fs2 = Inr m \<and> n_samples m = 8950 \<and> contamination m = 5 / 100)"
proof -
  have v: "parse_args Omitted = Inr 1" by (simp add: parse_args_def)
  show ?thesis
    by (rule conjI[OF example_rng_contract conjI[OF example_sklearn_contract conjI[OF v
          end_to_end_version_1[OF example_rng_contract example_sklearn_contract v,
            of 0 Map.empty]]]])
qed

end
